(* ===== verification/Prelude.thy ===== *)
theory Prelude
  imports Complex_Main "HOL-Library.Code_Target_Numeral"
begin

text \<open>
  The shared base of the development.  It fixes how the model writes a call that may throw
  (a sum, the thrown value on the left), how such calls are sequenced, and the list facts
  that the lexer, the parser and the text editors of the pricing library use.

  \<^item> \<open>bnd\<close> is the sequencing of two fallible steps; \<open>fold_m\<close> runs a fallible step over a
    list, as a \<open>for\<close> loop whose body may throw does.
  \<^item> The collection \<open>mon\<close> unfolds the sequencing; the rules declared \<open>elim!\<close> invert a run that
    returned normally.
\<close>

named_theorems mon \<open>unfolding of the error monad\<close>

section \<open>Calls that may throw\<close>

definition bnd :: "'e + 'a \<Rightarrow> ('a \<Rightarrow> 'e + 'b) \<Rightarrow> 'e + 'b" where
  "bnd m f = (case m of Inl e \<Rightarrow> Inl e | Inr a \<Rightarrow> f a)"

lemma bnd_simps [simp, mon]:
  "bnd (Inl e) f = Inl e"
  "bnd (Inr a) f = f a"
  by (simp_all add: bnd_def)

lemma bnd_cong [fundef_cong]:
  "m = m' \<Longrightarrow> (\<And>a. m' = Inr a \<Longrightarrow> f a = f' a) \<Longrightarrow> bnd m f = bnd m' f'"
  by (auto simp: bnd_def split: sum.splits)

lemma bnd_Inr_iff: "bnd m f = Inr b \<longleftrightarrow> (\<exists>a. m = Inr a \<and> f a = Inr b)"
  by (cases m) auto

lemma bnd_Inl_iff: "bnd m f = Inl e \<longleftrightarrow> m = Inl e \<or> (\<exists>a. m = Inr a \<and> f a = Inl e)"
  by (cases m) auto

lemma bnd_InrE [elim!]:
  assumes "bnd m f = Inr b"
  obtains a where "m = Inr a" and "f a = Inr b"
  using assms by (auto simp: bnd_Inr_iff)

lemma bnd_assoc: "bnd (bnd m f) g = bnd m (\<lambda>a. bnd (f a) g)"
  by (cases m) auto

lemma bnd_Inr_right [simp]: "bnd m Inr = m"
  by (cases m) auto

lemma bnd_split:
  "P (bnd m f) \<longleftrightarrow> (\<forall>e. m = Inl e \<longrightarrow> P (Inl e)) \<and> (\<forall>a. m = Inr a \<longrightarrow> P (f a))"
  by (cases m) auto

fun fold_m :: "('a \<Rightarrow> 's \<Rightarrow> 'e + 's) \<Rightarrow> 'a list \<Rightarrow> 's \<Rightarrow> 'e + 's" where
  "fold_m f [] s = Inr s"
| "fold_m f (x # xs) s = bnd (f x s) (fold_m f xs)"

lemma fold_m_Nil [simp]: "fold_m f [] = Inr"
  by (rule ext) simp

lemma fold_m_append: "fold_m f (xs @ ys) s = bnd (fold_m f xs s) (fold_m f ys)"
proof (induction xs arbitrary: s)
  case (Cons x xs)
  then have "fold_m f (xs @ ys) = (\<lambda>t. bnd (fold_m f xs t) (fold_m f ys))" by (intro ext)
  then show ?case by (simp add: bnd_assoc)
qed simp

lemma fold_m_cong [fundef_cong]:
  assumes "xs = ys" and "s = t" and "\<And>x u. x \<in> set ys \<Longrightarrow> f x u = g x u"
  shows "fold_m f xs s = fold_m g ys t"
proof -
  have "fold_m f ys u = fold_m g ys u" for u
    using assms(3)
  proof (induction ys arbitrary: u)
    case (Cons y ys)
    then have "fold_m f ys = fold_m g ys" by (intro ext) simp
    with Cons.prems show ?case by simp
  qed simp
  with assms(1,2) show ?thesis by simp
qed

text \<open>An invariant of the loop body is an invariant of the loop.\<close>

lemma fold_m_invariant:
  assumes "fold_m f xs s = Inr t" and "P s"
    and "\<And>x u v. x \<in> set xs \<Longrightarrow> P u \<Longrightarrow> f x u = Inr v \<Longrightarrow> P v"
  shows "P t"
  using assms by (induction xs arbitrary: s) auto

section \<open>Lists of code units\<close>

text \<open>\<open>slice i j xs\<close> is \<open>xs.slice(i, j)\<close> for indices that are not negative.\<close>

definition slice :: "nat \<Rightarrow> nat \<Rightarrow> 'a list \<Rightarrow> 'a list" where
  "slice i j xs = take (j - i) (drop i xs)"

lemma length_slice [simp]: "length (slice i j xs) = min j (length xs) - i"
  by (auto simp: slice_def)

lemma slice_empty [simp]: "j \<le> i \<Longrightarrow> slice i j xs = []"
  by (simp add: slice_def)

lemma slice_full [simp]: "slice 0 (length xs) xs = xs"
  by (simp add: slice_def)

lemma slice_append_slice:
  assumes "i \<le> j" and "j \<le> k"
  shows "slice i j xs @ slice j k xs = slice i k xs"
proof -
  have "k - i = (j - i) + (k - j)" and "drop j xs = drop (j - i) (drop i xs)"
    using assms by simp_all
  then show ?thesis by (simp only: slice_def take_add)
qed

lemma take_slice_drop:
  assumes "i \<le> j"
  shows "take i xs @ slice i j xs @ drop j xs = xs"
proof -
  have "drop j xs = drop (j - i) (drop i xs)"
    using assms by simp
  then show ?thesis by (simp only: slice_def append_take_drop_id)
qed

lemma take_slice: "take n (slice i j xs) = slice i (min j (i + n)) xs"
proof -
  have "min n (j - i) = min j (i + n) - i" by simp
  then show ?thesis by (simp add: slice_def)
qed

lemma drop_slice: "drop n (slice i j xs) = slice (i + n) j xs"
  by (simp add: slice_def drop_take add.commute)

text \<open>The longest prefix on which a test holds, and its length.\<close>

definition span_len :: "('a \<Rightarrow> bool) \<Rightarrow> 'a list \<Rightarrow> nat" where
  "span_len P xs = length (takeWhile P xs)"

lemma span_len_le [simp]: "span_len P xs \<le> length xs"
  by (simp add: span_len_def length_takeWhile_le)

lemma span_len_simps [simp]:
  "span_len P [] = 0"
  "span_len P (x # xs) = (if P x then Suc (span_len P xs) else 0)"
  by (simp_all add: span_len_def)

lemma take_span_len: "take (span_len P xs) xs = takeWhile P xs"
  by (simp add: span_len_def takeWhile_eq_take [symmetric])

lemma drop_span_len: "drop (span_len P xs) xs = dropWhile P xs"
  by (simp add: span_len_def dropWhile_eq_drop [symmetric])

text \<open>\<open>xs.find(P)\<close> and \<open>xs.findIndex(P)\<close>.\<close>

fun find_index :: "('a \<Rightarrow> bool) \<Rightarrow> 'a list \<Rightarrow> nat option" where
  "find_index P [] = None"
| "find_index P (x # xs) = (if P x then Some 0 else map_option Suc (find_index P xs))"

lemma find_index_Some:
  "find_index P xs = Some i \<Longrightarrow> i < length xs \<and> P (xs ! i) \<and> (\<forall>j<i. \<not> P (xs ! j))"
proof (induction xs arbitrary: i)
  case (Cons x xs)
  then show ?case
    by (auto split: if_splits simp: less_Suc_eq_0_disj)
qed simp

lemma find_index_None: "find_index P xs = None \<longleftrightarrow> (\<forall>x \<in> set xs. \<not> P x)"
  by (induction xs) auto

end
