(* ===== verification/JS_Number.thy ===== *)
theory JS_Number
  imports Prelude
begin

text \<open>
  The \<open>number\<close> type of the source language: IEEE 754 binary64 values.

  A finite value other than negative zero is the rational it denotes; \<open>round_double\<close> is
  rounding to nearest, ties to even, with gradual underflow and overflow to infinity, and the
  arithmetic operations round the exact result.  \<open>dyadic\<close> is the set of rationals that
  binary64 can hold: the rounding lands in it and fixes it (\<open>round_double_dyadic\<close>,
  \<open>round_double_fixes_dyadic\<close>), and whole numbers up to \<open>2 ^ 53\<close> are in it.
  \<open>safe_add_exact\<close> and its companions are what the evaluator's safe-integer guard rests on: a
  rounded result that is a safe integer is the exact one.
\<close>

datatype jsnum = NaN | PosInf | NegInf | NegZero | Fin rat

section \<open>Rounding to binary64\<close>

text \<open>\<open>nlog b n\<close> is the integer part of the logarithm of \<open>n\<close> to the base \<open>b\<close>.\<close>

fun nlog :: "nat \<Rightarrow> nat \<Rightarrow> nat" where
  "nlog b n = (if b < 2 \<or> n < b then 0 else Suc (nlog b (n div b)))"

declare nlog.simps [simp del]

definition ilog :: "nat \<Rightarrow> rat \<Rightarrow> int" where
  "ilog b x = (if 1 \<le> x then int (nlog b (nat \<lfloor>x\<rfloor>))
     else - int (Suc (nlog b (nat (\<lceil>1 / x\<rceil> - 1)))))"

text \<open>Integer powers of the base, as quotients the simplifier can compute.\<close>

definition pow2 :: "int \<Rightarrow> rat" where
  "pow2 k = (if 0 \<le> k then 2 ^ nat k else 1 / 2 ^ nat (- k))"

definition round_half_even :: "rat \<Rightarrow> int" where
  "round_half_even x =
     (let f = \<lfloor>x\<rfloor>; r = x - of_int f
      in if r < 1 / 2 then f else if 1 / 2 < r then f + 1
         else if even f then f else f + 1)"

definition ulp :: "rat \<Rightarrow> rat" where
  "ulp a = pow2 (max (ilog 2 a - 52) (- 1074))"

definition round_mag :: "rat \<Rightarrow> rat" where
  "round_mag a = of_int (round_half_even (a / ulp a)) * ulp a"

definition round_double :: "rat \<Rightarrow> jsnum" where
  "round_double x =
     (if x = 0 then Fin 0
      else let m = round_mag \<bar>x\<bar>
           in if 2 ^ 1024 \<le> m then (if x < 0 then NegInf else PosInf)
              else if m = 0 then (if x < 0 then NegZero else Fin 0)
              else Fin (if x < 0 then - m else m))"

definition dyadic :: "rat \<Rightarrow> bool" where
  "dyadic x \<longleftrightarrow> (\<exists>n k. x = of_int n * pow2 k \<and> \<bar>n\<bar> \<le> 2 ^ 53 \<and> - 1074 \<le> k \<and> \<bar>x\<bar> < 2 ^ 1024)"

section \<open>Classification\<close>

definition is_finite :: "jsnum \<Rightarrow> bool" where
  "is_finite x = (case x of NegZero \<Rightarrow> True | Fin q \<Rightarrow> True | _ \<Rightarrow> False)"

text \<open>The rational a finite number denotes; both zeros denote 0.\<close>

definition fval :: "jsnum \<Rightarrow> rat" where
  "fval x = (case x of Fin q \<Rightarrow> q | _ \<Rightarrow> 0)"

definition neg_sign :: "jsnum \<Rightarrow> bool" where
  "neg_sign x = (case x of NegInf \<Rightarrow> True | NegZero \<Rightarrow> True | Fin q \<Rightarrow> q < 0 | _ \<Rightarrow> False)"

definition is_integer :: "jsnum \<Rightarrow> bool" where
  "is_integer x = (is_finite x \<and> of_int \<lfloor>fval x\<rfloor> = fval x)"

definition max_safe_integer :: rat where
  "max_safe_integer = 2 ^ 53 - 1"

definition is_safe_integer :: "jsnum \<Rightarrow> bool" where
  "is_safe_integer x = (is_integer x \<and> \<bar>fval x\<bar> \<le> max_safe_integer)"

text \<open>Values that a run of the program can hold: a \<open>Fin\<close> carries a binary64 rational.\<close>

definition wf_num :: "jsnum \<Rightarrow> bool" where
  "wf_num x = (case x of Fin q \<Rightarrow> dyadic q | _ \<Rightarrow> True)"

section \<open>Arithmetic and comparison\<close>

definition signed_zero :: "bool \<Rightarrow> jsnum" where
  "signed_zero neg = (if neg then NegZero else Fin 0)"

definition signed_inf :: "bool \<Rightarrow> jsnum" where
  "signed_inf neg = (if neg then NegInf else PosInf)"

definition js_neg :: "jsnum \<Rightarrow> jsnum" where
  "js_neg x = (case x of NaN \<Rightarrow> NaN | PosInf \<Rightarrow> NegInf | NegInf \<Rightarrow> PosInf | NegZero \<Rightarrow> Fin 0
     | Fin q \<Rightarrow> if q = 0 then NegZero else Fin (- q))"

definition js_add :: "jsnum \<Rightarrow> jsnum \<Rightarrow> jsnum" where
  "js_add x y =
     (if x = NaN \<or> y = NaN then NaN
      else if \<not> is_finite x then (if \<not> is_finite y \<and> x \<noteq> y then NaN else x)
      else if \<not> is_finite y then y
      else if x = NegZero \<and> y = NegZero then NegZero
      else round_double (fval x + fval y))"

definition js_sub :: "jsnum \<Rightarrow> jsnum \<Rightarrow> jsnum" where
  "js_sub x y = js_add x (js_neg y)"

definition js_mul :: "jsnum \<Rightarrow> jsnum \<Rightarrow> jsnum" where
  "js_mul x y =
     (let neg = (neg_sign x \<noteq> neg_sign y)
      in if x = NaN \<or> y = NaN then NaN
         else if \<not> is_finite x \<or> \<not> is_finite y
         then (if (is_finite x \<and> fval x = 0) \<or> (is_finite y \<and> fval y = 0) then NaN else signed_inf neg)
         else if fval x = 0 \<or> fval y = 0 then signed_zero neg
         else round_double (fval x * fval y))"

definition js_div :: "jsnum \<Rightarrow> jsnum \<Rightarrow> jsnum" where
  "js_div x y =
     (let neg = (neg_sign x \<noteq> neg_sign y)
      in if x = NaN \<or> y = NaN then NaN
         else if \<not> is_finite x then (if \<not> is_finite y then NaN else signed_inf neg)
         else if \<not> is_finite y then signed_zero neg
         else if fval y = 0 then (if fval x = 0 then NaN else signed_inf neg)
         else if fval x = 0 then signed_zero neg
         else round_double (fval x / fval y))"

text \<open>The remainder \<open>x % y\<close> truncates the quotient towards zero and has the sign of \<open>x\<close>.\<close>

definition trunc_rat :: "rat \<Rightarrow> int" where
  "trunc_rat q = (if q < 0 then \<lceil>q\<rceil> else \<lfloor>q\<rfloor>)"

definition js_rem :: "jsnum \<Rightarrow> jsnum \<Rightarrow> jsnum" where
  "js_rem x y =
     (if x = NaN \<or> y = NaN \<or> \<not> is_finite x then NaN
      else if \<not> is_finite y then x
      else if fval y = 0 then NaN
      else if fval x = 0 then x
      else let r = fval x - fval y * of_int (trunc_rat (fval x / fval y))
           in if r = 0 then signed_zero (neg_sign x) else round_double r)"

definition js_eq :: "jsnum \<Rightarrow> jsnum \<Rightarrow> bool" where
  "js_eq x y = (if x = NaN \<or> y = NaN then False
     else if is_finite x \<and> is_finite y then fval x = fval y else x = y)"

definition js_lt :: "jsnum \<Rightarrow> jsnum \<Rightarrow> bool" where
  "js_lt x y = (if x = NaN \<or> y = NaN then False
     else if is_finite x \<and> is_finite y then fval x < fval y
     else if x = y then False
     else x = NegInf \<or> y = PosInf)"

definition js_le :: "jsnum \<Rightarrow> jsnum \<Rightarrow> bool" where
  "js_le x y = (js_lt x y \<or> js_eq x y)"

definition js_min :: "jsnum \<Rightarrow> jsnum \<Rightarrow> jsnum" where
  "js_min x y = (if x = NaN \<or> y = NaN then NaN
     else if js_lt y x \<or> (js_eq x y \<and> neg_sign y) then y else x)"

definition js_max :: "jsnum \<Rightarrow> jsnum \<Rightarrow> jsnum" where
  "js_max x y = (if x = NaN \<or> y = NaN then NaN
     else if js_lt x y \<or> (js_eq x y \<and> neg_sign x) then y else x)"

definition js_abs :: "jsnum \<Rightarrow> jsnum" where
  "js_abs x = (if neg_sign x then js_neg x else x)"

definition js_floor :: "jsnum \<Rightarrow> jsnum" where
  "js_floor x = (case x of Fin q \<Rightarrow> Fin (of_int \<lfloor>q\<rfloor>) | _ \<Rightarrow> x)"

definition js_ceil :: "jsnum \<Rightarrow> jsnum" where
  "js_ceil x = (case x of Fin q \<Rightarrow>
       if \<lceil>q\<rceil> = 0 then signed_zero (q < 0) else Fin (of_int \<lceil>q\<rceil>) | _ \<Rightarrow> x)"

definition num_of_int :: "int \<Rightarrow> jsnum" where
  "num_of_int i = round_double (of_int i)"

section \<open>Facts about the rounding\<close>

lemma pow2_pos [simp]: "0 < pow2 k"
  by (simp add: pow2_def)

lemma pow2_nonzero [simp]: "pow2 k \<noteq> 0"
  using pow2_pos [of k] by linarith

lemma pow2_powi: "pow2 k = 2 powi k"
  by (auto simp: pow2_def power_int_def power_one_over)

lemma pow2_add: "pow2 (j + k) = pow2 j * pow2 k"
  by (simp add: pow2_powi power_int_add)

lemma pow2_of_nat: "pow2 (int n) = 2 ^ n"
  by (simp add: pow2_def)

lemma pow2_mono: "j \<le> k \<Longrightarrow> pow2 j \<le> pow2 k"
  by (simp add: pow2_powi power_int_increasing)

lemma pow2_mono_strict: "j < k \<Longrightarrow> pow2 j < pow2 k"
  by (simp add: pow2_powi power_int_strict_increasing)

lemma nlog_bounds:
  "2 \<le> b \<Longrightarrow> 1 \<le> n \<Longrightarrow> b ^ nlog b n \<le> n \<and> n < b ^ Suc (nlog b n)"
proof (induction b n rule: nlog.induct)
  case (1 b n)
  show ?case
  proof (cases "n < b")
    case True
    with 1 show ?thesis by (simp add: nlog.simps [of b n])
  next
    case False
    with 1 have IH: "b ^ nlog b (n div b) \<le> n div b" "n div b < b ^ Suc (nlog b (n div b))"
      by (auto simp: div_greater_zero_iff Suc_leI)
    have "b * b ^ nlog b (n div b) \<le> n"
      using IH(1) by (metis mult.commute mult_le_mono1 order_trans div_times_less_eq_dividend)
    moreover have "n < b * b ^ Suc (nlog b (n div b))"
      using IH(2) "1.prems" by (simp add: div_less_iff_less_mult mult.commute mult.left_commute)
    ultimately show ?thesis
      using False "1.prems" by (simp add: nlog.simps [of b n])
  qed
qed

lemma pow_le_of_nat:
  "2 ^ k \<le> n \<Longrightarrow> (2::rat) ^ k \<le> of_nat n"
  "n + 1 \<le> 2 ^ k \<Longrightarrow> of_nat n + 1 \<le> (2::rat) ^ k"
proof -
  assume "2 ^ k \<le> n"
  then have "rat_of_nat (2 ^ k) \<le> of_nat n" by (simp only: of_nat_le_iff)
  then show "(2::rat) ^ k \<le> of_nat n" by simp
next
  assume "n + 1 \<le> 2 ^ k"
  then have "rat_of_nat (n + 1) \<le> of_nat (2 ^ k)" by (simp only: of_nat_le_iff)
  then show "of_nat n + 1 \<le> (2::rat) ^ k" by simp
qed

lemma ilog_bounds:
  assumes "0 < x"
  shows "pow2 (ilog 2 x) \<le> x" and "x < pow2 (ilog 2 x + 1)"
proof -
  have "pow2 (ilog 2 x) \<le> x \<and> x < pow2 (ilog 2 x + 1)"
  proof (cases "1 \<le> x")
    case True
    define n where "n = nat \<lfloor>x\<rfloor>"
    have n: "1 \<le> n" "of_nat n \<le> x" "x < of_nat n + 1"
      using True floor_correct [of x] by (auto simp: n_def le_nat_iff le_floor_iff)
    from nlog_bounds [of 2 n] n(1) have "2 ^ nlog 2 n \<le> n" "n + 1 \<le> 2 ^ Suc (nlog 2 n)" by auto
    then have "(2::rat) ^ nlog 2 n \<le> of_nat n" "of_nat n + 1 \<le> (2::rat) ^ Suc (nlog 2 n)"
      by (auto intro: pow_le_of_nat simp del: power_Suc)
    with n have "2 ^ nlog 2 n \<le> x" "x < 2 ^ Suc (nlog 2 n)" by linarith+
    moreover have "ilog 2 x = int (nlog 2 n)" using True by (simp add: ilog_def n_def)
    ultimately show ?thesis
      by (simp add: pow2_def nat_add_distrib)
  next
    case False
    define c where "c = \<lceil>1 / x\<rceil>"
    define m where "m = nat (c - 1)"
    have "1 < 1 / x" using False assms by simp
    moreover have cx: "1 / x \<le> of_int c" "of_int c - 1 < 1 / x" unfolding c_def by linarith+
    ultimately have "2 \<le> c" by linarith
    then have m: "1 \<le> m" and mi: "rat_of_nat m = of_int c - 1" by (auto simp: m_def)
    from mi cx have mx: "of_nat m < 1 / x" "1 / x \<le> of_nat m + 1" by simp_all
    from nlog_bounds [of 2 m] m have "2 ^ nlog 2 m \<le> m" "m + 1 \<le> 2 ^ Suc (nlog 2 m)" by auto
    then have "(2::rat) ^ nlog 2 m \<le> of_nat m" "of_nat m + 1 \<le> (2::rat) ^ Suc (nlog 2 m)"
      by (auto intro: pow_le_of_nat simp del: power_Suc)
    with mx have l: "(2::rat) ^ nlog 2 m < 1 / x" and u: "1 / x \<le> (2::rat) ^ Suc (nlog 2 m)"
      by linarith+
    have il: "ilog 2 x = - int (Suc (nlog 2 m))"
      using False by (simp add: ilog_def m_def c_def)
    have "pow2 (ilog 2 x) = 1 / 2 ^ Suc (nlog 2 m)" "pow2 (ilog 2 x + 1) = 1 / 2 ^ nlog 2 m"
      by (simp_all add: il pow2_def nat_add_distrib)
    moreover have "x < 1 / 2 ^ nlog 2 m" using l assms by (simp add: field_simps)
    moreover have "1 / 2 ^ Suc (nlog 2 m) \<le> x" using u assms by (simp add: field_simps)
    ultimately show ?thesis by simp
  qed
  then show "pow2 (ilog 2 x) \<le> x" and "x < pow2 (ilog 2 x + 1)" by simp_all
qed

text \<open>Rounding to an integer is monotone, fixes integers, and so respects integer bounds.\<close>

lemma round_half_even_of_int [simp]: "round_half_even (of_int n) = n"
  by (simp add: round_half_even_def)

lemma round_half_even_ge: "of_int n \<le> x \<Longrightarrow> n \<le> round_half_even x"
proof -
  assume "of_int n \<le> x"
  then have "n \<le> \<lfloor>x\<rfloor>" by (simp add: le_floor_iff)
  then show ?thesis by (auto simp: round_half_even_def Let_def)
qed

lemma round_half_even_le: "x \<le> of_int n \<Longrightarrow> round_half_even x \<le> n"
proof -
  assume x: "x \<le> of_int n"
  have f: "of_int \<lfloor>x\<rfloor> \<le> x" "x < of_int \<lfloor>x\<rfloor> + 1" by linarith+
  show ?thesis
  proof (cases "x = of_int \<lfloor>x\<rfloor>")
    case True
    with x have "\<lfloor>x\<rfloor> \<le> n" by linarith
    with True show ?thesis by (simp add: round_half_even_def Let_def)
  next
    case False
    with f x have "\<lfloor>x\<rfloor> < n" by linarith
    then show ?thesis by (auto simp: round_half_even_def Let_def)
  qed
qed

lemma ulp_pos [simp]: "0 < ulp a"
  by (simp add: ulp_def)

lemma ulp_nonzero [simp]: "ulp a \<noteq> 0"
  using ulp_pos [of a] by linarith

lemma round_mag_nonneg: "0 < a \<Longrightarrow> 0 \<le> round_mag a"
proof -
  assume "0 < a"
  then have "0 \<le> round_half_even (a / ulp a)"
    by (intro round_half_even_ge) (simp add: less_imp_le)
  then show ?thesis by (simp add: round_mag_def less_imp_le)
qed

text \<open>The significand of the rounded value fits in 53 bits.\<close>

lemma scaled_le:
  assumes "0 < a"
  shows "a / ulp a \<le> 2 ^ 53"
proof -
  let ?j = "max (ilog 2 a - 52) (- 1074)"
  have "a < pow2 (ilog 2 a + 1)" using assms by (rule ilog_bounds)
  also have "\<dots> \<le> pow2 (53 + ?j)" by (rule pow2_mono) simp
  also have "\<dots> = 2 ^ 53 * ulp a" unfolding ulp_def pow2_add by (simp add: pow2_def)
  finally show ?thesis using ulp_pos [of a] by (simp add: divide_le_eq)
qed

lemma round_mag_dyadic:
  assumes "0 < a" and "round_mag a < 2 ^ 1024"
  shows "dyadic (round_mag a)"
proof -
  have "round_half_even (a / ulp a) \<le> 2 ^ 53"
    using scaled_le [OF assms(1)] by (intro round_half_even_le) simp
  moreover have "0 \<le> round_half_even (a / ulp a)"
    using assms(1) by (intro round_half_even_ge) (simp add: less_imp_le)
  ultimately show ?thesis
    using assms(2) round_mag_nonneg [OF assms(1)]
    unfolding dyadic_def
    by (intro exI [of _ "round_half_even (a / ulp a)"] exI [of _ "max (ilog 2 a - 52) (- 1074)"])
      (simp add: round_mag_def ulp_def)
qed

lemma dyadic_minus [simp]: "dyadic (- x) \<longleftrightarrow> dyadic x"
proof -
  have "dyadic (- x)" if "dyadic x" for x
  proof -
    from that obtain n k where "x = of_int n * pow2 k" "\<bar>n\<bar> \<le> 2 ^ 53" "- 1074 \<le> k" "\<bar>x\<bar> < 2 ^ 1024"
      by (auto simp: dyadic_def)
    then show ?thesis unfolding dyadic_def by (intro exI [of _ "- n"] exI [of _ k]) simp
  qed
  from this [of x] this [of "- x"] show ?thesis by auto
qed

lemma dyadic_0 [simp]: "dyadic 0"
  unfolding dyadic_def by (rule exI [of _ 0], rule exI [of _ 0]) simp

lemma dyadic_of_int:
  assumes "\<bar>n\<bar> \<le> 2 ^ 53"
  shows "dyadic (of_int n)"
proof -
  have "\<bar>rat_of_int n\<bar> \<le> of_int (2 ^ 53)"
    using assms by (metis of_int_abs of_int_le_iff)
  then have "\<bar>rat_of_int n\<bar> < 2 ^ 1024" by simp
  with assms show ?thesis
    unfolding dyadic_def by (intro exI [of _ n] exI [of _ 0]) (simp add: pow2_def)
qed

text \<open>A binary64 rational is a whole number of its own units in the last place.\<close>

lemma dyadic_scaled_int:
  assumes "dyadic a" and "0 < a"
  shows "\<exists>m. a / ulp a = of_int m"
proof -
  from assms(1) obtain n k where a: "a = of_int n * pow2 k" and n: "\<bar>n\<bar> \<le> 2 ^ 53" and k: "- 1074 \<le> k"
    by (auto simp: dyadic_def)
  let ?j = "max (ilog 2 a - 52) (- 1074)"
  show ?thesis
  proof (cases "?j \<le> k")
    case True
    have "pow2 k = 2 ^ nat (k - ?j) * ulp a"
      using True pow2_add [of "k - ?j" ?j] by (simp add: pow2_def [of "k - ?j"] ulp_def)
    then have "a = of_int (n * 2 ^ nat (k - ?j)) * ulp a"
      using a by simp
    with ulp_nonzero have "a / ulp a = of_int (n * 2 ^ nat (k - ?j))"
      by (rule nonzero_divide_eq_eq [THEN iffD2])
    then show ?thesis ..
  next
    case False
    with k have j: "?j = ilog 2 a - 52" by linarith
    have "rat_of_int n \<le> 2 ^ 53" using n
      by (metis abs_le_D1 of_int_le_iff of_int_numeral of_int_power)
    then have "a \<le> 2 ^ 53 * pow2 k" by (simp add: a)
    also have "\<dots> = pow2 (53 + k)" unfolding pow2_add by (simp add: pow2_def [of 53])
    also have "\<dots> \<le> pow2 (ilog 2 a)" using False j by (intro pow2_mono) linarith
    finally have "a = pow2 (ilog 2 a)" using ilog_bounds(1) [OF assms(2)] by simp
    also have "\<dots> = pow2 (52 + ?j)" using j by simp
    also have "\<dots> = 2 ^ 52 * ulp a" unfolding pow2_add ulp_def by (simp add: pow2_def [of 52])
    finally have "a / ulp a = of_int (2 ^ 52)" using ulp_pos [of a] by (simp add: divide_eq_eq)
    then show ?thesis ..
  qed
qed

lemma round_mag_fixes_dyadic:
  assumes "dyadic a" and "0 < a"
  shows "round_mag a = a"
proof -
  from dyadic_scaled_int [OF assms] obtain m where m: "a / ulp a = of_int m" ..
  then have "round_mag a = of_int m * ulp a"
    by (simp add: round_mag_def)
  also have "\<dots> = a" using m by (simp add: divide_eq_eq)
  finally show ?thesis .
qed

lemma round_double_fixes_dyadic:
  assumes "dyadic x"
  shows "round_double x = Fin x"
proof (cases "x = 0")
  case False
  have "dyadic \<bar>x\<bar>" using assms by (simp add: abs_if)
  with False have "round_mag \<bar>x\<bar> = \<bar>x\<bar>" by (intro round_mag_fixes_dyadic) auto
  moreover have "\<bar>x\<bar> < 2 ^ 1024" using assms by (auto simp: dyadic_def)
  ultimately show ?thesis using False by (auto simp: round_double_def Let_def)
qed (simp add: round_double_def)

lemma round_double_dyadic:
  assumes "round_double x = Fin y"
  shows "dyadic y"
proof (cases "x = 0")
  case False
  then have "dyadic (round_mag \<bar>x\<bar>)" if "round_mag \<bar>x\<bar> < 2 ^ 1024"
    using that by (intro round_mag_dyadic) auto
  with assms False show ?thesis
    by (auto simp: round_double_def Let_def not_le split: if_splits)
qed (use assms in \<open>auto simp: round_double_def\<close>)

lemma wf_round_double [simp]: "wf_num (round_double x)"
  using round_double_dyadic [of x] by (auto simp: wf_num_def split: jsnum.splits)

section \<open>Safe integers are exact\<close>

lemma round_mag_ge_pow53:
  assumes "2 ^ 53 \<le> a"
  shows "2 ^ 53 \<le> round_mag a"
proof -
  have a: "0 < a" using assms by (rule less_le_trans [rotated]) simp
  have e: "53 \<le> ilog 2 a"
  proof (rule ccontr)
    assume "\<not> 53 \<le> ilog 2 a"
    then have "pow2 (ilog 2 a + 1) \<le> pow2 53" by (intro pow2_mono) simp
    with ilog_bounds(2) [OF a] assms show False by (simp add: pow2_def [of 53])
  qed
  have u: "pow2 (ilog 2 a) = 2 ^ 52 * ulp a"
    using e pow2_add [of 52 "ilog 2 a - 52"] by (simp add: ulp_def pow2_def [of 52])
  with ilog_bounds(1) [OF a] have "of_int (2 ^ 52) \<le> a / ulp a"
    by (simp add: le_divide_eq)
  then have "2 ^ 52 \<le> round_half_even (a / ulp a)" by (rule round_half_even_ge)
  then have "rat_of_int (2 ^ 52) \<le> of_int (round_half_even (a / ulp a))"
    by (simp only: of_int_le_iff)
  then have "2 ^ 52 * ulp a \<le> round_mag a"
    unfolding round_mag_def by (intro mult_right_mono) (simp_all add: less_imp_le)
  moreover have "pow2 53 \<le> pow2 (ilog 2 a)" using e by (rule pow2_mono)
  ultimately show ?thesis using u by (simp add: pow2_def [of 53])
qed

lemma safe_rounding_exact:
  assumes "is_safe_integer (round_double (of_int n))"
  shows "round_double (of_int n) = Fin (of_int n)"
proof (cases "\<bar>n\<bar> \<le> 2 ^ 53")
  case True
  then show ?thesis by (intro round_double_fixes_dyadic dyadic_of_int)
next
  case False
  then have "2 ^ 53 \<le> \<bar>n\<bar>" by simp
  then have "rat_of_int (2 ^ 53) \<le> of_int \<bar>n\<bar>" by (simp only: of_int_le_iff)
  then have m: "2 ^ 53 \<le> round_mag \<bar>rat_of_int n\<bar>" by (intro round_mag_ge_pow53) simp
  then have "\<bar>fval (round_double (of_int n))\<bar> \<ge> 2 ^ 53 \<or> \<not> is_finite (round_double (of_int n))"
    using False by (auto simp: round_double_def Let_def fval_def is_finite_def)
  with assms show ?thesis
    by (auto simp: is_safe_integer_def is_integer_def max_safe_integer_def)
qed

lemma fval_Fin [simp]: "fval (Fin q) = q"
  by (simp add: fval_def)

lemma is_integerE:
  assumes "is_integer x"
  obtains i where "fval x = of_int i"
  using assms by (metis is_integer_def)

lemma safe_add_exact:
  assumes "is_integer x" and "is_integer y" and "is_safe_integer (js_add x y)"
  shows "fval (js_add x y) = fval x + fval y"
proof -
  from assms(1,2) obtain i j where i: "fval x = of_int i" and j: "fval y = of_int j"
    by (metis is_integerE)
  have f: "is_finite x" "is_finite y" "x \<noteq> NaN" "y \<noteq> NaN"
    using assms(1,2) by (auto simp: is_integer_def is_finite_def)
  show ?thesis
  proof (cases "x = NegZero \<and> y = NegZero")
    case True
    then show ?thesis by (simp add: js_add_def is_finite_def fval_def)
  next
    case False
    with f have eq: "js_add x y = round_double (of_int (i + j))"
      by (auto simp: js_add_def i j)
    with assms(3) have "js_add x y = Fin (of_int (i + j))"
      using safe_rounding_exact [of "i + j"] by simp
    then show ?thesis by (simp add: i j)
  qed
qed

lemma is_integer_neg: "is_integer x \<Longrightarrow> is_integer (js_neg x)"
proof -
  assume x: "is_integer x"
  then obtain i where "fval x = of_int i" by (rule is_integerE)
  with x show ?thesis
    by (cases x) (auto simp: is_integer_def js_neg_def is_finite_def fval_def
        simp flip: of_int_minus)
qed

lemma fval_neg: "is_finite x \<Longrightarrow> fval (js_neg x) = - fval x"
  by (cases x) (auto simp: js_neg_def is_finite_def fval_def)

lemma safe_sub_exact:
  assumes "is_integer x" and "is_integer y" and "is_safe_integer (js_sub x y)"
  shows "fval (js_sub x y) = fval x - fval y"
proof -
  have "is_finite y" using assms(2) by (simp add: is_integer_def)
  then show ?thesis
    using safe_add_exact [of x "js_neg y"] assms by (simp add: js_sub_def is_integer_neg fval_neg)
qed

lemma safe_mul_exact:
  assumes "is_integer x" and "is_integer y" and "is_safe_integer (js_mul x y)"
  shows "fval (js_mul x y) = fval x * fval y"
proof -
  from assms(1,2) obtain i j where i: "fval x = of_int i" and j: "fval y = of_int j"
    by (metis is_integerE)
  have f: "is_finite x" "is_finite y" "x \<noteq> NaN" "y \<noteq> NaN"
    using assms(1,2) by (auto simp: is_integer_def is_finite_def)
  show ?thesis
  proof (cases "fval x = 0 \<or> fval y = 0")
    case True
    with f show ?thesis by (auto simp: js_mul_def signed_zero_def fval_def)
  next
    case False
    with f have "js_mul x y = round_double (of_int (i * j))"
      by (simp add: js_mul_def i j)
    with assms(3) have "js_mul x y = Fin (of_int (i * j))"
      using safe_rounding_exact [of "i * j"] by simp
    then show ?thesis by (simp add: i j)
  qed
qed

section \<open>Evaluation of small values\<close>

text \<open>
  Whole numbers and small binary fractions need no search for the exponent; the code equation
  takes that path first, so concrete prices and token counts evaluate quickly.
\<close>

definition small_denominators :: "int list" where
  "small_denominators = map (\<lambda>k. 2 ^ k) [0..<11]"

lemma one_small_denominator [simp]: "1 \<in> set small_denominators"
  by (simp add: small_denominators_def upt_rec)

lemma dyadic_quotient:
  assumes q: "quotient_of x = (n, d)" and d: "d \<in> set small_denominators" and n: "\<bar>n\<bar> \<le> 9007199254740992"
  shows "dyadic x"
proof -
  from d obtain k where dk: "d = 2 ^ k" and "k \<le> 10"
    by (auto simp: small_denominators_def)
  have x: "x = of_int n * pow2 (- int k)"
    using quotient_of_div [OF q] by (simp add: dk pow2_def divide_inverse)
  have "\<bar>x\<bar> \<le> \<bar>of_int n\<bar>"
    unfolding x by (simp add: abs_mult pow2_def mult_left_le divide_le_eq)
  also have "\<dots> \<le> of_int 9007199254740992"
    using n by (metis of_int_abs of_int_le_iff)
  finally have "\<bar>x\<bar> < 2 ^ 1024" by simp
  with x n \<open>k \<le> 10\<close> show ?thesis
    unfolding dyadic_def by (intro exI [of _ n] exI [of _ "- int k"]) simp
qed

lemma round_double_code [code]:
  "round_double x =
     (case quotient_of x of (n, d) \<Rightarrow>
        if d \<in> set small_denominators \<and> \<bar>n\<bar> \<le> 9007199254740992 then Fin x
        else let m = round_mag \<bar>x\<bar>
             in if 2 ^ 1024 \<le> m then (if x < 0 then NegInf else PosInf)
                else if m = 0 then (if x < 0 then NegZero else Fin 0)
                else Fin (if x < 0 then - m else m))"
proof (cases "quotient_of x")
  case (Pair n d)
  show ?thesis
  proof (cases "d \<in> set small_denominators \<and> \<bar>n\<bar> \<le> 9007199254740992")
    case True
    with Pair have "round_double x = Fin x"
      by (intro round_double_fixes_dyadic dyadic_quotient) auto
    with True Pair show ?thesis by simp
  next
    case False
    have "x \<noteq> 0"
    proof
      assume "x = 0"
      with Pair have "n = 0" and "d = 1" by simp_all
      with False show False by simp
    qed
    then have eq: "round_double x = (let m = round_mag \<bar>x\<bar>
             in if 2 ^ 1024 \<le> m then (if x < 0 then NegInf else PosInf)
                else if m = 0 then (if x < 0 then NegZero else Fin 0)
                else Fin (if x < 0 then - m else m))"
      by (simp add: round_double_def)
    show ?thesis unfolding Pair prod.case if_not_P [OF False] by (rule eq)
  qed
qed

lemma round_double_numeral:
  "numeral n \<le> (9007199254740992 :: int) \<Longrightarrow> round_double (numeral n) = Fin (numeral n)"
  using round_double_fixes_dyadic [OF dyadic_of_int [of "numeral n"]] by simp

lemma round_double_0_1 [simp]: "round_double 0 = Fin 0" "round_double 1 = Fin 1"
  using round_double_fixes_dyadic [OF dyadic_of_int [of 1]] by (simp_all add: round_double_def)

end
