(* ===== verification/JS_String.thy ===== *)
theory JS_String
  imports JS_Number
begin

text \<open>
  Strings of the source language and the library calls the pricing code makes on them.

  A string is its list of UTF-16 code units, as \<open>length\<close>, indexing and \<open>slice\<close> count them;
  \<open>js ''abc''\<close> is the literal \<open>'abc'\<close>.  The regular expressions of the source are written as
  the scanners they denote: \<open>match_number\<close> gives the length of the text a leading
  \<^verbatim>\<open>/^(?:\d+(?:\.\d*)?|\.\d+)(?:[eE][+-]?\d+)?/\<close> matches, \<open>match_name\<close> that of
  \<^verbatim>\<open>/^[A-Za-z_]\w*/\<close>.  \<open>num_of_text\<close> is \<open>Number(text)\<close> on such a text, \<open>num_to_string\<close> is
  \<open>String(x)\<close> with the shortest digits that read back as \<open>x\<close>, \<open>json_quote\<close> is
  \<open>JSON.stringify\<close> of a string.
\<close>

type_synonym jstring = "nat list"

definition js :: "string \<Rightarrow> jstring" where
  "js s = map of_char s"

lemma js_inject [simp]: "js s = js t \<longleftrightarrow> s = t"
  by (simp add: js_def inj_map_eq_map inj_def)

lemma js_Nil [simp]: "js [] = []"
  by (simp add: js_def)

lemma js_eq_Nil [simp]: "js s = [] \<longleftrightarrow> s = []" "[] = js s \<longleftrightarrow> s = []"
  by (auto simp: js_def)

lemma js_append: "js (s @ t) = js s @ js t"
  by (simp add: js_def)

lemma length_js [simp]: "length (js s) = length s"
  by (simp add: js_def)

section \<open>Character classes and trimming\<close>

definition is_ws :: "nat \<Rightarrow> bool" where
  "is_ws c = (c \<in> {9, 10, 11, 12, 13, 32, 160, 5760, 8232, 8233, 8239, 8287, 12288, 65279}
     \<or> (8192 \<le> c \<and> c \<le> 8202))"

definition is_digit :: "nat \<Rightarrow> bool" where
  "is_digit c = (48 \<le> c \<and> c \<le> 57)"

definition is_alpha :: "nat \<Rightarrow> bool" where
  "is_alpha c = ((65 \<le> c \<and> c \<le> 90) \<or> (97 \<le> c \<and> c \<le> 122))"

definition is_word :: "nat \<Rightarrow> bool" where
  "is_word c = (is_alpha c \<or> is_digit c \<or> c = 95)"

definition is_hex :: "nat \<Rightarrow> bool" where
  "is_hex c = (is_digit c \<or> (65 \<le> c \<and> c \<le> 70) \<or> (97 \<le> c \<and> c \<le> 102))"

definition hex_val :: "nat \<Rightarrow> nat" where
  "hex_val c = (if is_digit c then c - 48 else if c \<le> 70 then c - 55 else c - 87)"

definition trim_start :: "jstring \<Rightarrow> jstring" where
  "trim_start s = dropWhile is_ws s"

definition trim :: "jstring \<Rightarrow> jstring" where
  "trim s = rev (dropWhile is_ws (rev (dropWhile is_ws s)))"

definition starts_with :: "jstring \<Rightarrow> jstring \<Rightarrow> bool" where
  "starts_with p s = (take (length p) s = p)"

fun includes_str :: "jstring \<Rightarrow> jstring \<Rightarrow> bool" where
  "includes_str [] p = (p = [])"
| "includes_str (c # s) p = (starts_with p (c # s) \<or> includes_str s p)"

fun join :: "jstring \<Rightarrow> jstring list \<Rightarrow> jstring" where
  "join sep [] = []"
| "join sep [x] = x"
| "join sep (x # y # xs) = x @ sep @ join sep (y # xs)"

text \<open>The order of \<open><\<close> on strings: by code units.\<close>

fun str_less :: "jstring \<Rightarrow> jstring \<Rightarrow> bool" where
  "str_less xs [] = False"
| "str_less [] (y # ys) = True"
| "str_less (x # xs) (y # ys) = (x < y \<or> (x = y \<and> str_less xs ys))"

definition str_le :: "jstring \<Rightarrow> jstring \<Rightarrow> bool" where
  "str_le xs ys = (\<not> str_less ys xs)"

section \<open>Numbers as text\<close>

definition mantissa_len :: "jstring \<Rightarrow> nat" where
  "mantissa_len s =
     (let n = span_len is_digit s
      in if 0 < n
         then (case drop n s of
                 c # rest \<Rightarrow> if c = 46 then n + 1 + span_len is_digit rest else n
               | [] \<Rightarrow> n)
         else (case s of
                 c # rest \<Rightarrow> if c = 46 \<and> 0 < span_len is_digit rest
                             then 1 + span_len is_digit rest else 0
               | [] \<Rightarrow> 0))"

definition exponent_len :: "jstring \<Rightarrow> nat" where
  "exponent_len s =
     (case s of
        c # rest \<Rightarrow>
          if c = 101 \<or> c = 69
          then (case rest of
                  d # rest' \<Rightarrow>
                    if d = 43 \<or> d = 45
                    then (if 0 < span_len is_digit rest' then 2 + span_len is_digit rest' else 0)
                    else (if 0 < span_len is_digit rest then 1 + span_len is_digit rest else 0)
                | [] \<Rightarrow> 0)
          else 0
      | [] \<Rightarrow> 0)"

definition match_number :: "jstring \<Rightarrow> nat option" where
  "match_number s =
     (let m = mantissa_len s
      in if m = 0 then None else Some (m + exponent_len (drop m s)))"

definition match_name :: "jstring \<Rightarrow> nat option" where
  "match_name s =
     (case s of
        c # rest \<Rightarrow> if is_alpha c \<or> c = 95 then Some (1 + span_len is_word rest) else None
      | [] \<Rightarrow> None)"

definition nat_of_digits :: "jstring \<Rightarrow> nat" where
  "nat_of_digits ds = foldl (\<lambda>n d. 10 * n + (d - 48)) 0 ds"

definition pow10 :: "int \<Rightarrow> rat" where
  "pow10 k = (if 0 \<le> k then 10 ^ nat k else 1 / 10 ^ nat (- k))"

text \<open>The exact value of a decimal text \<open>int.frac e exp\<close> that \<open>match_number\<close> accepts.\<close>

definition decimal_value :: "jstring \<Rightarrow> rat" where
  "decimal_value s =
     (let ip = takeWhile is_digit s;
          r1 = dropWhile is_digit s;
          has_dot = (case r1 of c # _ \<Rightarrow> c = 46 | [] \<Rightarrow> False);
          fp = (if has_dot then takeWhile is_digit (tl r1) else []);
          r2 = (if has_dot then dropWhile is_digit (tl r1) else r1);
          ex = (case r2 of
                  c # d # rest \<Rightarrow>
                    if d = 45 then - int (nat_of_digits rest)
                    else if d = 43 then int (nat_of_digits rest)
                    else int (nat_of_digits (d # rest))
                | _ \<Rightarrow> 0)
      in of_nat (nat_of_digits (ip @ fp)) * pow10 (ex - int (length fp)))"

definition num_of_text :: "jstring \<Rightarrow> jsnum" where
  "num_of_text s = round_double (decimal_value s)"

text \<open>Decimal digits of a natural number.\<close>

fun digits_of :: "nat \<Rightarrow> jstring" where
  "digits_of n = (if n < 10 then [48 + n] else digits_of (n div 10) @ [48 + n mod 10])"

declare digits_of.simps [simp del]

definition digits_of_int :: "int \<Rightarrow> jstring" where
  "digits_of_int i = (if i < 0 then 45 # digits_of (nat (- i)) else digits_of (nat i))"

text \<open>
  \<open>decimal_candidates x k\<close>: the decimals \<open>s * 10 ^ (n - k)\<close> with \<open>k\<close> digits next to \<open>x\<close> that
  read back as \<open>x\<close>, with \<open>n\<close>; \<open>shortest_decimal\<close> takes the fewest digits and then the closest.
\<close>

definition decimal_candidates :: "rat \<Rightarrow> nat \<Rightarrow> (nat \<times> int) list" where
  "decimal_candidates x k =
     (let n = ilog 10 x + 1;
          q = x / pow10 (n - int k);
          norm = (\<lambda>s. if s = 10 ^ k then (10 ^ (k - 1), n + 1) else (s, n));
          cands = [nat \<lfloor>q\<rfloor>, nat \<lceil>q\<rceil>];
          good = filter (\<lambda>s. 0 < s \<and> round_double (of_nat s * pow10 (n - int k)) = Fin x) cands
      in map norm (case good of
           [a, b] \<Rightarrow> if q - of_nat a < of_nat b - q \<or> (q - of_nat a = of_nat b - q \<and> even a)
                     then [a] else [b]
         | _ \<Rightarrow> good))"

fun shortest_from :: "rat \<Rightarrow> nat \<Rightarrow> nat \<Rightarrow> nat \<times> nat \<times> int" where
  "shortest_from x k 0 = (nat \<lfloor>x / pow10 (ilog 10 x + 1 - int k)\<rfloor>, k, ilog 10 x + 1)"
| "shortest_from x k (Suc fuel) =
     (case decimal_candidates x k of
        (s, n) # _ \<Rightarrow> (s, k, n)
      | [] \<Rightarrow> shortest_from x (Suc k) fuel)"

definition shortest_decimal :: "rat \<Rightarrow> nat \<times> nat \<times> int" where
  "shortest_decimal x = shortest_from x 1 17"

definition exponent_text :: "int \<Rightarrow> jstring" where
  "exponent_text e = 101 # (if e < 0 then 45 else 43) # digits_of (nat \<bar>e\<bar>)"

definition mantissa_text :: "jstring \<Rightarrow> jstring" where
  "mantissa_text ds = (case ds of d # rest \<Rightarrow> if rest = [] then [d] else d # 46 # rest | [] \<Rightarrow> [])"

definition pos_to_string :: "rat \<Rightarrow> jstring" where
  "pos_to_string x =
     (case shortest_decimal x of (s, k, n) \<Rightarrow>
        let ds = digits_of s
        in if int k \<le> n \<and> n \<le> 21 then ds @ replicate (nat (n - int k)) 48
           else if 0 < n \<and> n \<le> 21 then take (nat n) ds @ 46 # drop (nat n) ds
           else if - 6 < n \<and> n \<le> 0 then [48, 46] @ replicate (nat (- n)) 48 @ ds
           else mantissa_text ds @ exponent_text (n - 1))"

definition num_to_string :: "jsnum \<Rightarrow> jstring" where
  "num_to_string x =
     (case x of
        NaN \<Rightarrow> js ''NaN''
      | PosInf \<Rightarrow> js ''Infinity''
      | NegInf \<Rightarrow> js ''-Infinity''
      | NegZero \<Rightarrow> js ''0''
      | Fin q \<Rightarrow> if q = 0 then js ''0''
                 else if q < 0 then 45 # pos_to_string (- q) else pos_to_string q)"

text \<open>\<open>x.toExponential()\<close> of a finite number, as its mantissa text and its exponent.\<close>

definition to_exponential :: "jsnum \<Rightarrow> jstring \<times> int" where
  "to_exponential x =
     (let q = fval x
      in if q = 0 then (js ''0'', 0)
         else case shortest_decimal \<bar>q\<bar> of (s, k, n) \<Rightarrow>
           ((if q < 0 then [45] else []) @ mantissa_text (digits_of s), n - 1))"

section \<open>JSON text of a string\<close>

definition hex_digit :: "nat \<Rightarrow> nat" where
  "hex_digit d = (if d < 10 then 48 + d else 87 + d)"

definition hex4 :: "nat \<Rightarrow> jstring" where
  "hex4 c = map hex_digit [c div 4096 mod 16, c div 256 mod 16, c div 16 mod 16, c mod 16]"

definition is_high_surrogate :: "nat \<Rightarrow> bool" where
  "is_high_surrogate c = (55296 \<le> c \<and> c \<le> 56319)"

definition is_low_surrogate :: "nat \<Rightarrow> bool" where
  "is_low_surrogate c = (56320 \<le> c \<and> c \<le> 57343)"

definition json_escape :: "nat \<Rightarrow> jstring" where
  "json_escape c =
     (if c = 34 then [92, 34] else if c = 92 then [92, 92]
      else if c = 8 then [92, 98] else if c = 12 then [92, 102]
      else if c = 10 then [92, 110] else if c = 13 then [92, 114]
      else if c = 9 then [92, 116]
      else if c < 32 then [92, 117] @ hex4 c else [c])"

text \<open>A surrogate pair is copied; a surrogate on its own is escaped.\<close>

fun json_body :: "jstring \<Rightarrow> jstring" where
  "json_body [] = []"
| "json_body [c] =
     (if is_high_surrogate c \<or> is_low_surrogate c then [92, 117] @ hex4 c else json_escape c)"
| "json_body (c # d # rest) =
     (if is_high_surrogate c \<and> is_low_surrogate d then c # d # json_body rest
      else if is_high_surrogate c \<or> is_low_surrogate c then [92, 117] @ hex4 c @ json_body (d # rest)
      else json_escape c @ json_body (d # rest))"

definition json_quote :: "jstring \<Rightarrow> jstring" where
  "json_quote s = 34 # json_body s @ [34]"

section \<open>Lemmas\<close>

lemma mantissa_len_le: "mantissa_len s \<le> length s"
proof -
  define n where "n = span_len is_digit s"
  have n: "n \<le> length s" by (simp add: n_def)
  have d: "span_len is_digit rest + 1 \<le> length s - n" if "drop n s = c # rest" for c rest
  proof -
    have "length (c # rest) = length s - n" using that by (metis length_drop)
    then have "Suc (length rest) = length s - n" by simp
    then show ?thesis using span_len_le [of is_digit rest] by linarith
  qed
  show ?thesis
    using n d
    by (auto simp: mantissa_len_def Let_def n_def [symmetric] split: list.splits)
qed

lemma exponent_len_le: "exponent_len s \<le> length s"
  by (auto simp: exponent_len_def split: list.splits)

lemma match_number_bounds:
  assumes "match_number s = Some n"
  shows "0 < n" and "n \<le> length s"
proof -
  have "exponent_len (drop (mantissa_len s) s) \<le> length s - mantissa_len s"
    using exponent_len_le [of "drop (mantissa_len s) s"] by simp
  with assms mantissa_len_le [of s] show "0 < n" and "n \<le> length s"
    by (auto simp: match_number_def Let_def split: if_splits)
qed

lemma match_name_bounds:
  assumes "match_name s = Some n"
  shows "0 < n" and "n \<le> length s"
  using assms by (auto simp: match_name_def split: list.splits if_splits)

lemma digits_of_nonempty [simp]: "digits_of n \<noteq> []"
  by (subst digits_of.simps) simp

lemma digits_of_digit: "c \<in> set (digits_of n) \<Longrightarrow> is_digit c"
proof (induction n rule: digits_of.induct)
  case (1 n)
  then show ?case
    by (cases "n < 10") (auto simp: digits_of.simps [of n] is_digit_def)
qed

lemma nat_of_digits_snoc: "nat_of_digits (ds @ [d]) = 10 * nat_of_digits ds + (d - 48)"
  by (simp add: nat_of_digits_def)

lemma nat_of_digits_of [simp]: "nat_of_digits (digits_of n) = n"
proof (induction n rule: digits_of.induct)
  case (1 n)
  show ?case
  proof (cases "n < 10")
    case True
    then show ?thesis by (simp add: digits_of.simps [of n] nat_of_digits_def)
  next
    case False
    with 1 have "nat_of_digits (digits_of (n div 10)) = n div 10" by simp
    with False show ?thesis by (simp add: digits_of.simps [of n] nat_of_digits_snoc)
  qed
qed

lemma trim_idem [simp]: "trim (trim s) = trim s"
proof -
  define t where "t = dropWhile is_ws s"
  define u where "u = rev (dropWhile is_ws (rev t))"
  have *: "dropWhile is_ws u = u"
  proof (cases u)
    case (Cons c cs)
    have "t = u @ rev (takeWhile is_ws (rev t))"
      unfolding u_def by (metis rev_append rev_rev_ident takeWhile_dropWhile_id)
    with Cons have "t = c # (cs @ rev (takeWhile is_ws (rev t)))" by simp
    then have "t \<noteq> []" and "hd t = c" by (metis list.distinct(1), metis list.sel(1))
    then have "\<not> is_ws c" unfolding t_def by (metis hd_dropWhile)
    then show ?thesis using Cons by simp
  qed simp
  have "dropWhile is_ws (rev u) = rev u" unfolding u_def by simp
  then show ?thesis using * by (simp add: trim_def flip: t_def u_def)
qed

end
