(* ===== verification/Expr_Types.thy ===== *)
theory Expr_Types
  imports JS_String
begin

text \<open>
  The data of the billing expression language and its traversal, \<open>billing-expression/types.ts\<close>.

  An \<open>expr\<close> is an \<open>ExpressionNode\<close> with its source span \<open>[start, end)\<close>.  What the code throws
  is a value of \<open>thrown\<close>: a \<open>BillingExpressionError\<close> with its diagnostic, or an error of the
  language runtime.  \<open>Out_of_fuel\<close> is no value of the program; it marks a parser run that was
  given too little fuel, and \<open>Expr_Parser\<close> shows that none is.

  \<open>visit_loop\<close> is the traversal of the source with its explicit stack and depth bound;
  \<open>visit_loop_refines\<close> shows that it is the recursive postorder traversal \<open>visit_rec\<close>, and
  \<open>expressionDependencies_spec\<close> gives the variables and functions it collects.
\<close>

section \<open>Expressions\<close>

definition TOKEN_VARIABLES :: "jstring list" where
  "TOKEN_VARIABLES = map js
     [''p'', ''c'', ''len'', ''cr'', ''cc'', ''cc1h'', ''img'', ''img_cr'', ''img_o'', ''ai'', ''ao'']"

definition BILLING_VARIABLES :: "jstring list" where
  "BILLING_VARIABLES = TOKEN_VARIABLES @ [js ''image_count'']"

definition TIME_FUNCTIONS :: "jstring list" where
  "TIME_FUNCTIONS = map js [''hour'', ''minute'', ''weekday'', ''month'', ''day'']"

definition BILLING_FUNCTIONS :: "(jstring \<times> nat) list" where
  "BILLING_FUNCTIONS = map (apfst js)
     [(''tier'', 2), (''fixed'', 1), (''param'', 1), (''header'', 1), (''has'', 2), (''u'', 1),
      (''hour'', 1), (''minute'', 1), (''weekday'', 1), (''month'', 1), (''day'', 1),
      (''min'', 2), (''max'', 2), (''abs'', 1), (''ceil'', 1), (''floor'', 1)]"

datatype lit_value = LStr jstring | LNum jsnum | LBool bool | LNull

datatype expr =
    Literal lit_value "bool option" nat nat
  | Variable jstring nat nat
  | Call jstring "expr list" nat nat
  | Unary jstring expr nat nat
  | Binary jstring expr expr nat nat
  | Conditional expr expr expr nat nat

fun e_start :: "expr \<Rightarrow> nat" where
  "e_start (Literal v i a b) = a"
| "e_start (Variable x a b) = a"
| "e_start (Call f es a b) = a"
| "e_start (Unary f x a b) = a"
| "e_start (Binary f x y a b) = a"
| "e_start (Conditional c x y a b) = a"

fun e_end :: "expr \<Rightarrow> nat" where
  "e_end (Literal v i a b) = b"
| "e_end (Variable x a b) = b"
| "e_end (Call f es a b) = b"
| "e_end (Unary f x a b) = b"
| "e_end (Binary f x y a b) = b"
| "e_end (Conditional c x y a b) = b"

text \<open>The object spread \<open>{ ...node, start, end }\<close>.\<close>

fun with_span :: "nat \<Rightarrow> nat \<Rightarrow> expr \<Rightarrow> expr" where
  "with_span a b (Literal v i _ _) = Literal v i a b"
| "with_span a b (Variable x _ _) = Variable x a b"
| "with_span a b (Call f es _ _) = Call f es a b"
| "with_span a b (Unary f x _ _) = Unary f x a b"
| "with_span a b (Binary f x y _ _) = Binary f x y a b"
| "with_span a b (Conditional c x y _ _) = Conditional c x y a b"

section \<open>Diagnostics\<close>

datatype diagnostic_code =
  Code_syntax | Code_unsupported | Code_missing_context | Code_type | Code_number | Code_limit

record expression_diagnostic =
  diag_code :: diagnostic_code
  diag_detail :: jstring
  diag_position :: "nat option"

datatype thrown = Billing_error expression_diagnostic | Js_error jstring | Out_of_fuel

datatype failure_status = Status_unsupported | Status_invalid | Status_missing_context

record expression_failure =
  fail_status :: failure_status
  fail_diagnostic :: expression_diagnostic

definition billing_error :: "diagnostic_code \<Rightarrow> jstring \<Rightarrow> nat option \<Rightarrow> thrown" where
  "billing_error c d p =
     Billing_error \<lparr>diag_code = c, diag_detail = d, diag_position = p\<rparr>"

definition expressionFailure :: "thrown \<Rightarrow> expression_failure" where
  "expressionFailure error =
     (let diagnostic =
        (case error of
           Billing_error d \<Rightarrow> d
         | Js_error m \<Rightarrow> \<lparr>diag_code = Code_syntax, diag_detail = m, diag_position = None\<rparr>
         | Out_of_fuel \<Rightarrow> \<lparr>diag_code = Code_syntax, diag_detail = [], diag_position = None\<rparr>);
        status = Status_invalid;
        status = (if diag_code diagnostic = Code_missing_context then Status_missing_context else status);
        status = (if diag_code diagnostic = Code_unsupported \<or> diag_code diagnostic = Code_limit
                  then Status_unsupported else status)
      in \<lparr>fail_status = status, fail_diagnostic = diagnostic\<rparr>)"

definition limit_error :: "string \<Rightarrow> thrown" where
  "limit_error d = billing_error Code_limit (js d) None"

text \<open>A call that returns or throws one of the program's own diagnostics.\<close>

definition diagnosed :: "thrown + 'a \<Rightarrow> bool" where
  "diagnosed r \<longleftrightarrow> (case r of Inl (Billing_error d) \<Rightarrow> True | Inl _ \<Rightarrow> False | Inr _ \<Rightarrow> True)"

lemma diagnosed_simps [simp]:
  "diagnosed (Inr x)" "diagnosed (Inl (Billing_error d))" "diagnosed (Inl (billing_error c t p))"
  "diagnosed (Inl (limit_error s))" "\<not> diagnosed (Inl Out_of_fuel)" "\<not> diagnosed (Inl (Js_error m))"
  by (simp_all add: diagnosed_def billing_error_def limit_error_def)

lemma diagnosed_Inl: "diagnosed r \<Longrightarrow> r = Inl e \<Longrightarrow> \<exists>d. e = Billing_error d"
  by (cases e) (auto simp: diagnosed_def)

lemma diagnosed_cast: "diagnosed (Inl e :: thrown + 'a) \<Longrightarrow> diagnosed (Inl e :: thrown + 'b)"
  by (cases e) (auto simp: diagnosed_def)

lemma diagnosed_bnd:
  "diagnosed m \<Longrightarrow> (\<And>a. m = Inr a \<Longrightarrow> diagnosed (f a)) \<Longrightarrow> diagnosed (bnd m f)"
  by (cases m) (auto intro: diagnosed_cast)

lemma diagnosed_not_fuel: "diagnosed r \<Longrightarrow> r \<noteq> Inl Out_of_fuel"
  by auto

section \<open>Traversal\<close>

fun children :: "expr \<Rightarrow> expr list" where
  "children (Call f es a b) = es"
| "children (Unary f x a b) = [x]"
| "children (Binary f x y a b) = [x, y]"
| "children (Conditional c x y a b) = [c, x, y]"
| "children _ = []"

fun nodes :: "expr \<Rightarrow> nat" where
  "nodes (Call f es a b) = Suc (sum_list (map nodes es))"
| "nodes (Unary f x a b) = Suc (nodes x)"
| "nodes (Binary f x y a b) = Suc (nodes x + nodes y)"
| "nodes (Conditional c x y a b) = Suc (nodes c + nodes x + nodes y)"
| "nodes _ = 1"

lemma nodes_children: "nodes e = Suc (sum_list (map nodes (children e)))"
  by (cases e) auto

definition entry_weight :: "expr \<times> bool \<times> nat \<Rightarrow> nat" where
  "entry_weight = (\<lambda>(e, visited, d). if visited then 1 else 2 * nodes e)"

lemma sum_list_unvisited:
  "(\<Sum>c\<leftarrow>es. entry_weight (c, False, d)) = 2 * sum_list (map nodes es)"
  by (induction es) (simp_all add: entry_weight_def)

function visit_loop ::
  "(expr \<Rightarrow> 's \<Rightarrow> thrown + 's) \<Rightarrow> (expr \<times> bool \<times> nat) list \<Rightarrow> 's \<Rightarrow> thrown + 's" where
  "visit_loop visitor [] s = Inr s"
| "visit_loop visitor ((node, visited, depth) # stack) s =
     (if 256 < depth then Inl (limit_error ''expression depth'')
      else if visited then bnd (visitor node s) (visit_loop visitor stack)
      else visit_loop visitor
             (map (\<lambda>child. (child, False, depth + 1)) (children node)
              @ (node, True, depth) # stack) s)"
  by pat_completeness auto
termination
proof (relation "measure (\<lambda>(v, stk, s). sum_list (map entry_weight stk))", goal_cases)
  case (3 visitor node visited depth stack s)
  then show ?case
    using nodes_children [of node]
    by (simp add: comp_def sum_list_unvisited) (simp add: entry_weight_def)
qed (auto simp: entry_weight_def)

declare visit_loop.simps(2) [simp del]

lemma visit_loop_Nil [simp]: "visit_loop v [] = Inr"
  by (rule ext) simp

definition visitExpression :: "expr \<Rightarrow> (expr \<Rightarrow> 's \<Rightarrow> thrown + 's) \<Rightarrow> 's \<Rightarrow> thrown + 's" where
  "visitExpression node visitor s = visit_loop visitor [(node, False, 0)] s"

record dependencies =
  dep_variables :: "jstring set"
  dep_functions :: "jstring set"

definition collect_visitor :: "expr \<Rightarrow> dependencies \<Rightarrow> thrown + dependencies" where
  "collect_visitor part s =
     (case part of
        Variable x _ _ \<Rightarrow> Inr (s\<lparr>dep_variables := insert x (dep_variables s)\<rparr>)
      | Call f _ _ _ \<Rightarrow> Inr (s\<lparr>dep_functions := insert f (dep_functions s)\<rparr>)
      | _ \<Rightarrow> Inr s)"

definition expressionDependencies :: "expr \<Rightarrow> thrown + dependencies" where
  "expressionDependencies node =
     visitExpression node collect_visitor \<lparr>dep_variables = {}, dep_functions = {}\<rparr>"

section \<open>The traversal is the recursive postorder\<close>

lemma size_children: "c \<in> set (children e) \<Longrightarrow> size c < size e"
  by (cases e) (auto dest: size_list_estimation' [where f = size and y = "size c"] intro: le_imp_less_Suc)

function visit_rec :: "(expr \<Rightarrow> 's \<Rightarrow> thrown + 's) \<Rightarrow> nat \<Rightarrow> expr \<Rightarrow> 's \<Rightarrow> thrown + 's" where
  "visit_rec visitor d e s =
     (if 256 < d then Inl (limit_error ''expression depth'')
      else bnd (fold_m (visit_rec visitor (d + 1)) (children e) s) (visitor e))"
  by pat_completeness auto
termination
  by (relation "measure (\<lambda>(v, d, e, s). size e)") (auto dest: size_children)

declare visit_rec.simps [simp del]

lemma visit_loop_append:
  "(\<And>c t u. c \<in> set es \<Longrightarrow> visit_loop v ((c, False, d) # t) u = bnd (visit_rec v d c u) (visit_loop v t))
   \<Longrightarrow> visit_loop v (map (\<lambda>c. (c, False, d)) es @ stk) s
       = bnd (fold_m (visit_rec v d) es s) (visit_loop v stk)"
proof (induction es arbitrary: s)
  case (Cons e es)
  then have "visit_loop v (map (\<lambda>c. (c, False, d)) es @ stk) =
      (\<lambda>u. bnd (fold_m (visit_rec v d) es u) (visit_loop v stk))"
    by (intro ext) simp
  with Cons.prems show ?case by (simp add: bnd_assoc)
qed simp

lemma visit_loop_refines:
  "visit_loop v ((e, False, d) # stk) s = bnd (visit_rec v d e s) (visit_loop v stk)"
proof (induction "size e" arbitrary: e d stk s rule: less_induct)
  case less
  show ?case
  proof (cases "256 < d")
    case True
    then show ?thesis by (simp add: visit_rec.simps [of v d e] visit_loop.simps(2))
  next
    case False
    have "visit_loop v ((e, False, d) # stk) s =
        visit_loop v (map (\<lambda>c. (c, False, d + 1)) (children e) @ (e, True, d) # stk) s"
      using False by (simp add: visit_loop.simps(2) [of v e False d])
    also have "\<dots> =
        bnd (fold_m (visit_rec v (d + 1)) (children e) s) (visit_loop v ((e, True, d) # stk))"
      by (rule visit_loop_append) (use less size_children in blast)
    also have "visit_loop v ((e, True, d) # stk) = (\<lambda>u. bnd (v e u) (visit_loop v stk))"
      using False by (intro ext) (simp add: visit_loop.simps(2))
    finally show ?thesis
      using False by (simp add: visit_rec.simps [of v d e] bnd_assoc)
  qed
qed

lemma visitExpression_rec: "visitExpression e v s = visit_rec v 0 e s"
  by (simp add: visitExpression_def visit_loop_refines)

text \<open>Every node of a tree, in the order the visitor sees them, and the height of the tree.\<close>

function subnodes :: "expr \<Rightarrow> expr list" where
  "subnodes e = concat (map subnodes (children e)) @ [e]"
  by pat_completeness auto
termination
  by (relation "measure size") (auto dest: size_children)

function height :: "expr \<Rightarrow> nat" where
  "height e = (if children e = [] then 0 else Suc (Max (set (map height (children e)))))"
  by pat_completeness auto
termination
  by (relation "measure size") (auto dest: size_children)

declare subnodes.simps [simp del] height.simps [simp del]

lemma height_child: "c \<in> set (children e) \<Longrightarrow> height c < height e"
  by (subst (2) height.simps) (auto simp: less_Suc_eq_le)

lemma self_in_subnodes [simp]: "e \<in> set (subnodes e)"
  by (subst subnodes.simps) simp

lemma set_subnodes: "set (subnodes e) = insert e (\<Union>c \<in> set (children e). set (subnodes c))"
  by (subst subnodes.simps) auto

lemma set_subnodes_simps [simp]:
  "set (subnodes (Literal v i a b)) = {Literal v i a b}"
  "set (subnodes (Variable name a b)) = {Variable name a b}"
  "set (subnodes (Unary f x a b)) = insert (Unary f x a b) (set (subnodes x))"
  "set (subnodes (Binary f x y a b)) = insert (Binary f x y a b) (set (subnodes x) \<union> set (subnodes y))"
  "set (subnodes (Conditional x y z a b)) =
     insert (Conditional x y z a b) (set (subnodes x) \<union> set (subnodes y) \<union> set (subnodes z))"
  "set (subnodes (Call f es a b)) = insert (Call f es a b) (\<Union>c \<in> set es. set (subnodes c))"
  by (subst set_subnodes, simp add: Un_assoc)+

lemma subnodes_trans: "y \<in> set (subnodes x) \<Longrightarrow> z \<in> set (subnodes y) \<Longrightarrow> z \<in> set (subnodes x)"
proof (induction "size x" arbitrary: x rule: less_induct)
  case less
  show ?case
  proof (cases "y = x")
    case False
    with less.prems(1) obtain c where c: "c \<in> set (children x)" "y \<in> set (subnodes c)"
      by (auto simp: set_subnodes [of x])
    with less have "z \<in> set (subnodes c)" by (meson size_children)
    with c(1) show ?thesis by (auto simp: set_subnodes [of x])
  qed (use less in simp)
qed

text \<open>Within the depth bound the traversal runs the visitor over the subnodes in order.\<close>

lemma visit_rec_fold:
  "height e + d \<le> 256 \<Longrightarrow> visit_rec v d e s = fold_m v (subnodes e) s"
proof (induction "size e" arbitrary: e d s rule: less_induct)
  case less
  have inner: "fold_m (visit_rec v (d + 1)) es s = fold_m v (concat (map subnodes es)) s"
    if "set es \<subseteq> set (children e)" for es s
    using that
  proof (induction es arbitrary: s)
    case (Cons c es)
    have c: "c \<in> set (children e)" using Cons.prems by simp
    have "height c + (d + 1) \<le> 256" using height_child [OF c] less.prems by simp
    then have "visit_rec v (d + 1) c = fold_m v (subnodes c)"
      using less.hyps size_children [OF c] by (intro ext) blast
    moreover have "fold_m (visit_rec v (d + 1)) es = fold_m v (concat (map subnodes es))"
      using Cons by (intro ext) simp
    ultimately show ?case by (simp add: fold_m_append)
  qed simp
  have "fold_m v [e] = v e" by (intro ext) simp
  with less.prems inner [of "children e" s] show ?case
    by (simp add: visit_rec.simps [of v d e] subnodes.simps [of e] fold_m_append)
qed

lemma visit_rec_too_deep:
  "256 < height e + d \<Longrightarrow> d \<le> 256 \<Longrightarrow> (\<And>x u. \<exists>w. v x u = Inr w) \<Longrightarrow>
   visit_rec v d e s = Inl (limit_error ''expression depth'')"
proof (induction "size e" arbitrary: e d s rule: less_induct)
  case less
  have ne: "children e \<noteq> []"
    using less.prems by (auto simp: height.simps [of e])
  then have "Max (set (map height (children e))) \<in> set (map height (children e))"
    by (intro Max_in) auto
  then obtain c where c: "c \<in> set (children e)" and hc: "Max (set (map height (children e))) = height c"
    by auto
  have deep: "256 < height c + (d + 1)"
    using less.prems(1) hc ne by (simp add: height.simps [of e])
  have cerr: "visit_rec v (d + 1) c u = Inl (limit_error ''expression depth'')" for u
  proof (cases "d + 1 \<le> 256")
    case True
    then show ?thesis using less.hyps [of c "d + 1"] deep size_children [OF c] less.prems(3) by blast
  next
    case False
    then show ?thesis by (simp add: visit_rec.simps)
  qed
  have all: "(\<exists>w. visit_rec v (d + 1) x u = Inr w) \<or>
      visit_rec v (d + 1) x u = Inl (limit_error ''expression depth'')"
    if "x \<in> set (children e)" for x u
  proof (cases "d + 1 \<le> 256 \<and> 256 < height x + (d + 1)")
    case True
    then show ?thesis using less.hyps [of x "d + 1"] size_children [OF that] less.prems(3) by blast
  next
    case False
    show ?thesis
    proof (cases "d + 1 \<le> 256")
      case True
      have "\<exists>w. fold_m v xs u = Inr w" for xs u
        using less.prems(3) by (induction xs arbitrary: u) (auto, metis bnd_simps(2))
      then show ?thesis using False True by (simp add: visit_rec_fold)
    qed (simp add: visit_rec.simps)
  qed
  have "fold_m (visit_rec v (d + 1)) es u = Inl (limit_error ''expression depth'')"
    if "c \<in> set es" "set es \<subseteq> set (children e)" for es u
    using that
  proof (induction es arbitrary: u)
    case (Cons x es)
    then show ?case using all [of x u] cerr by (cases "x = c") auto
  qed simp
  with c less.prems(2) show ?case by (simp add: visit_rec.simps [of v d e])
qed

lemma fold_m_all_run:
  "fold_m f xs s = Inr s' \<Longrightarrow> x \<in> set xs \<Longrightarrow> \<exists>u w. f x u = Inr w"
  by (induction xs arbitrary: s) auto

text \<open>A traversal that returns has stayed within the depth bound.\<close>

lemma visit_rec_height: "visit_rec v d e s = Inr s' \<Longrightarrow> height e + d \<le> 256"
proof (induction "size e" arbitrary: e d s s' rule: less_induct)
  case less
  from less.prems obtain s1 where d: "d \<le> 256"
    and run: "fold_m (visit_rec v (d + 1)) (children e) s = Inr s1"
    by (auto simp: visit_rec.simps [of v d e] split: if_splits)
  have kids: "height c + (d + 1) \<le> 256" if c: "c \<in> set (children e)" for c
    using fold_m_all_run [OF run c] less.hyps [OF size_children [OF c]] by blast
  show ?case
  proof (cases "children e = []")
    case True
    with d show ?thesis by (simp add: height.simps [of e])
  next
    case False
    then have "Max (set (map height (children e))) \<in> set (map height (children e))"
      by (intro Max_in) auto
    then obtain c where "c \<in> set (children e)" and "Max (set (map height (children e))) = height c"
      by auto
    with kids [of c] False show ?thesis by (simp add: height.simps [of e])
  qed
qed

section \<open>What the dependency collector returns\<close>

definition vars_of :: "expr \<Rightarrow> jstring set" where
  "vars_of e = {x. \<exists>a b. Variable x a b \<in> set (subnodes e)}"

definition funs_of :: "expr \<Rightarrow> jstring set" where
  "funs_of e = {f. \<exists>es a b. Call f es a b \<in> set (subnodes e)}"

lemma collect_visitor_eq:
  "collect_visitor e s = Inr (s\<lparr>
     dep_variables := {x. \<exists>a b. e = Variable x a b} \<union> dep_variables s,
     dep_functions := {f. \<exists>xs a b. e = Call f xs a b} \<union> dep_functions s\<rparr>)"
  by (cases e) (auto simp: collect_visitor_def intro!: dependencies.equality)

lemma fold_collect:
  "fold_m collect_visitor es s = Inr (s\<lparr>
     dep_variables := {x. \<exists>a b. Variable x a b \<in> set es} \<union> dep_variables s,
     dep_functions := {f. \<exists>xs a b. Call f xs a b \<in> set es} \<union> dep_functions s\<rparr>)"
proof (induction es arbitrary: s)
  case (Cons e es)
  have "fold_m collect_visitor (e # es) s = fold_m collect_visitor es (s\<lparr>
     dep_variables := {x. \<exists>a b. e = Variable x a b} \<union> dep_variables s,
     dep_functions := {f. \<exists>xs a b. e = Call f xs a b} \<union> dep_functions s\<rparr>)"
    by (simp add: collect_visitor_eq [of e s])
  also have "\<dots> = Inr (s\<lparr>
     dep_variables := {x. \<exists>a b. Variable x a b \<in> set (e # es)} \<union> dep_variables s,
     dep_functions := {f. \<exists>xs a b. Call f xs a b \<in> set (e # es)} \<union> dep_functions s\<rparr>)"
    unfolding Cons by (auto intro!: dependencies.equality; blast)
  finally show ?case .
qed simp

lemma expressionDependencies_eq:
  "expressionDependencies e =
     (if height e \<le> 256
      then Inr \<lparr>dep_variables = vars_of e, dep_functions = funs_of e\<rparr>
      else Inl (limit_error ''expression depth''))"
proof (cases "height e \<le> 256")
  case True
  then show ?thesis
    by (simp add: expressionDependencies_def visitExpression_rec visit_rec_fold fold_collect
        vars_of_def funs_of_def)
next
  case False
  have "\<exists>w. collect_visitor x u = Inr w" for x u
    by (cases x) (simp_all add: collect_visitor_def)
  with False show ?thesis
    by (simp add: expressionDependencies_def visitExpression_rec visit_rec_too_deep)
qed

text \<open>
  C4: the traversal loop of \<open>visitExpression\<close>, with its explicit stack, its visited flags and its
  depth bound, computes exactly the recursive postorder traversal: children left to right, then
  the node, stopping at the first error of the visitor or at the first node deeper than 256.
\<close>

theorem visitExpression_postorder: "visitExpression e v s = visit_rec v 0 e s"
  by (rule visitExpression_rec)

text \<open>
  C5: \<open>expressionDependencies\<close> returns exactly the variables and the called functions that occur
  anywhere in the expression, and throws the depth-limit error exactly when the tree is more
  than 256 levels high.
\<close>

theorem expressionDependencies_spec:
  "expressionDependencies e =
     (if height e \<le> 256
      then Inr \<lparr>dep_variables = vars_of e, dep_functions = funs_of e\<rparr>
      else Inl (limit_error ''expression depth''))"
  by (rule expressionDependencies_eq)

end
