(* ===== verification/Expr_Lexer.thy ===== *)
theory Expr_Lexer
  imports Expr_Types
begin

text \<open>
  The lexer of the billing expression parser: the constructor's version prefix and the method
  \<open>next()\<close> of \<open>BillingParser\<close> in \<open>billing-expression/parser.ts\<close>.

  The parser reads lexemes on demand, so \<open>next_lexeme\<close> is a function of the source, the cursor
  and the running lexeme count, and returns the lexeme with the new cursor and count or throws.
  \<open>lexeme_ok\<close> is its contract: a lexeme is a slice of the source, it ends at the cursor, it
  is not empty unless it is the end marker, and scanning never moves backwards.
\<close>

datatype lex_kind = K_number | K_string | K_symbol | K_name | K_end

record lexeme =
  lx_kind :: lex_kind
  lx_text :: jstring
  lx_start :: nat
  lx_end :: nat
  lx_value :: "lit_value option"
  lx_integer :: "bool option"

section \<open>Strings\<close>

definition simple_escape :: "nat \<Rightarrow> nat option" where
  "simple_escape c =
     map_of [(110, 10), (114, 13), (116, 9), (98, 8), (102, 12), (118, 11),
             (92, 92), (34, 34), (39, 39), (47, 47)] c"

definition hex_value :: "jstring \<Rightarrow> nat" where
  "hex_value ds = foldl (\<lambda>n d. 16 * n + hex_val d) 0 ds"

text \<open>
  The loop over the characters of a string literal.  \<open>None\<close> is a \<open>break\<close> or the end of the
  source, after which the code reports an unterminated string.
\<close>

function scan_string :: "nat \<Rightarrow> nat \<Rightarrow> jstring \<Rightarrow> jstring \<Rightarrow> thrown + (jstring \<times> nat) option" where
  "scan_string quote cursor [] val = Inr None"
| "scan_string quote cursor (ch # rest) val =
     (if ch = quote then Inr (Some (val, cursor + 1))
      else if ch = 10 \<or> ch = 13 then Inr None
      else if ch \<noteq> 92 then scan_string quote (cursor + 1) rest (val @ [ch])
      else case rest of
             [] \<Rightarrow> Inl (billing_error Code_unsupported (js ''string escape'') (Some (cursor + 1)))
           | escaped # rest' \<Rightarrow>
               (case simple_escape escaped of
                  Some c \<Rightarrow> scan_string quote (cursor + 2) rest' (val @ [c])
                | None \<Rightarrow>
                    if escaped = 117 \<or> escaped = 120
                    then let len = (if escaped = 117 then 4 else 2); hex = take len rest'
                         in if length hex \<noteq> len \<or> \<not> list_all is_hex hex then Inr None
                            else scan_string quote (cursor + 2 + len) (drop len rest')
                                   (val @ [hex_value hex])
                    else Inl (billing_error Code_unsupported (js ''string escape'')
                                (Some (cursor + 1)))))"
  by pat_completeness auto
termination
  by (relation "measure (\<lambda>(q, c, rest, v). length rest)") auto

section \<open>Operators\<close>

definition two_char_operators :: "jstring list" where
  "two_char_operators = map js [''&&'', ''||'', ''=='', ''!='', ''<='', ''>='']"

definition one_char_operators :: jstring where
  "one_char_operators = js ''+-*/%<>()!?:,''"

definition match_operator :: "jstring \<Rightarrow> nat option" where
  "match_operator s =
     (if take 2 s \<in> set two_char_operators then Some 2
      else case s of c # _ \<Rightarrow> if c \<in> set one_char_operators then Some 1 else None | [] \<Rightarrow> None)"

section \<open>The next lexeme\<close>

definition skip_ws :: "jstring \<Rightarrow> nat \<Rightarrow> nat" where
  "skip_ws source cursor = cursor + span_len is_ws (drop cursor source)"

definition end_lexeme :: "nat \<Rightarrow> lexeme" where
  "end_lexeme pos = \<lparr>lx_kind = K_end, lx_text = [], lx_start = pos, lx_end = pos,
     lx_value = None, lx_integer = None\<rparr>"

definition number_lexeme :: "nat \<Rightarrow> jstring \<Rightarrow> thrown + lexeme" where
  "number_lexeme pos text =
     (let val = num_of_text text;
          whole = list_all (\<lambda>c. c \<notin> {46, 101, 69}) text
      in if \<not> is_finite val then Inl (billing_error Code_number text (Some pos))
         else if whole \<and> \<not> is_safe_integer val
         then Inl (billing_error Code_unsupported (js ''integer precision'') (Some pos))
         else Inr \<lparr>lx_kind = K_number, lx_text = text, lx_start = pos, lx_end = pos + length text,
                   lx_value = Some (LNum val), lx_integer = Some whole\<rparr>)"

definition string_lexeme :: "jstring \<Rightarrow> nat \<Rightarrow> nat \<Rightarrow> thrown + lexeme" where
  "string_lexeme source pos quote =
     bnd (scan_string quote (pos + 1) (drop (pos + 1) source) [])
       (\<lambda>r. case r of
          Some (val, cursor) \<Rightarrow>
            Inr \<lparr>lx_kind = K_string, lx_text = slice pos cursor source, lx_start = pos,
                 lx_end = cursor, lx_value = Some (LStr val), lx_integer = None\<rparr>
        | None \<Rightarrow> Inl (billing_error Code_syntax (js ''unterminated string'') (Some pos)))"

definition plain_lexeme :: "lex_kind \<Rightarrow> nat \<Rightarrow> jstring \<Rightarrow> lexeme" where
  "plain_lexeme kind pos text = \<lparr>lx_kind = kind, lx_text = text, lx_start = pos,
     lx_end = pos + length text, lx_value = None, lx_integer = None\<rparr>"

definition lexeme_at :: "jstring \<Rightarrow> nat \<Rightarrow> thrown + lexeme" where
  "lexeme_at source start =
     (case drop start source of
        [] \<Rightarrow> Inr (end_lexeme start)
      | c # _ \<Rightarrow>
          let rest = drop start source
          in case match_number rest of
               Some n \<Rightarrow> number_lexeme start (take n rest)
             | None \<Rightarrow>
                 if c = 34 \<or> c = 39 then string_lexeme source start c
                 else case match_name rest of
                        Some n \<Rightarrow> Inr (plain_lexeme K_name start (take n rest))
                      | None \<Rightarrow>
                          (case match_operator rest of
                             Some n \<Rightarrow> Inr (plain_lexeme K_symbol start (take n rest))
                           | None \<Rightarrow> Inl (billing_error Code_unsupported [c] (Some start))))"

definition next_lexeme :: "jstring \<Rightarrow> nat \<Rightarrow> nat \<Rightarrow> thrown + (lexeme \<times> nat \<times> nat)" where
  "next_lexeme source cursor count =
     (if 10000 < count + 1 then Inl (limit_error ''expression tokens'')
      else bnd (lexeme_at source (skip_ws source cursor))
             (\<lambda>lx. Inr (lx, lx_end lx, count + 1)))"

text \<open>\<^verbatim>\<open>source.match(/^\s*v(\d+):/)\<close>: the matched digits and the length of the match.\<close>

definition match_version :: "jstring \<Rightarrow> (jstring \<times> nat) option" where
  "match_version source =
     (let w = span_len is_ws source
      in case drop w source of
           [] \<Rightarrow> None
         | c # rest \<Rightarrow>
             let n = span_len is_digit rest
             in if c = 118 \<and> 0 < n \<and> take 1 (drop n rest) = [58]
                then Some (take n rest, w + 1 + n + 1) else None)"

section \<open>The lexer contract\<close>

definition lexeme_ok :: "jstring \<Rightarrow> lexeme \<Rightarrow> bool" where
  "lexeme_ok source lx \<longleftrightarrow>
     lx_start lx \<le> lx_end lx \<and> lx_end lx \<le> length source
     \<and> lx_text lx = slice (lx_start lx) (lx_end lx) source
     \<and> (lx_kind lx = K_end \<longleftrightarrow> lx_start lx = lx_end lx)
     \<and> (lx_kind lx = K_end \<longleftrightarrow> lx_start lx = length source)"

text \<open>The value a lexeme carries fits its kind.\<close>

definition lexeme_typed :: "lexeme \<Rightarrow> bool" where
  "lexeme_typed lx \<longleftrightarrow>
     (case lx_kind lx of
        K_number \<Rightarrow> (\<exists>x i. lx_value lx = Some (LNum x) \<and> lx_integer lx = Some i \<and> is_finite x
                       \<and> wf_num x \<and> 0 \<le> fval x \<and> \<not> neg_sign x \<and> (i \<longrightarrow> is_safe_integer x))
      | K_string \<Rightarrow> (\<exists>s. lx_value lx = Some (LStr s)) \<and> lx_integer lx = None
      | _ \<Rightarrow> True)"

lemma scan_string_cursor:
  "scan_string q c rest v = Inr (Some (s, c')) \<Longrightarrow> c < c' \<and> c' \<le> c + length rest"
proof (induction "length rest" arbitrary: c rest v rule: less_induct)
  case less
  have IH: "d < c' \<and> c' \<le> d + length r"
    if "scan_string q d r w = Inr (Some (s, c'))" "length r < length rest" for d r w
    using that less.hyps by blast
  show ?case
  proof (cases rest)
    case (Cons ch r)
    show ?thesis
    proof (cases "ch = q \<or> ch = 10 \<or> ch = 13 \<or> ch \<noteq> 92")
      case True
      with less.prems Cons show ?thesis
        using IH [of "c + 1" r "v @ [ch]"] by (auto split: if_splits)
    next
      case False
      with less.prems Cons obtain e r' where r: "r = e # r'" by (cases r) auto
      show ?thesis
      proof (cases "simple_escape e")
        case (Some x)
        with False less.prems Cons r show ?thesis
          using IH [of "c + 2" r' "v @ [x]"] by auto
      next
        case None
        define l where "l = (if e = 117 then 4 else 2 :: nat)"
        from None False less.prems Cons r
        have "scan_string q (c + 2 + l) (drop l r') (v @ [hex_value (take l r')]) = Inr (Some (s, c'))"
          and "l \<le> length r'"
          by (auto simp: l_def Let_def split: if_splits)
        moreover have "length (drop l r') < length rest" using Cons r by simp
        ultimately have "c + 2 + l < c' \<and> c' \<le> c + 2 + l + length (drop l r')" by (intro IH)
        with \<open>l \<le> length r'\<close> Cons r show ?thesis by simp
      qed
    qed
  qed (use less.prems in simp)
qed

lemma skip_ws_bounds: "cursor \<le> length source \<Longrightarrow> cursor \<le> skip_ws source cursor \<and> skip_ws source cursor \<le> length source"
  using span_len_le [of is_ws "drop cursor source"] by (simp add: skip_ws_def)

lemma match_operator_bounds:
  "match_operator s = Some n \<Longrightarrow> 0 < n \<and> n \<le> length s"
proof -
  assume m: "match_operator s = Some n"
  have two: "length s \<ge> 2" if "take 2 s \<in> set two_char_operators"
  proof -
    have "\<forall>t \<in> set two_char_operators. length t = 2" by (simp add: two_char_operators_def)
    with that have "length (take 2 s) = 2" by blast
    then show ?thesis by simp
  qed
  with m show ?thesis
    by (auto simp: match_operator_def split: if_splits list.splits)
qed

lemma slice_take: "slice a (a + n) xs = take n (drop a xs)"
  by (simp add: slice_def)

lemma lexeme_at_ok:
  assumes "lexeme_at source start = Inr lx" and "start \<le> length source"
  shows "lexeme_ok source lx \<and> lx_start lx = start"
proof (cases "drop start source")
  case Nil
  with assms show ?thesis by (auto simp: lexeme_at_def lexeme_ok_def end_lexeme_def)
next
  case (Cons c cs)
  let ?rest = "drop start source"
  have less: "start < length source" using Cons by (metis drop_all leI list.distinct(1))
  have plain: "lexeme_ok source lx' \<and> lx_start lx' = start"
    if "0 < n" "n \<le> length ?rest" "lx_start lx' = start" "lx_end lx' = start + length (take n ?rest)"
       "lx_text lx' = take n ?rest" "lx_kind lx' \<noteq> K_end" for lx' n
    using that less by (auto simp: lexeme_ok_def slice_take min_def)
  show ?thesis
  proof (cases "match_number ?rest")
    case (Some n)
    with assms(1) Cons have "number_lexeme start (take n ?rest) = Inr lx"
      by (simp add: lexeme_at_def)
    then show ?thesis using match_number_bounds [OF Some]
      by (intro plain [of n]) (auto simp: number_lexeme_def Let_def split: if_splits)
  next
    case num: None
    show ?thesis
    proof (cases "c = 34 \<or> c = 39")
      case True
      with num assms(1) Cons have "string_lexeme source start c = Inr lx"
        by (simp add: lexeme_at_def)
      then obtain s c' where
        sc: "scan_string c (start + 1) (drop (start + 1) source) [] = Inr (Some (s, c'))"
        and lx: "lx = \<lparr>lx_kind = K_string, lx_text = slice start c' source, lx_start = start,
                 lx_end = c', lx_value = Some (LStr s), lx_integer = None\<rparr>"
        by (auto simp: string_lexeme_def split: option.splits)
      from scan_string_cursor [OF sc] less show ?thesis
        by (auto simp: lx lexeme_ok_def)
    next
      case False
      show ?thesis
      proof (cases "match_name ?rest")
        case (Some n)
        with num False assms(1) Cons have "lx = plain_lexeme K_name start (take n ?rest)"
          by (simp add: lexeme_at_def)
        then show ?thesis using match_name_bounds [OF Some]
          by (intro plain [of n]) (auto simp: plain_lexeme_def)
      next
        case None
        with num False assms(1) Cons obtain n where m: "match_operator ?rest = Some n"
          and "lx = plain_lexeme K_symbol start (take n ?rest)"
          by (auto simp: lexeme_at_def Let_def split: option.splits)
        then show ?thesis using match_operator_bounds [OF m]
          by (intro plain [of n]) (auto simp: plain_lexeme_def)
      qed
    qed
  qed
qed

lemma next_lexeme_ok:
  assumes "next_lexeme source cursor count = Inr (lx, cursor', count')" and "cursor \<le> length source"
  shows "lexeme_ok source lx" and "cursor \<le> lx_start lx" and "cursor' = lx_end lx"
    and "count' = count + 1" and "count < 10000"
proof -
  from assms(1) have at: "lexeme_at source (skip_ws source cursor) = Inr lx"
    and c: "cursor' = lx_end lx" "count' = count + 1" "count < 10000"
    by (auto simp: next_lexeme_def split: if_splits)
  from lexeme_at_ok [OF at] skip_ws_bounds [OF assms(2)]
  show "lexeme_ok source lx" and "cursor \<le> lx_start lx" by auto
  show "cursor' = lx_end lx" and "count' = count + 1" and "count < 10000" by (fact c)+
qed

text \<open>A decimal literal denotes a number that is not negative.\<close>

lemma decimal_value_nonneg: "0 \<le> decimal_value s"
  by (simp add: decimal_value_def Let_def pow10_def)

lemma neg_sign_round_double: "0 \<le> x \<Longrightarrow> \<not> neg_sign (round_double x)"
  using round_mag_nonneg [of x]
  by (auto simp: round_double_def Let_def neg_sign_def)

lemma fval_nonneg: "\<not> neg_sign x \<Longrightarrow> 0 \<le> fval x"
  by (cases x) (auto simp: neg_sign_def fval_def)

lemma number_lexeme_typed: "number_lexeme pos text = Inr lx \<Longrightarrow> lexeme_typed lx"
  using neg_sign_round_double [OF decimal_value_nonneg]
  by (auto simp: number_lexeme_def lexeme_typed_def num_of_text_def Let_def fval_nonneg
      split: if_splits)

lemma lexeme_at_typed: "lexeme_at source start = Inr lx \<Longrightarrow> lexeme_typed lx"
proof -
  assume lx: "lexeme_at source start = Inr lx"
  have str: "lexeme_typed l" if "string_lexeme source start c = Inr l" for c l
    using that by (auto simp: string_lexeme_def lexeme_typed_def split: option.splits)
  show ?thesis
    using lx number_lexeme_typed str
    by (auto simp: lexeme_at_def Let_def lexeme_typed_def end_lexeme_def plain_lexeme_def
        split: list.splits option.splits if_splits)
qed

lemma next_lexeme_typed:
  "next_lexeme source cursor count = Inr (lx, c', n') \<Longrightarrow> lexeme_typed lx"
  by (auto simp: next_lexeme_def dest: lexeme_at_typed split: if_splits)

end
