(* ===== verification/Expr_Parser.thy ===== *)
theory Expr_Parser
  imports Expr_Lexer
begin

text \<open>
  The recursive descent parser \<open>BillingParser\<close> of \<open>billing-expression/parser.ts\<close>.

  The private fields of the class are the record \<open>parser_state\<close>; every method takes the state and
  returns its result with the new state, or throws.  The four methods that call each other
  (\<open>expression\<close> with its operator loop, \<open>primary\<close> with its argument loop) take fuel; \<open>parse\<close>
  supplies four units per code unit of the source, and \<open>parse_total\<close> shows that
  this is always enough, so \<open>parse\<close> is total.

  The lemmas give what a returned tree is: well formed with its spans nested and in source
  order (\<open>parse_wf\<close>), each node with a span of its own (\<open>parse_distinct_spans\<close>: comparing nodes as values is comparing them as
  objects), and its literals and names legal (\<open>parse_ast_ok\<close>).
\<close>

definition PRECEDENCE :: "(jstring \<times> nat) list" where
  "PRECEDENCE = map (apfst js)
     [(''||'', 1), (''&&'', 2), (''=='', 3), (''!='', 3), (''<'', 4), (''<='', 4), (''>'', 4),
      (''>='', 4), (''+'', 5), (''-'', 5), (''*'', 6), (''/'', 6), (''%'', 6)]"

record parser_state =
  ps_source :: jstring
  ps_cursor :: nat
  ps_count :: nat
  ps_depth :: nat
  ps_current :: lexeme

abbreviation cur_text :: "parser_state \<Rightarrow> jstring" where
  "cur_text st \<equiv> lx_text (ps_current st)"

definition new_parser :: "jstring \<Rightarrow> thrown + parser_state" where
  "new_parser source =
     (if 65536 < length source then Inl (limit_error ''expression length'')
      else case match_version source of
             Some (version, len) \<Rightarrow>
               if version \<noteq> js ''1'' then Inl (billing_error Code_unsupported (take len source) None)
               else bnd (next_lexeme source len 0)
                 (\<lambda>(lx, cursor, count). Inr \<lparr>ps_source = source, ps_cursor = cursor,
                    ps_count = count, ps_depth = 0, ps_current = lx\<rparr>)
           | None \<Rightarrow>
               bnd (next_lexeme source 0 0)
                 (\<lambda>(lx, cursor, count). Inr \<lparr>ps_source = source, ps_cursor = cursor,
                    ps_count = count, ps_depth = 0, ps_current = lx\<rparr>))"

definition take_lexeme :: "parser_state \<Rightarrow> thrown + (lexeme \<times> parser_state)" where
  "take_lexeme st =
     bnd (next_lexeme (ps_source st) (ps_cursor st) (ps_count st))
       (\<lambda>(lx, cursor, count).
          Inr (ps_current st, st\<lparr>ps_current := lx, ps_cursor := cursor, ps_count := count\<rparr>))"

definition expect :: "jstring \<Rightarrow> parser_state \<Rightarrow> thrown + (lexeme \<times> parser_state)" where
  "expect t st =
     (if cur_text st \<noteq> t
      then Inl (billing_error Code_syntax (js ''expected '' @ t) (Some (lx_start (ps_current st))))
      else take_lexeme st)"

definition lexeme_literal :: "lexeme \<Rightarrow> bool option \<Rightarrow> expr" where
  "lexeme_literal token i =
     Literal (case lx_value token of Some v \<Rightarrow> v | None \<Rightarrow> LNull) i (lx_start token) (lx_end token)"

fun expression :: "nat \<Rightarrow> nat \<Rightarrow> parser_state \<Rightarrow> thrown + (expr \<times> parser_state)"
  and binary_loop :: "nat \<Rightarrow> nat \<Rightarrow> expr \<Rightarrow> parser_state \<Rightarrow> thrown + (expr \<times> parser_state)"
  and primary :: "nat \<Rightarrow> parser_state \<Rightarrow> thrown + (expr \<times> parser_state)"
  and call_args :: "nat \<Rightarrow> expr list \<Rightarrow> parser_state \<Rightarrow> thrown + (expr list \<times> parser_state)" where
  "expression 0 minimum st = Inl Out_of_fuel"
| "expression (Suc fuel) minimum st =
     (if 128 < ps_depth st + 1 then Inl (limit_error ''expression depth'')
      else bnd (primary fuel (st\<lparr>ps_depth := ps_depth st + 1\<rparr>)) (\<lambda>(left0, st1).
           bnd (binary_loop fuel minimum left0 st1) (\<lambda>(left1, st2).
           bnd (if minimum = 0 \<and> cur_text st2 = js ''?''
                then bnd (take_lexeme st2) (\<lambda>(q, st3).
                     bnd (expression fuel 0 st3) (\<lambda>(yes, st4).
                     bnd (expect (js '':'') st4) (\<lambda>(c, st5).
                     bnd (expression fuel 0 st5) (\<lambda>(no, st6).
                     Inr (Conditional left1 yes no (e_start left1) (e_end no), st6)))))
                else Inr (left1, st2)) (\<lambda>(result, st7).
           Inr (result, st7\<lparr>ps_depth := ps_depth st7 - 1\<rparr>)))))"
| "binary_loop 0 minimum left0 st = Inl Out_of_fuel"
| "binary_loop (Suc fuel) minimum left0 st =
     (case map_of PRECEDENCE (cur_text st) of
        Some p \<Rightarrow>
          if minimum \<le> p
          then bnd (take_lexeme st) (\<lambda>(operator, st1).
               bnd (expression fuel (p + 1) st1) (\<lambda>(right0, st2).
               binary_loop fuel minimum
                 (Binary (lx_text operator) left0 right0 (e_start left0) (e_end right0)) st2))
          else Inr (left0, st)
      | None \<Rightarrow> Inr (left0, st))"
| "primary 0 st = Inl Out_of_fuel"
| "primary (Suc fuel) st =
     bnd (take_lexeme st) (\<lambda>(token, st1).
       if lx_kind token = K_number then Inr (lexeme_literal token (lx_integer token), st1)
       else if lx_kind token = K_string then Inr (lexeme_literal token None, st1)
       else if lx_text token = js ''(''
       then bnd (expression fuel 0 st1) (\<lambda>(inner, st2).
            bnd (expect (js '')'') st2) (\<lambda>(close, st3).
            Inr (with_span (lx_start token) (lx_end close) inner, st3)))
       else if lx_text token \<in> {js ''!'', js ''+'', js ''-''}
       then bnd (expression fuel 7 st1) (\<lambda>(operand, st2).
            Inr (Unary (lx_text token) operand (lx_start token) (e_end operand), st2))
       else if lx_kind token \<noteq> K_name
       then Inl (billing_error Code_syntax (lx_text token) (Some (lx_start token)))
       else if lx_text token = js ''nil''
       then Inr (Literal LNull None (lx_start token) (lx_end token), st1)
       else if lx_text token = js ''true'' \<or> lx_text token = js ''false''
       then Inr (Literal (LBool (lx_text token = js ''true'')) None (lx_start token) (lx_end token), st1)
       else if cur_text st1 \<noteq> js ''(''
       then (if lx_text token \<notin> set BILLING_VARIABLES
             then Inl (billing_error Code_unsupported (lx_text token) (Some (lx_start token)))
             else Inr (Variable (lx_text token) (lx_start token) (lx_end token), st1))
       else case map_of BILLING_FUNCTIONS (lx_text token) of
              None \<Rightarrow> Inl (billing_error Code_unsupported (lx_text token) (Some (lx_start token)))
            | Some arity \<Rightarrow>
                bnd (take_lexeme st1) (\<lambda>(opening, st2).
                bnd (call_args fuel [] st2) (\<lambda>(args, st3).
                bnd (expect (js '')'') st3) (\<lambda>(close, st4).
                if length args \<noteq> arity
                then Inl (billing_error Code_type (lx_text token) (Some (lx_start token)))
                else Inr (Call (lx_text token) args (lx_start token) (lx_end close), st4)))))"
| "call_args 0 args st = Inl Out_of_fuel"
| "call_args (Suc fuel) args st =
     (if cur_text st = js '')'' then Inr (args, st)
      else bnd (expression fuel 0 st) (\<lambda>(arg, st1).
           if cur_text st1 \<noteq> js '','' then Inr (args @ [arg], st1)
           else bnd (take_lexeme st1) (\<lambda>(comma, st2). call_args fuel (args @ [arg]) st2)))"

definition parse_fuel :: "jstring \<Rightarrow> nat" where
  "parse_fuel source = 4 * length source + 10"

definition parse :: "jstring \<Rightarrow> thrown + expr" where
  "parse source =
     bnd (new_parser source) (\<lambda>st.
     bnd (expression (parse_fuel source) 0 st) (\<lambda>(node, st').
       if lx_kind (ps_current st') \<noteq> K_end
       then Inl (billing_error Code_unsupported (cur_text st') (Some (lx_start (ps_current st'))))
       else Inr node))"

section \<open>What a parsed tree looks like\<close>

definition lit_ok :: "lit_value \<Rightarrow> bool option \<Rightarrow> bool" where
  "lit_ok v i =
     (case v of
        LNum x \<Rightarrow> is_finite x \<and> wf_num x \<and> \<not> neg_sign x
                  \<and> (case i of Some b \<Rightarrow> b \<longrightarrow> is_safe_integer x | None \<Rightarrow> False)
      | _ \<Rightarrow> i = None)"

text \<open>Names, arities, operators and literals are legal throughout the tree.\<close>

fun ast_ok :: "expr \<Rightarrow> bool" where
  "ast_ok (Literal v i a b) = lit_ok v i"
| "ast_ok (Variable x a b) = (x \<in> set BILLING_VARIABLES)"
| "ast_ok (Call f es a b) = (map_of BILLING_FUNCTIONS f = Some (length es) \<and> list_all ast_ok es)"
| "ast_ok (Unary f x a b) = (f \<in> {js ''!'', js ''+'', js ''-''} \<and> ast_ok x)"
| "ast_ok (Binary f x y a b) = (map_of PRECEDENCE f \<noteq> None \<and> ast_ok x \<and> ast_ok y)"
| "ast_ok (Conditional c x y a b) = (ast_ok c \<and> ast_ok x \<and> ast_ok y)"

text \<open>Spans are not empty, children lie inside their parent, siblings are in source order.\<close>

fun ordered_within :: "nat \<Rightarrow> expr list \<Rightarrow> nat \<Rightarrow> bool" where
  "ordered_within lo [] hi = (lo \<le> hi)"
| "ordered_within lo (e # es) hi = (lo \<le> e_start e \<and> ordered_within (e_end e) es hi)"

fun spans_ok :: "expr \<Rightarrow> bool" where
  "spans_ok (Literal v i a b) = (a < b)"
| "spans_ok (Variable x a b) = (a < b)"
| "spans_ok (Call f es a b) = (a < b \<and> ordered_within (a + 1) es (b - 1) \<and> list_all spans_ok es)"
| "spans_ok (Unary f x a b) = (a < e_start x \<and> e_end x \<le> b \<and> spans_ok x)"
| "spans_ok (Binary f x y a b) =
     (a \<le> e_start x \<and> e_end x < e_start y \<and> e_end y \<le> b \<and> spans_ok x \<and> spans_ok y)"
| "spans_ok (Conditional c x y a b) =
     (a \<le> e_start c \<and> e_end c < e_start x \<and> e_end x < e_start y \<and> e_end y \<le> b
      \<and> spans_ok c \<and> spans_ok x \<and> spans_ok y)"

lemma spans_ok_nonempty: "spans_ok e \<Longrightarrow> e_start e < e_end e"
  by (induction e) auto

lemma e_start_with_span [simp]: "e_start (with_span a b e) = a"
  and e_end_with_span [simp]: "e_end (with_span a b e) = b"
  by (cases e; simp)+

lemma ast_ok_with_span [simp]: "ast_ok (with_span a b e) = ast_ok e"
  by (cases e) auto

lemma ordered_within_mono: "ordered_within lo es hi \<Longrightarrow> lo' \<le> lo \<Longrightarrow> hi \<le> hi' \<Longrightarrow> ordered_within lo' es hi'"
  by (induction es arbitrary: lo lo') auto

lemma ordered_within_snoc:
  "ordered_within lo (es @ [e]) hi \<longleftrightarrow> ordered_within lo es (e_start e) \<and> e_end e \<le> hi"
  by (induction es arbitrary: lo) auto

lemma spans_ok_with_span:
  assumes "spans_ok e" and "a \<le> e_start e" and "e_end e \<le> b"
  shows "spans_ok (with_span a b e)"
proof (cases e)
  case (Call f es a' b')
  have "ordered_within (a + 1) es (b - 1)"
    by (rule ordered_within_mono [of "a' + 1" es "b' - 1"]) (use assms Call in auto)
  with assms Call show ?thesis by auto
qed (use assms in auto)

section \<open>The parser keeps its invariant\<close>

definition ps_ok :: "parser_state \<Rightarrow> bool" where
  "ps_ok st \<longleftrightarrow> lexeme_ok (ps_source st) (ps_current st) \<and> lexeme_typed (ps_current st)
     \<and> ps_cursor st = lx_end (ps_current st)"

abbreviation cur_start :: "parser_state \<Rightarrow> nat" where
  "cur_start st \<equiv> lx_start (ps_current st)"

lemma ps_ok_depth [simp]: "ps_ok (st\<lparr>ps_depth := d\<rparr>) = ps_ok st"
  by (simp add: ps_ok_def)

text \<open>One state is reached from another by reading on: same source, same depth, later lexeme.\<close>

definition follows :: "parser_state \<Rightarrow> parser_state \<Rightarrow> bool" where
  "follows st st' \<longleftrightarrow> ps_ok st' \<and> ps_source st' = ps_source st \<and> ps_depth st' = ps_depth st
     \<and> cur_start st \<le> cur_start st'"

lemma follows_refl: "ps_ok st \<Longrightarrow> follows st st"
  by (simp add: follows_def)

lemma follows_trans: "follows a b \<Longrightarrow> follows b c \<Longrightarrow> follows a c"
  by (auto simp: follows_def)

lemma follows_ok: "follows a b \<Longrightarrow> ps_ok b"
  by (simp add: follows_def)

lemma take_lexeme_ok:
  assumes "take_lexeme st = Inr (token, st')" and "ps_ok st"
  shows "token = ps_current st" and "follows st st'" and "lx_end token \<le> cur_start st'"
    and "lx_kind token \<noteq> K_end \<Longrightarrow> lx_start token < lx_end token"
    and "lexeme_typed token" and "lx_end token \<le> length (ps_source st)"
proof -
  from assms(1) obtain lx c n where
    nx: "next_lexeme (ps_source st) (ps_cursor st) (ps_count st) = Inr (lx, c, n)"
    and st': "st' = st\<lparr>ps_current := lx, ps_cursor := c, ps_count := n\<rparr>"
    and tok: "token = ps_current st"
    by (auto simp: take_lexeme_def)
  from assms(2) have cur: "ps_cursor st \<le> length (ps_source st)" "ps_cursor st = lx_end token"
    and lex: "lexeme_ok (ps_source st) token" "lexeme_typed token"
    by (auto simp: ps_ok_def lexeme_ok_def tok)
  note lx = next_lexeme_ok [OF nx cur(1)] next_lexeme_typed [OF nx]
  show "token = ps_current st" by (fact tok)
  show "lx_end token \<le> cur_start st'" using lx cur by (simp add: st')
  show "lx_kind token \<noteq> K_end \<Longrightarrow> lx_start token < lx_end token"
    using lex by (auto simp: lexeme_ok_def)
  show "lexeme_typed token" by (fact lex)
  show "lx_end token \<le> length (ps_source st)" using cur by simp
  show "follows st st'"
    using lx lex cur by (auto simp: follows_def ps_ok_def st' lexeme_ok_def tok)
qed

lemma text_not_end:
  assumes "ps_ok st" and "cur_text st \<noteq> []"
  shows "lx_kind (ps_current st) \<noteq> K_end"
  using assms by (auto simp: ps_ok_def lexeme_ok_def)

lemma take_symbol_ok:
  assumes "take_lexeme st = Inr (token, st')" and "ps_ok st" and "cur_text st \<noteq> []"
  shows "token = ps_current st \<and> follows st st' \<and> cur_start st < lx_end token \<and> lx_end token \<le> cur_start st'"
  using take_lexeme_ok [OF assms(1,2)] text_not_end [OF assms(2,3)] by auto

lemma expect_ok:
  assumes "expect t st = Inr (token, st')" and "ps_ok st" and "t \<noteq> []"
  shows "follows st st' \<and> cur_start st < lx_end token \<and> lx_end token \<le> cur_start st'"
  using assms take_symbol_ok [of st token st'] by (auto simp: expect_def split: if_splits)

definition reads :: "parser_state \<Rightarrow> expr \<Rightarrow> parser_state \<Rightarrow> bool" where
  "reads st e st' \<longleftrightarrow> follows st st' \<and> e_start e = cur_start st \<and> e_end e \<le> cur_start st'
     \<and> spans_ok e \<and> ast_ok e"

lemma map_of_PRECEDENCE_nonempty: "map_of PRECEDENCE t = Some p \<Longrightarrow> t \<noteq> []"
  by (auto simp: PRECEDENCE_def split: if_splits)

definition loops :: "expr \<Rightarrow> parser_state \<Rightarrow> expr \<Rightarrow> parser_state \<Rightarrow> bool" where
  "loops l st e st' \<longleftrightarrow> follows st st' \<and> e_start e = e_start l \<and> e_end e \<le> cur_start st'
     \<and> spans_ok e \<and> ast_ok e"

definition args_read :: "nat \<Rightarrow> expr list \<Rightarrow> parser_state \<Rightarrow> bool" where
  "args_read lo es st \<longleftrightarrow> ordered_within lo es (cur_start st) \<and> list_all spans_ok es \<and> list_all ast_ok es"

text \<open>The invariants of the four methods at one amount of fuel.\<close>

definition expression_inv :: "nat \<Rightarrow> bool" where
  "expression_inv n \<longleftrightarrow> (\<forall>m st e st'. expression n m st = Inr (e, st') \<longrightarrow> ps_ok st \<longrightarrow> reads st e st')"

definition loop_inv :: "nat \<Rightarrow> bool" where
  "loop_inv n \<longleftrightarrow> (\<forall>m l st e st'. binary_loop n m l st = Inr (e, st') \<longrightarrow> ps_ok st \<longrightarrow>
     spans_ok l \<longrightarrow> ast_ok l \<longrightarrow> e_end l \<le> cur_start st \<longrightarrow> loops l st e st')"

definition primary_inv :: "nat \<Rightarrow> bool" where
  "primary_inv n \<longleftrightarrow> (\<forall>st e st'. primary n st = Inr (e, st') \<longrightarrow> ps_ok st \<longrightarrow> reads st e st')"

definition args_inv :: "nat \<Rightarrow> bool" where
  "args_inv n \<longleftrightarrow> (\<forall>lo es st args st'. call_args n es st = Inr (args, st') \<longrightarrow> ps_ok st \<longrightarrow>
     args_read lo es st \<longrightarrow> follows st st' \<and> args_read lo args st')"

lemma loop_inv_Suc:
  assumes "expression_inv n" and "loop_inv n"
  shows "loop_inv (Suc n)"
  unfolding loop_inv_def
proof (intro allI impI)
  fix m l st e st'
  assume run: "binary_loop (Suc n) m l st = Inr (e, st')" and ok: "ps_ok st"
    and l: "spans_ok l" "ast_ok l" "e_end l \<le> cur_start st"
  show "loops l st e st'"
  proof (cases "\<exists>p. map_of PRECEDENCE (cur_text st) = Some p \<and> m \<le> p")
    case False
    then have "e = l" and "st' = st" using run by (auto split: option.splits if_splits)
    with ok l show ?thesis by (simp add: loops_def follows_refl)
  next
    case True
    then obtain p where p: "map_of PRECEDENCE (cur_text st) = Some p" "m \<le> p" by blast
    with run obtain oper st1 right0 st2 where
      t: "take_lexeme st = Inr (oper, st1)" and r: "expression n (p + 1) st1 = Inr (right0, st2)"
      and b: "binary_loop n m (Binary (lx_text oper) l right0 (e_start l) (e_end right0)) st2 = Inr (e, st')"
      by auto
    have t': "oper = ps_current st" "follows st st1" "cur_start st < cur_start st1"
      using take_symbol_ok [OF t ok map_of_PRECEDENCE_nonempty [OF p(1)]] by auto
    have r': "reads st1 right0 st2"
      using assms(1) r follows_ok [OF t'(2)] by (auto simp: expression_inv_def)
    have "spans_ok (Binary (lx_text oper) l right0 (e_start l) (e_end right0))"
      using l r' t'(3) by (auto simp: reads_def)
    moreover have "ast_ok (Binary (lx_text oper) l right0 (e_start l) (e_end right0))"
      using l r' t'(1) p(1) by (auto simp: reads_def)
    ultimately have "loops (Binary (lx_text oper) l right0 (e_start l) (e_end right0)) st2 e st'"
      using assms(2) b r' by (auto simp: loop_inv_def reads_def follows_def)
    with r' t'(2) show ?thesis by (auto simp: loops_def reads_def intro: follows_trans)
  qed
qed

lemma args_inv_Suc:
  assumes "expression_inv n" and "args_inv n"
  shows "args_inv (Suc n)"
  unfolding args_inv_def
proof (intro allI impI)
  fix lo es st args st'
  assume run: "call_args (Suc n) es st = Inr (args, st')" and ok: "ps_ok st" and es: "args_read lo es st"
  show "follows st st' \<and> args_read lo args st'"
  proof (cases "cur_text st = js '')''")
    case True
    with run ok es show ?thesis by (simp add: follows_refl)
  next
    case False
    with run obtain a st1 where a: "expression n 0 st = Inr (a, st1)"
      and rest: "(if cur_text st1 \<noteq> js '','' then Inr (es @ [a], st1)
           else bnd (take_lexeme st1) (\<lambda>(comma, st2). call_args n (es @ [a]) st2)) = Inr (args, st')"
      by auto
    have a': "reads st a st1" using assms(1) a ok by (auto simp: expression_inv_def)
    have r1: "args_read lo (es @ [a]) st1"
      using es a' by (auto simp: args_read_def reads_def ordered_within_snoc)
    show ?thesis
    proof (cases "cur_text st1 = js '',''")
      case False
      with rest r1 a' show ?thesis by (auto simp: reads_def)
    next
      case True
      with rest obtain comma st2 where t: "take_lexeme st1 = Inr (comma, st2)"
        and c: "call_args n (es @ [a]) st2 = Inr (args, st')" by auto
      have ok1: "ps_ok st1" using a' by (simp add: reads_def follows_def)
      have t': "follows st1 st2" using take_lexeme_ok(2) [OF t ok1] .
      have "args_read lo (es @ [a]) st2"
        using r1 t' by (auto simp: args_read_def follows_def intro: ordered_within_mono)
      with assms(2) c follows_ok [OF t'] have "follows st2 st' \<and> args_read lo args st'"
        by (auto simp: args_inv_def)
      with t' a' show ?thesis by (auto simp: reads_def intro: follows_trans)
    qed
  qed
qed

lemma expression_inv_Suc:
  assumes "expression_inv n" and "loop_inv n" and "primary_inv n"
  shows "expression_inv (Suc n)"
  unfolding expression_inv_def
proof (intro allI impI)
  fix m st e st'
  assume run: "expression (Suc n) m st = Inr (e, st')" and ok: "ps_ok st"
  define st0 where "st0 = st\<lparr>ps_depth := ps_depth st + 1\<rparr>"
  from run obtain l0 st1 l1 st2 st7 where
    p: "primary n st0 = Inr (l0, st1)" and b: "binary_loop n m l0 st1 = Inr (l1, st2)"
    and c: "(if m = 0 \<and> cur_text st2 = js ''?''
                then bnd (take_lexeme st2) (\<lambda>(q, st3).
                     bnd (expression n 0 st3) (\<lambda>(yes, st4).
                     bnd (expect (js '':'') st4) (\<lambda>(c, st5).
                     bnd (expression n 0 st5) (\<lambda>(no, st6).
                     Inr (Conditional l1 yes no (e_start l1) (e_end no), st6)))))
                else Inr (l1, st2)) = Inr (e, st7)"
    and st': "st' = st7\<lparr>ps_depth := ps_depth st7 - 1\<rparr>"
    by (auto simp: st0_def split: if_splits)
  have p': "reads st0 l0 st1" using assms(3) p ok by (auto simp: primary_inv_def st0_def)
  then have b': "loops l0 st1 l1 st2"
    using assms(2) b by (auto simp: loop_inv_def reads_def follows_def)
  have l1: "reads st0 l1 st2" using p' b' by (auto simp: reads_def loops_def intro: follows_trans)
  have "reads st0 e st7"
  proof (cases "m = 0 \<and> cur_text st2 = js ''?''")
    case False
    with c l1 show ?thesis by auto
  next
    case True
    with c obtain q st3 yes st4 col st5 no where
      t: "take_lexeme st2 = Inr (q, st3)" and y: "expression n 0 st3 = Inr (yes, st4)"
      and x: "expect (js '':'') st4 = Inr (col, st5)" and no: "expression n 0 st5 = Inr (no, st7)"
      and e: "e = Conditional l1 yes no (e_start l1) (e_end no)"
      by auto
    have t': "follows st2 st3" "cur_start st2 < cur_start st3"
      using take_symbol_ok [OF t] l1 True by (auto simp: reads_def follows_def)
    have y': "reads st3 yes st4" using assms(1) y follows_ok [OF t'(1)] by (auto simp: expression_inv_def)
    have x': "follows st4 st5" "cur_start st4 < cur_start st5"
      using expect_ok [OF x] y' by (auto simp: reads_def follows_def)
    have n': "reads st5 no st7" using assms(1) no follows_ok [OF x'(1)] by (auto simp: expression_inv_def)
    have "follows st0 st7"
      using l1 t'(1) y' x'(1) n' unfolding reads_def by (meson follows_trans)
    with l1 t'(2) y' x'(2) n' e show ?thesis by (auto simp: reads_def)
  qed
  then show "reads st e st'"
    by (auto simp: reads_def follows_def st0_def st')
qed

lemma primary_inv_Suc:
  assumes "expression_inv n" and "args_inv n"
  shows "primary_inv (Suc n)"
  unfolding primary_inv_def
proof (intro allI impI)
  fix st e st'
  assume run: "primary (Suc n) st = Inr (e, st')" and ok: "ps_ok st"
  from run obtain token st1 where t: "take_lexeme st = Inr (token, st1)" by auto
  note tok = take_lexeme_ok [OF t ok]
  have leaf: "reads st x st1"
    if "lx_kind token \<noteq> K_end" "e_start x = lx_start token" "e_end x = lx_end token"
       "ast_ok x" "children x = []" "\<And>f es a b. x \<noteq> Call f es a b" for x
    using that tok by (cases x) (auto simp: reads_def)
  consider (lit) "lx_kind token = K_number \<or> lx_kind token = K_string"
    | (paren) "lx_kind token \<noteq> K_number" "lx_kind token \<noteq> K_string" "lx_text token = js ''(''"
    | (unary) "lx_kind token \<noteq> K_number" "lx_kind token \<noteq> K_string" "lx_text token \<noteq> js ''(''"
        "lx_text token \<in> {js ''!'', js ''+'', js ''-''}"
    | (name) "lx_kind token = K_name" "lx_text token \<noteq> js ''(''"
        "lx_text token \<notin> {js ''!'', js ''+'', js ''-''}"
    using run t by (cases "lx_kind token") (auto split: if_splits)
  then show "reads st e st'"
  proof cases
    case lit
    have "reads st (lexeme_literal token i) st1"
      if "i = (if lx_kind token = K_number then lx_integer token else None)" for i
    proof (rule leaf)
      show "ast_ok (lexeme_literal token i)"
        using tok(5) lit that by (auto simp: lexeme_typed_def lexeme_literal_def lit_ok_def)
    qed (use lit in \<open>auto simp: lexeme_literal_def\<close>)
    with run t lit show ?thesis by (auto split: if_splits)
  next
    case paren
    with run t obtain inner st2 close where
      x: "expression n 0 st1 = Inr (inner, st2)" and c: "expect (js '')'') st2 = Inr (close, st')"
      and e: "e = with_span (lx_start token) (lx_end close) inner"
      by auto
    have x': "reads st1 inner st2" using assms(1) x follows_ok [OF tok(2)] by (auto simp: expression_inv_def)
    have c': "follows st2 st'" "cur_start st2 < lx_end close" "lx_end close \<le> cur_start st'"
      using expect_ok [OF c] x' by (auto simp: reads_def follows_def)
    have "lx_start token \<le> cur_start st1" using tok by (auto simp: follows_def)
    then have "spans_ok e" using x' c' unfolding e by (intro spans_ok_with_span) (auto simp: reads_def)
    moreover have "follows st st'" using tok(2) x' c'(1) unfolding reads_def by (meson follows_trans)
    ultimately show ?thesis using tok(1) x' c'(3) by (auto simp: reads_def e)
  next
    case unary
    with run t obtain x where x: "expression n 7 st1 = Inr (x, st')"
      and e: "e = Unary (lx_text token) x (lx_start token) (e_end x)"
      by auto
    have x': "reads st1 x st'" using assms(1) x follows_ok [OF tok(2)] by (auto simp: expression_inv_def)
    have "lx_kind token \<noteq> K_end" using text_not_end [OF ok] unary(4) tok(1) by auto
    then have "lx_start token < cur_start st1" using tok by force
    with x' tok(1,2) unary(4) show ?thesis by (auto simp: reads_def e intro: follows_trans)
  next
    case name
    show ?thesis
    proof (cases "\<exists>args. e = Call (lx_text token) args (e_start e) (e_end e)")
      case False
      with run t name have "st1 = st' \<and> e_start e = lx_start token \<and> e_end e = lx_end token
          \<and> ast_ok e \<and> children e = [] \<and> (\<forall>f es a b. e \<noteq> Call f es a b)"
        by (auto simp: lit_ok_def split: if_splits option.splits)
      with name leaf [of e] show ?thesis by auto
    next
      case True
      with run t name obtain opn st2 args st3 close where
        o: "take_lexeme st1 = Inr (opn, st2)" and a: "call_args n [] st2 = Inr (args, st3)"
        and c: "expect (js '')'') st3 = Inr (close, st')" and ct: "cur_text st1 = js ''(''"
        and ar: "map_of BILLING_FUNCTIONS (lx_text token) = Some (length args)"
        and e: "e = Call (lx_text token) args (lx_start token) (lx_end close)"
        by (auto split: if_splits option.splits)
      have lt: "lx_start token < lx_end token" using name tok(4) by simp
      have o': "follows st1 st2" "cur_start st1 < cur_start st2"
        using take_symbol_ok [OF o follows_ok [OF tok(2)]] ct by auto
      have "args_read (lx_start token + 1) [] st2" using lt tok(3) o' by (simp add: args_read_def)
      then have a': "follows st2 st3" "args_read (lx_start token + 1) args st3"
        using assms(2) a follows_ok [OF o'(1)] by (auto simp: args_inv_def)
      have c': "follows st3 st'" "cur_start st3 < lx_end close" "lx_end close \<le> cur_start st'"
        using expect_ok [OF c follows_ok [OF a'(1)]] by auto
      have f: "follows st st'" using tok(2) o'(1) a'(1) c'(1) by (meson follows_trans)
      have "ordered_within (lx_start token + 1) args (lx_end close - 1)"
        using a'(2) c'(2) by (auto simp: args_read_def intro: ordered_within_mono)
      moreover have "lx_start token < lx_end close"
        using lt tok(3) o'(2) a'(1) c'(2) by (auto simp: follows_def)
      ultimately show ?thesis
        using f tok(1) a'(2) c'(3) ar by (auto simp: reads_def args_read_def e)
    qed
  qed
qed

lemma parser_inv: "expression_inv n \<and> loop_inv n \<and> primary_inv n \<and> args_inv n"
proof (induction n)
  case 0
  then show ?case by (simp add: expression_inv_def loop_inv_def primary_inv_def args_inv_def)
next
  case (Suc n)
  then show ?case
    by (simp add: expression_inv_Suc loop_inv_Suc primary_inv_Suc args_inv_Suc)
qed

lemma new_parser_ok:
  assumes "new_parser source = Inr st"
  shows "ps_ok st" and "ps_source st = source" and "ps_depth st = 0"
proof -
  have v: "len \<le> length source" if "match_version source = Some (d, len)" for d len
  proof -
    from that obtain c rest where
      s: "drop (span_len is_ws source) source = c # rest"
      and "take 1 (drop (span_len is_digit rest) rest) = [58]"
      and l: "len = span_len is_ws source + 1 + span_len is_digit rest + 1"
      by (auto simp: match_version_def Let_def split: list.splits if_splits)
    then have "drop (span_len is_digit rest) rest \<noteq> []" by auto
    then have "span_len is_digit rest < length rest" by (metis drop_all leI)
    moreover have "length (c # rest) = length source - span_len is_ws source" using s by (metis length_drop)
    ultimately show ?thesis using l by simp
  qed
  from assms obtain cur lx c n where nx: "next_lexeme source cur 0 = Inr (lx, c, n)"
    and cl: "cur \<le> length source"
    and st: "st = \<lparr>ps_source = source, ps_cursor = c, ps_count = n, ps_depth = 0, ps_current = lx\<rparr>"
    using v by (auto simp: new_parser_def split: if_splits option.splits)
  from next_lexeme_ok [OF nx cl] next_lexeme_typed [OF nx]
  show "ps_ok st" by (simp add: ps_ok_def st)
  show "ps_source st = source" "ps_depth st = 0" by (simp_all add: st)
qed

lemma parse_reads:
  assumes "parse source = Inr e"
  obtains st st' where "new_parser source = Inr st" and "reads st e st'"
    and "ps_source st' = source" and "lx_kind (ps_current st') = K_end"
proof -
  from assms obtain st st' where n: "new_parser source = Inr st"
    and x: "expression (parse_fuel source) 0 st = Inr (e, st')"
    and k: "lx_kind (ps_current st') = K_end"
    by (auto simp: parse_def split: if_splits)
  have "reads st e st'"
    using parser_inv [of "parse_fuel source"] x new_parser_ok [OF n] by (auto simp: expression_inv_def)
  with n k new_parser_ok [OF n] show ?thesis
    by (intro that) (auto simp: reads_def follows_def)
qed

section \<open>Termination: the fuel is always enough\<close>

lemma bnd_not_fuel:
  "m \<noteq> Inl Out_of_fuel \<Longrightarrow> (\<And>a. m = Inr a \<Longrightarrow> f a \<noteq> Inl Out_of_fuel) \<Longrightarrow> bnd m f \<noteq> Inl Out_of_fuel"
  by (cases m) auto

lemma billing_error_not_fuel [simp]:
  "billing_error c d p \<noteq> Out_of_fuel" "limit_error t \<noteq> Out_of_fuel"
  by (simp_all add: billing_error_def limit_error_def)

lemma scan_string_diagnosed: "diagnosed (scan_string q c r v)"
proof (induction "length r" arbitrary: c r v rule: less_induct)
  case less
  have IH: "diagnosed (scan_string q d r' w)" if "length r' < length r" for d r' w
    using that less.hyps by blast
  show ?case
  proof (cases r)
    case (Cons ch rest)
    have "diagnosed (scan_string q d (drop k xs) w)" if "rest = x # xs" for d k xs x w
      using that by (intro IH) (simp add: Cons)
    moreover have "diagnosed (scan_string q d rest w)" for d w
      by (rule IH) (simp add: Cons)
    moreover have "diagnosed (scan_string q d xs w)" if "rest = x # xs" for d xs x w
      using that by (intro IH) (simp add: Cons)
    ultimately show ?thesis
      by (auto simp: Cons Let_def split: list.splits option.splits)
  qed simp
qed

lemma next_lexeme_diagnosed: "diagnosed (next_lexeme s c n)"
proof -
  have str: "diagnosed (string_lexeme s k q)" for k q
    unfolding string_lexeme_def
    by (rule diagnosed_bnd) (auto simp: scan_string_diagnosed split: option.splits)
  have num: "diagnosed (number_lexeme k t)" for k t
    by (auto simp: number_lexeme_def Let_def split: if_splits)
  have "diagnosed (lexeme_at s k)" for k
    using str num by (auto simp: lexeme_at_def Let_def split: list.splits option.splits)
  then show ?thesis
    by (auto simp: next_lexeme_def intro!: diagnosed_bnd)
qed

lemma take_lexeme_diagnosed [simp]: "diagnosed (take_lexeme st)"
  by (auto simp: take_lexeme_def next_lexeme_diagnosed intro!: diagnosed_bnd)

lemma expect_diagnosed [simp]: "diagnosed (expect t st)"
  by (simp add: expect_def)

lemma new_parser_diagnosed: "diagnosed (new_parser source)"
  by (auto simp: new_parser_def next_lexeme_diagnosed intro!: diagnosed_bnd split: option.splits)

lemma take_lexeme_not_fuel [simp]: "take_lexeme st \<noteq> Inl Out_of_fuel"
  by (rule diagnosed_not_fuel) simp

lemma expect_not_fuel [simp]: "expect t st \<noteq> Inl Out_of_fuel"
  by (simp add: expect_def)

text \<open>The code units not yet read.\<close>

definition remaining :: "parser_state \<Rightarrow> nat" where
  "remaining st = length (ps_source st) - cur_start st"

lemma remaining_depth [simp]: "remaining (st\<lparr>ps_depth := d\<rparr>) = remaining st"
  by (simp add: remaining_def)

lemma remaining_less:
  assumes "ps_ok st" and "follows st st'" and "cur_start st < cur_start st'"
  shows "remaining st' < remaining st"
  using assms by (auto simp: remaining_def follows_def ps_ok_def lexeme_ok_def)

lemma remaining_take:
  assumes "take_lexeme st = Inr (t, st')" and "ps_ok st" and "lx_kind t \<noteq> K_end"
  shows "remaining st' < remaining st" and "ps_ok st'"
  using remaining_less [OF assms(2) take_lexeme_ok(2) [OF assms(1,2)]] take_lexeme_ok [OF assms(1,2)] assms(3)
  by (auto simp: follows_def)

lemma remaining_follows: "follows st st' \<Longrightarrow> remaining st' \<le> remaining st"
  by (auto simp: remaining_def follows_def)

lemma remaining_reads:
  assumes "reads st e st'" and "ps_ok st"
  shows "remaining st' < remaining st" and "ps_ok st'"
  using assms remaining_less [OF assms(2), of st'] spans_ok_nonempty [of e]
  by (auto simp: reads_def follows_def)

definition expression_fuel :: "nat \<Rightarrow> bool" where
  "expression_fuel n \<longleftrightarrow> (\<forall>m st. ps_ok st \<longrightarrow> 4 * remaining st + 4 \<le> n \<longrightarrow> expression n m st \<noteq> Inl Out_of_fuel)"

definition loop_fuel :: "nat \<Rightarrow> bool" where
  "loop_fuel n \<longleftrightarrow> (\<forall>m l st. ps_ok st \<longrightarrow> 4 * remaining st + 3 \<le> n \<longrightarrow> binary_loop n m l st \<noteq> Inl Out_of_fuel)"

definition primary_fuel :: "nat \<Rightarrow> bool" where
  "primary_fuel n \<longleftrightarrow> (\<forall>st. ps_ok st \<longrightarrow> 4 * remaining st + 2 \<le> n \<longrightarrow> primary n st \<noteq> Inl Out_of_fuel)"

definition args_fuel :: "nat \<Rightarrow> bool" where
  "args_fuel n \<longleftrightarrow> (\<forall>es st. ps_ok st \<longrightarrow> 4 * remaining st + 5 \<le> n \<longrightarrow> call_args n es st \<noteq> Inl Out_of_fuel)"

lemma expression_reads: "expression n m st = Inr (e, st') \<Longrightarrow> ps_ok st \<Longrightarrow> reads st e st'"
  using parser_inv [of n] by (auto simp: expression_inv_def)

lemma primary_reads: "primary n st = Inr (e, st') \<Longrightarrow> ps_ok st \<Longrightarrow> reads st e st'"
  using parser_inv [of n] by (auto simp: primary_inv_def)

lemma loop_fuel_Suc:
  assumes "expression_fuel n" and "loop_fuel n"
  shows "loop_fuel (Suc n)"
  unfolding loop_fuel_def
proof (intro allI impI)
  fix m l st
  assume ok: "ps_ok st" and n: "4 * remaining st + 3 \<le> Suc n"
  have step: "bnd (take_lexeme st) (\<lambda>(operator, st1).
               bnd (expression n (p + 1) st1) (\<lambda>(right0, st2).
               binary_loop n m
                 (Binary (lx_text operator) l right0 (e_start l) (e_end right0)) st2)) \<noteq> Inl Out_of_fuel"
    if p: "map_of PRECEDENCE (cur_text st) = Some p" for p
  proof (rule bnd_not_fuel, simp, clarify)
    fix t st1
    assume t: "take_lexeme st = Inr (t, st1)"
      and bad: "bnd (expression n (p + 1) st1) (\<lambda>(right0, st2).
               binary_loop n m (Binary (lx_text t) l right0 (e_start l) (e_end right0)) st2) = Inl Out_of_fuel"
    have k: "lx_kind t \<noteq> K_end"
      using text_not_end [OF ok map_of_PRECEDENCE_nonempty [OF p]] take_lexeme_ok(1) [OF t ok] by simp
    note r1 = remaining_take [OF t ok k]
    have "expression n (p + 1) st1 \<noteq> Inl Out_of_fuel"
      using assms(1) r1 n unfolding expression_fuel_def by auto
    with bad obtain x st2 where x: "expression n (p + 1) st1 = Inr (x, st2)"
      and b: "binary_loop n m (Binary (lx_text t) l x (e_start l) (e_end x)) st2 = Inl Out_of_fuel"
      by (auto simp: bnd_Inl_iff)
    note r2 = remaining_reads [OF expression_reads [OF x r1(2)] r1(2)]
    show False using assms(2) r1 r2 n b unfolding loop_fuel_def by auto
  qed
  then show "binary_loop (Suc n) m l st \<noteq> Inl Out_of_fuel"
    by (auto split: option.splits)
qed

lemma args_fuel_Suc:
  assumes "expression_fuel n" and "args_fuel n"
  shows "args_fuel (Suc n)"
  unfolding args_fuel_def
proof (intro allI impI)
  fix es st
  assume ok: "ps_ok st" and n: "4 * remaining st + 5 \<le> Suc n"
  have "bnd (expression n 0 st) (\<lambda>(arg, st1).
           if cur_text st1 \<noteq> js '','' then Inr (es @ [arg], st1)
           else bnd (take_lexeme st1) (\<lambda>(comma, st2). call_args n (es @ [arg]) st2)) \<noteq> Inl Out_of_fuel"
  proof (rule bnd_not_fuel)
    show "expression n 0 st \<noteq> Inl Out_of_fuel"
      using assms(1) ok n unfolding expression_fuel_def by auto
    fix a assume "expression n 0 st = Inr a"
    then obtain x st1 where x: "expression n 0 st = Inr (x, st1)" and a: "a = (x, st1)" by (cases a) auto
    note r1 = remaining_reads [OF expression_reads [OF x ok] ok]
    have "call_args n (es @ [x]) st2 \<noteq> Inl Out_of_fuel"
      if t: "take_lexeme st1 = Inr (t, st2)" for t st2
      using assms(2) r1 n remaining_follows [OF take_lexeme_ok(2) [OF t r1(2)]]
        follows_ok [OF take_lexeme_ok(2) [OF t r1(2)]]
      unfolding args_fuel_def by auto
    then show "(case a of (arg, st1) \<Rightarrow>
           if cur_text st1 \<noteq> js '','' then Inr (es @ [arg], st1)
           else bnd (take_lexeme st1) (\<lambda>(comma, st2). call_args n (es @ [arg]) st2)) \<noteq> Inl Out_of_fuel"
      by (auto simp: a bnd_Inl_iff)
  qed
  then show "call_args (Suc n) es st \<noteq> Inl Out_of_fuel" by simp
qed

lemma primary_fuel_Suc:
  assumes "expression_fuel n" and "args_fuel n"
  shows "primary_fuel (Suc n)"
  unfolding primary_fuel_def
proof (intro allI impI notI)
  fix st
  assume ok: "ps_ok st" and n: "4 * remaining st + 2 \<le> Suc n"
    and bad: "primary (Suc n) st = Inl Out_of_fuel"
  then obtain token st1 where t: "take_lexeme st = Inr (token, st1)" by (auto simp: bnd_Inl_iff)
  have x: "expression n m st1 \<noteq> Inl Out_of_fuel" if "lx_kind token \<noteq> K_end" for m
    using assms(1) remaining_take [OF t ok that] n unfolding expression_fuel_def by auto
  have a: "call_args n [] st2 \<noteq> Inl Out_of_fuel"
    if "lx_kind token \<noteq> K_end" and o: "take_lexeme st1 = Inr (opn, st2)" for opn st2
    using assms(2) remaining_take [OF t ok that(1)] n
      take_lexeme_ok(2) [OF o remaining_take(2) [OF t ok that(1)], THEN remaining_follows]
      take_lexeme_ok(2) [OF o remaining_take(2) [OF t ok that(1)], THEN follows_ok]
    unfolding args_fuel_def by auto
  have e: "lx_kind token \<noteq> K_end" if "lx_text token \<noteq> []"
    using text_not_end [OF ok] take_lexeme_ok(1) [OF t ok] that by simp
  have "(if lx_text token \<in> {js ''('', js ''!'', js ''+'', js ''-''} then lx_kind token \<noteq> K_end else True)"
    using e by auto
  with bad t x a show False
    by (auto simp: bnd_Inl_iff split: if_splits option.splits)
qed

lemma expression_fuel_Suc:
  assumes "expression_fuel n" and "loop_fuel n" and "primary_fuel n"
  shows "expression_fuel (Suc n)"
  unfolding expression_fuel_def
proof (intro allI impI notI)
  fix m st
  assume ok: "ps_ok st" and n: "4 * remaining st + 4 \<le> Suc n"
    and bad: "expression (Suc n) m st = Inl Out_of_fuel"
  define st0 where "st0 = st\<lparr>ps_depth := ps_depth st + 1\<rparr>"
  have ok0: "ps_ok st0" and n0: "4 * remaining st0 + 3 \<le> n" using ok n by (auto simp: st0_def)
  have "primary n st0 \<noteq> Inl Out_of_fuel" using assms(3) ok0 n0 by (auto simp: primary_fuel_def)
  with bad obtain l0 st1 where p: "primary n st0 = Inr (l0, st1)"
    by (cases "primary n st0") (auto simp: st0_def split: if_splits)
  note r1 = remaining_reads [OF primary_reads [OF p ok0] ok0]
  have bl: "binary_loop n m l0 st1 \<noteq> Inl Out_of_fuel" using assms(2) r1 n0 by (auto simp: loop_fuel_def)
  with bad p obtain l1 st2 where b: "binary_loop n m l0 st1 = Inr (l1, st2)"
    by (cases "binary_loop n m l0 st1") (auto simp: st0_def split: if_splits)
  have "loops l0 st1 l1 st2"
    using parser_inv [of n] b primary_reads [OF p ok0] r1(2) by (auto simp: loop_inv_def reads_def)
  then have r2: "remaining st2 \<le> remaining st1" "ps_ok st2"
    using remaining_follows follows_ok by (auto simp: loops_def)
  have "bnd (take_lexeme st2) (\<lambda>(q, st3).
                     bnd (expression n 0 st3) (\<lambda>(yes, st4).
                     bnd (expect (js '':'') st4) (\<lambda>(c, st5).
                     bnd (expression n 0 st5) (\<lambda>(no, st6).
                     Inr (Conditional l1 yes no (e_start l1) (e_end no), st6))))) \<noteq> Inl Out_of_fuel"
  proof (rule bnd_not_fuel, simp, clarify)
    fix q st3 assume q: "take_lexeme st2 = Inr (q, st3)"
      and bad: "bnd (expression n 0 st3) (\<lambda>(yes, st4).
                     bnd (expect (js '':'') st4) (\<lambda>(c, st5).
                     bnd (expression n 0 st5) (\<lambda>(no, st6).
                     Inr (Conditional l1 yes no (e_start l1) (e_end no), st6)))) = Inl Out_of_fuel"
    have r3: "remaining st3 \<le> remaining st2" "ps_ok st3"
      using take_lexeme_ok(2) [OF q r2(2)] remaining_follows follows_ok by auto
    have "expression n 0 st3 \<noteq> Inl Out_of_fuel"
      using assms(1) r1 r2 r3 n0 by (auto simp: expression_fuel_def)
    with bad obtain y st4 c st5 where y: "expression n 0 st3 = Inr (y, st4)"
      and c: "expect (js '':'') st4 = Inr (c, st5)" and no: "expression n 0 st5 = Inl Out_of_fuel"
      by (auto simp: bnd_Inl_iff)
    note r4 = remaining_reads [OF expression_reads [OF y r3(2)] r3(2)]
    have "follows st4 st5" using expect_ok [OF c r4(2)] by simp
    then have "remaining st5 \<le> remaining st4" "ps_ok st5" using remaining_follows follows_ok by auto
    with assms(1) r1 r2 r3 r4 n0 no show False by (auto simp: expression_fuel_def)
  qed
  with bad p b show False by (auto simp: st0_def bnd_Inl_iff split: if_splits)
qed

lemma parser_fuel: "expression_fuel n \<and> loop_fuel n \<and> primary_fuel n \<and> args_fuel n"
proof (induction n)
  case 0
  then show ?case by (simp add: expression_fuel_def loop_fuel_def primary_fuel_def args_fuel_def)
next
  case (Suc n)
  then show ?case
    by (simp add: expression_fuel_Suc loop_fuel_Suc primary_fuel_Suc args_fuel_Suc)
qed

lemma new_parser_not_fuel: "new_parser source \<noteq> Inl Out_of_fuel"
  by (rule diagnosed_not_fuel) (rule new_parser_diagnosed)

text \<open>The methods throw nothing but diagnostics, fuel apart.\<close>

definition plain :: "thrown + 'a \<Rightarrow> bool" where
  "plain r \<longleftrightarrow> diagnosed r \<or> r = Inl Out_of_fuel"

lemma plain_bnd: "plain m \<Longrightarrow> (\<And>a. m = Inr a \<Longrightarrow> plain (f a)) \<Longrightarrow> plain (bnd m f)"
  by (cases m) (auto simp: plain_def intro: diagnosed_cast)

lemma plain_leaf [simp]:
  "plain (Inr x)" "plain (Inl (billing_error c d p))" "plain (Inl (limit_error t))"
  "plain (take_lexeme st)" "plain (expect u st)" "plain (new_parser source)"
  by (simp_all add: plain_def new_parser_diagnosed)

lemma parser_plain:
  "(\<forall>m st. plain (expression n m st)) \<and> (\<forall>m l st. plain (binary_loop n m l st))
   \<and> (\<forall>st. plain (primary n st)) \<and> (\<forall>es st. plain (call_args n es st))"
proof (induction n)
  case 0
  then show ?case by (simp add: plain_def)
next
  case (Suc n)
  then have e: "plain (expression n m st)" and b: "plain (binary_loop n m l st)"
    and p: "plain (primary n st)" and a: "plain (call_args n es st)" for m st l es
    by auto
  have "plain (expression (Suc n) m st)" for m st
    by (auto intro!: plain_bnd e b p)
  moreover have "plain (binary_loop (Suc n) m l st)" for m l st
    by (auto intro!: plain_bnd e b split: option.splits)
  moreover have "plain (primary (Suc n) st)" for st
    by (auto intro!: plain_bnd e a split: option.splits)
  moreover have "plain (call_args (Suc n) es st)" for es st
    by (auto intro!: plain_bnd e a)
  ultimately show ?case by blast
qed

lemma parse_fuel_enough: "parse source \<noteq> Inl Out_of_fuel"
proof -
  have "expression (parse_fuel source) 0 st \<noteq> Inl Out_of_fuel" if "new_parser source = Inr st" for st
    using parser_fuel [of "parse_fuel source"] new_parser_ok [OF that]
    by (auto simp: expression_fuel_def parse_fuel_def remaining_def)
  then show ?thesis
    by (auto simp: parse_def new_parser_not_fuel bnd_Inl_iff split: if_splits)
qed

lemma parse_diagnosed: "diagnosed (parse source)"
proof -
  have "plain (parse source)"
    unfolding parse_def using parser_plain [of "parse_fuel source"]
    by (auto intro!: plain_bnd)
  with parse_fuel_enough [of source] show ?thesis by (simp add: plain_def)
qed

text \<open>
  C1. The parser is total: on every text it returns a tree or throws one of its own diagnostics.  In
  particular the recursion ends, the fuel of the model being always enough, and no lexeme or
  table lookup fails in another way.
\<close>

theorem parse_total: "(\<exists>e. parse source = Inr e) \<or> (\<exists>d. parse source = Inl (Billing_error d))"
  using parse_diagnosed [of source] by (cases "parse source") (auto dest: diagnosed_Inl)

section \<open>Nodes are told apart by their spans\<close>

abbreviation span :: "expr \<Rightarrow> nat \<times> nat" where
  "span e \<equiv> (e_start e, e_end e)"

abbreviation width :: "expr \<Rightarrow> nat" where
  "width e \<equiv> e_end e - e_start e"

lemma ordered_within_member:
  "ordered_within lo es hi \<Longrightarrow> list_all spans_ok es \<Longrightarrow> c \<in> set es \<Longrightarrow> lo \<le> e_start c \<and> e_end c \<le> hi"
proof (induction es arbitrary: lo)
  case (Cons e es)
  have le: "lo' \<le> hi" if "ordered_within lo' es hi" for lo'
    using that Cons.prems(2) by (induction es arbitrary: lo') (use spans_ok_nonempty in fastforce)+
  from Cons show ?case using le [of "e_end e"] spans_ok_nonempty [of e] by fastforce
qed simp

lemma children_spans:
  assumes "spans_ok e"
  shows "ordered_within (e_start e) (children e) (e_end e)" and "list_all spans_ok (children e)"
    and "c \<in> set (children e) \<Longrightarrow> width c < width e"
proof -
  show all: "list_all spans_ok (children e)" using assms by (cases e) auto
  show "ordered_within (e_start e) (children e) (e_end e)"
    using assms by (cases e) (auto intro: ordered_within_mono)
  assume c: "c \<in> set (children e)"
  with all have n: "e_start c < e_end c" by (auto simp: list_all_iff spans_ok_nonempty)
  show "width c < width e"
  proof (cases e)
    case (Call f es a b)
    with assms c ordered_within_member [of "a + 1" es "b - 1" c] n show ?thesis by auto
  qed (use assms c n in \<open>auto dest!: spans_ok_nonempty\<close>)
qed

lemma subnode_within:
  "spans_ok e \<Longrightarrow> x \<in> set (subnodes e) \<Longrightarrow>
   spans_ok x \<and> e_start e \<le> e_start x \<and> e_end x \<le> e_end e"
proof (induction "size e" arbitrary: e rule: less_induct)
  case less
  show ?case
  proof (cases "x = e")
    case False
    with less.prems obtain c where c: "c \<in> set (children e)" "x \<in> set (subnodes c)"
      by (auto simp: set_subnodes [of e])
    have s: "spans_ok c" using children_spans(2) [OF less.prems(1)] c(1) by (simp add: list_all_iff)
    have "spans_ok x \<and> e_start c \<le> e_start x \<and> e_end x \<le> e_end c"
      using less.hyps [OF size_children [OF c(1)] s c(2)] .
    with ordered_within_member [OF children_spans(1,2) [OF less.prems(1)] c(1)] show ?thesis by simp
  qed (use less.prems in simp)
qed

lemma distinct_concat_spans:
  assumes "ordered_within lo es hi" and "list_all spans_ok es"
    and "\<And>c. c \<in> set es \<Longrightarrow> distinct (map span (subnodes c))"
  shows "distinct (map span (concat (map subnodes es)))"
  using assms
proof (induction es arbitrary: lo)
  case (Cons c es)
  have "e_end c \<le> e_start y" if "d \<in> set es" "y \<in> set (subnodes d)" for d y
    using that Cons.prems(1,2) ordered_within_member [of "e_end c" es hi d] subnode_within [of d y]
    by (auto simp: list_all_iff)
  moreover have "e_start x < e_end c" if "x \<in> set (subnodes c)" for x
    using that Cons.prems(2) subnode_within [of c x] spans_ok_nonempty [of x] by auto
  ultimately have "e_start x < e_start y"
    if "x \<in> set (subnodes c)" "d \<in> set es" "y \<in> set (subnodes d)" for x y d
    using that by fastforce
  then have "span ` set (subnodes c) \<inter> span ` set (concat (map subnodes es)) = {}"
    by fastforce
  with Cons show ?case by auto
qed simp

lemma distinct_spans: "spans_ok e \<Longrightarrow> distinct (map span (subnodes e))"
proof (induction "size e" arbitrary: e rule: less_induct)
  case less
  have "distinct (map span (concat (map subnodes (children e))))"
    using children_spans(1,2) [OF less.prems] less.hyps size_children
    by (intro distinct_concat_spans) (auto simp: list_all_iff)
  moreover have "span x \<noteq> span e" if "c \<in> set (children e)" "x \<in> set (subnodes c)" for x c
    using that children_spans(2) [OF less.prems] children_spans(3) [OF less.prems that(1)]
      subnode_within [of c x]
    by (auto simp: list_all_iff)
  ultimately show ?case
    by (subst subnodes.simps) (auto simp: image_iff, metis)
qed

lemma parse_ok:
  assumes "parse source = Inr e"
  shows "spans_ok e" and "ast_ok e" and "e_end e \<le> length source"
proof -
  from parse_reads [OF assms] obtain st st' where "reads st e st'" and "ps_source st' = source"
    by metis
  then show "spans_ok e" "ast_ok e" "e_end e \<le> length source"
    by (auto simp: reads_def follows_def ps_ok_def lexeme_ok_def)
qed

text \<open>
  C2. A tree the parser returns is well formed: every variable is a billing variable, every call is
  of a billing function with its arity, every operator is in the grammar, every number literal is
  a finite non-negative double (a safe integer where it was written as an integer), and the spans
  lie inside the source, are nested, are not empty and are in source order.
\<close>

theorem parse_well_formed:
  "parse source = Inr e \<Longrightarrow> ast_ok e \<and> spans_ok e \<and> e_end e \<le> length source"
  using parse_ok by blast

theorem parse_well_formed_witness:
  "ast_ok (projr (parse (js ''min(p, 2) * -3''))) \<and> spans_ok (projr (parse (js ''min(p, 2) * -3'')))
   \<and> e_end (projr (parse (js ''min(p, 2) * -3''))) \<le> 14"
proof -
  have "\<not> isl (parse (js ''min(p, 2) * -3''))" by code_simp
  then have "parse (js ''min(p, 2) * -3'') = Inr (projr (parse (js ''min(p, 2) * -3'')))"
    by (rule sum.collapse(2) [symmetric])
  from parse_well_formed [OF this] show ?thesis by simp
qed

text \<open>
  C3. No two nodes of a tree the parser returns have the same span.  The code tells nodes apart as
  objects (the keys of the type table, \<open>candidate.node === factor\<close>); by this theorem equality of
  nodes as values, which the model uses, is the same relation.
\<close>

theorem parse_distinct_spans:
  "parse source = Inr e \<Longrightarrow> distinct (map (\<lambda>n. (e_start n, e_end n)) (subnodes e))"
  by (rule distinct_spans) (rule parse_ok(1))

theorem parse_distinct_spans_witness:
  "parse (js ''p+(p)'') = Inr (Binary (js ''+'') (Variable (js ''p'') 0 1) (Variable (js ''p'') 2 5) 0 5)
   \<and> distinct [(0 :: nat, 1 :: nat), (2, 5), (0, 5)]"
proof -
  have e: "parse (js ''p+(p)'') = Inr (Binary (js ''+'') (Variable (js ''p'') 0 1) (Variable (js ''p'') 2 5) 0 5)"
    by code_simp
  from parse_distinct_spans [OF e] e show ?thesis by (simp add: subnodes.simps)
qed

end
