(* ===== verification/Memo_Table.thy ===== *)
theory Memo_Table
  imports Prelude
begin

text \<open>
  The interface of a table that remembers computed values.  A client asks the table for the value
  of a key; the table answers from what it stored or computes the value and stores it.  The laws say
  that an answer is always the computed value and that an error is an error of the computation, and
  the client's lemmas extend this to any sequence of questions.

  The cache of compiled expressions (\<open>Expr_Check\<close>) and the table of zone times of one evaluation
  (\<open>Expr_Runtime\<close>) are its instances.
\<close>

fun ask_all :: "('c \<Rightarrow> 'k \<Rightarrow> 'e + ('v \<times> 'c)) \<Rightarrow> 'c \<Rightarrow> 'k list \<Rightarrow> 'e + ('v list \<times> 'c)" where
  "ask_all ask c [] = Inr ([], c)"
| "ask_all ask c (k # ks) =
     bnd (ask c k) (\<lambda>(v, c'). bnd (ask_all ask c' ks) (\<lambda>(vs, c''). Inr (v # vs, c'')))"

locale memo_table =
  fixes ask :: "'c \<Rightarrow> 'k \<Rightarrow> 'e + ('v \<times> 'c)"
    and compute :: "'k \<Rightarrow> 'e + 'v"
    and none :: 'c
    and inv :: "'c \<Rightarrow> bool"
  assumes inv_none: "inv none"
    and ask_inv: "inv c \<Longrightarrow> ask c k = Inr (v, c') \<Longrightarrow> inv c'"
    and ask_value: "inv c \<Longrightarrow> ask c k = Inr (v, c') \<Longrightarrow> compute k = Inr v"
    and ask_error: "inv c \<Longrightarrow> ask c k = Inl e \<Longrightarrow> compute k = Inl e"
begin

lemma ask_answers: "inv c \<Longrightarrow> bnd (ask c k) (\<lambda>(v, c'). Inr v) = compute k"
  using ask_value ask_error by (cases "ask c k") auto

lemma ask_all_sound:
  "inv c \<Longrightarrow> ask_all ask c ks = Inr (vs, c') \<Longrightarrow> inv c' \<and> map compute ks = map Inr vs"
proof (induction ks arbitrary: c vs)
  case (Cons k ks)
  from Cons.prems obtain v c1 us where a: "ask c k = Inr (v, c1)"
    and "ask_all ask c1 ks = Inr (us, c')" "vs = v # us"
    by auto
  with Cons.IH [of c1 us] ask_inv [OF Cons.prems(1) a] ask_value [OF Cons.prems(1) a]
  show ?case by simp
qed simp

lemma ask_all_total:
  "inv c \<Longrightarrow> (\<And>k. k \<in> set ks \<Longrightarrow> \<exists>v. compute k = Inr v) \<Longrightarrow> \<exists>vs c'. ask_all ask c ks = Inr (vs, c')"
proof (induction ks arbitrary: c)
  case (Cons k ks)
  obtain v c1 where a: "ask c k = Inr (v, c1)"
    using Cons.prems ask_error [of c k] by (cases "ask c k") fastforce+
  then obtain us c2 where "ask_all ask c1 ks = Inr (us, c2)"
    using Cons ask_inv by (metis list.set_intros(2))
  with a show ?case by auto
qed simp

lemma history_free:
  "ask_all ask none ks = Inr (vs, c) \<Longrightarrow> bnd (ask c k) (\<lambda>(v, c'). Inr v) = compute k"
  using ask_all_sound [OF inv_none] ask_answers by blast

end

end
