(* ===== verification/Expr_Check.thy ===== *)
theory Expr_Check
  imports Expr_Parser Memo_Table
begin

text \<open>
  The static checks and the compiler of \<open>billing-expression/parser.ts\<close>:
  \<open>checkExpressionTypes\<close>, \<open>validateFixedPricingTree\<close>, \<open>compileBillingExpression\<close> and its cache.

  The table of types is a map keyed by the node (nodes of a parsed tree are told apart by their
  spans).  The checker is compared with a typing relation, \<open>typed\<close>; the request rules
  the compiler collects are compared with a filter over the nodes; the cache is an association list
  in insertion order and an instance of the interface \<open>memo_table\<close>: asking it for a value gives what
  computing the value gives, whatever was asked before.
\<close>

section \<open>The type checker\<close>

datatype expression_type = T_number | T_string | T_boolean | T_nil | T_dynamic

fun type_name :: "expression_type \<Rightarrow> jstring" where
  "type_name T_number = js ''number''"
| "type_name T_string = js ''string''"
| "type_name T_boolean = js ''boolean''"
| "type_name T_nil = js ''nil''"
| "type_name T_dynamic = js ''dynamic''"

type_synonym type_table = "(expr \<times> expression_type) list"

definition requireType :: "type_table \<Rightarrow> expr \<Rightarrow> expression_type \<Rightarrow> thrown + unit" where
  "requireType types child expected =
     (let actual = map_of types child
      in if actual \<noteq> Some expected \<and> actual \<noteq> Some T_dynamic
         then Inl (billing_error Code_type (type_name expected @ js '' operand'') (Some (e_start child)))
         else Inr ())"

text \<open>\<open>requireType(node.args[i], expected)\<close>; reading the span of a missing argument is a \<open>TypeError\<close>.\<close>

definition missing_argument :: thrown where
  "missing_argument = Js_error (js ''Cannot read properties of undefined'')"

definition require_arg :: "type_table \<Rightarrow> expr list \<Rightarrow> nat \<Rightarrow> expression_type \<Rightarrow> thrown + unit" where
  "require_arg types args i expected =
     (if i < length args then requireType types (args ! i) expected else Inl missing_argument)"

definition logical_operators :: "jstring list" where
  "logical_operators = map js [''&&'', ''||'']"

definition comparison_operators :: "jstring list" where
  "comparison_operators = map js [''=='', ''!='', ''<'', ''<='', ''>'', ''>='']"

definition context_functions :: "jstring list" where
  "context_functions = map js [''param'', ''header'', ''u''] @ TIME_FUNCTIONS"

definition numeric_functions :: "jstring list" where
  "numeric_functions = map js [''fixed'', ''min'', ''max'', ''abs'', ''ceil'', ''floor'']"

fun literal_type :: "lit_value \<Rightarrow> expression_type" where
  "literal_type LNull = T_nil"
| "literal_type (LNum x) = T_number"
| "literal_type (LStr s) = T_string"
| "literal_type (LBool b) = T_boolean"

definition check_binary :: "type_table \<Rightarrow> jstring \<Rightarrow> expr \<Rightarrow> expr \<Rightarrow> thrown + expression_type" where
  "check_binary types operator l r =
     (if operator \<in> set logical_operators
      then bnd (requireType types l T_boolean) (\<lambda>_.
           bnd (requireType types r T_boolean) (\<lambda>_. Inr T_boolean))
      else if operator \<in> set comparison_operators then Inr T_boolean
      else if operator = js ''+'' \<and> map_of types l = Some T_string \<and> map_of types r = Some T_string
      then Inr T_string
      else bnd (requireType types l T_number) (\<lambda>_.
           bnd (requireType types r T_number) (\<lambda>_. Inr T_number)))"

definition check_call :: "type_table \<Rightarrow> jstring \<Rightarrow> expr list \<Rightarrow> thrown + expression_type" where
  "check_call types name args =
     bnd (if name \<in> set context_functions then require_arg types args 0 T_string else Inr ()) (\<lambda>_.
       if name = js ''header'' then Inr T_string
       else if name = js ''has''
       then bnd (require_arg types args 1 T_string) (\<lambda>_. Inr T_boolean)
       else if name = js ''tier''
       then bnd (require_arg types args 0 T_string) (\<lambda>_.
            bnd (require_arg types args 1 T_number) (\<lambda>_. Inr T_number))
       else if name \<in> set TIME_FUNCTIONS then Inr T_number
       else if name \<in> set numeric_functions
       then bnd (fold_m (\<lambda>arg _. requireType types arg T_number) args ()) (\<lambda>_. Inr T_number)
       else Inr T_dynamic)"

definition check_node :: "type_table \<Rightarrow> expr \<Rightarrow> thrown + expression_type" where
  "check_node types node =
     (case node of
        Literal v i a b \<Rightarrow> Inr (literal_type v)
      | Variable x a b \<Rightarrow> Inr T_number
      | Unary operator x a b \<Rightarrow>
          let result = (if operator = js ''!'' then T_boolean else T_number)
          in bnd (requireType types x result) (\<lambda>_. Inr result)
      | Conditional c x y a b \<Rightarrow>
          bnd (requireType types c T_boolean) (\<lambda>_.
            if map_of types x = map_of types y
            then Inr (case map_of types x of Some t \<Rightarrow> t | None \<Rightarrow> T_dynamic)
            else Inr T_dynamic)
      | Binary operator l r a b \<Rightarrow> check_binary types operator l r
      | Call name args a b \<Rightarrow> check_call types name args)"

definition check_visitor :: "expr \<Rightarrow> type_table \<Rightarrow> thrown + type_table" where
  "check_visitor node types = bnd (check_node types node) (\<lambda>result. Inr ((node, result) # types))"

definition checkExpressionTypes :: "expr \<Rightarrow> thrown + unit" where
  "checkExpressionTypes ast =
     bnd (visitExpression ast check_visitor []) (\<lambda>_. Inr ())"

section \<open>The pricing tree of fixed prices\<close>

record request_rule =
  rr_node :: expr
  rr_condition :: expr
  rr_multiplier :: jsnum
  rr_cond :: jstring

definition containsPricingMarker :: "expr \<Rightarrow> thrown + bool" where
  "containsPricingMarker node =
     bnd (expressionDependencies node)
       (\<lambda>d. Inr (js ''tier'' \<in> dep_functions d \<or> js ''fixed'' \<in> dep_functions d))"

definition pricing_error :: "expr \<Rightarrow> thrown" where
  "pricing_error node = billing_error Code_type
     (js ''Use tier(name, fixed(amount)) with a finite, non-negative numeric literal; combine pricing branches only with conditions and request multipliers.'')
     (Some (e_start node))"

text \<open>The test of one pair of the loop over the two factors of a product.\<close>

definition is_multiplier :: "request_rule list \<Rightarrow> expr \<Rightarrow> thrown + bool" where
  "is_multiplier rules factor =
     (if (case factor of Variable x _ _ \<Rightarrow> x = js ''image_count'' | _ \<Rightarrow> False) then Inr True
      else case find (\<lambda>candidate. rr_node candidate = factor) rules of
             None \<Rightarrow> Inr False
           | Some rule \<Rightarrow>
               if js_le (Fin 0) (rr_multiplier rule)
               then bnd (containsPricingMarker (rr_condition rule)) (\<lambda>m. Inr (\<not> m))
               else Inr False)"

definition fixed_amount_ok :: "expr \<Rightarrow> bool" where
  "fixed_amount_ok amount =
     (case amount of
        Literal (LNum x) i a b \<Rightarrow> js_le (Fin 0) x \<and> is_finite (js_mul x (Fin 1000000))
      | _ \<Rightarrow> False)"

definition tier_price_ok :: "expr \<Rightarrow> thrown + bool" where
  "tier_price_ok price =
     (case price of
        Call f es a b \<Rightarrow>
          if f = js ''fixed''
          then (case es of [] \<Rightarrow> Inl missing_argument | amount # _ \<Rightarrow> Inr (fixed_amount_ok amount))
          else bnd (containsPricingMarker price) (\<lambda>m. Inr (\<not> m))
      | _ \<Rightarrow> bnd (containsPricingMarker price) (\<lambda>m. Inr (\<not> m)))"

fun validateFixedPricingTree :: "request_rule list \<Rightarrow> expr \<Rightarrow> thrown + unit" where
  "validateFixedPricingTree rules (Conditional c x y a b) =
     bnd (containsPricingMarker c) (\<lambda>m.
       if m then Inl (pricing_error (Conditional c x y a b))
       else bnd (validateFixedPricingTree rules x) (\<lambda>_. validateFixedPricingTree rules y))"
| "validateFixedPricingTree rules (Binary operator l r a b) =
     (if operator = js ''*''
      then bnd (is_multiplier rules r) (\<lambda>m.
             if m then validateFixedPricingTree rules l
             else bnd (is_multiplier rules l) (\<lambda>m.
                    if m then validateFixedPricingTree rules r
                    else Inl (pricing_error (Binary operator l r a b))))
      else Inl (pricing_error (Binary operator l r a b)))"
| "validateFixedPricingTree rules (Call name args a b) =
     (if name = js ''tier''
      then (case args of
              [] \<Rightarrow> Inl missing_argument
            | tier_name # rest \<Rightarrow>
                bnd (containsPricingMarker tier_name) (\<lambda>m.
                  if m then Inl (pricing_error (Call name args a b))
                  else case rest of
                         [] \<Rightarrow> Inl missing_argument
                       | price # _ \<Rightarrow>
                           bnd (tier_price_ok price) (\<lambda>ok.
                             if ok then Inr () else Inl (pricing_error (Call name args a b)))))
      else Inl (pricing_error (Call name args a b)))"
| "validateFixedPricingTree rules node = Inl (pricing_error node)"

section \<open>The compiler and its cache\<close>

record compiled_expression =
  cb_version :: nat
  cb_source :: jstring
  cb_ast :: expr
  cb_variables :: "jstring set"
  cb_functions :: "jstring set"
  cb_rules :: "request_rule list"

datatype compilation_result = Ready compiled_expression | Failure expression_failure

definition rule_functions :: "jstring list" where
  "rule_functions = map js [''param'', ''header''] @ TIME_FUNCTIONS"

definition rule_visitor :: "jstring \<Rightarrow> expr \<Rightarrow> request_rule list \<Rightarrow> thrown + request_rule list" where
  "rule_visitor source node requestRules =
     (case node of
        Conditional c (Literal (LNum m) i a b) (Literal (LNum n) i' a' b') a'' b'' \<Rightarrow>
          if \<not> js_eq n (Fin 1) then Inr requestRules
          else bnd (expressionDependencies c) (\<lambda>calls.
                 if \<not> list_ex (\<lambda>name. name \<in> dep_functions calls) rule_functions then Inr requestRules
                 else Inr (requestRules @
                   [\<lparr>rr_node = node, rr_condition = c, rr_multiplier = m,
                     rr_cond = slice (e_start c) (e_end c) source\<rparr>]))
      | _ \<Rightarrow> Inr requestRules)"

text \<open>The body of the \<open>try\<close> block.\<close>

definition compile_try :: "jstring \<Rightarrow> thrown + compiled_expression" where
  "compile_try source =
     bnd (parse source) (\<lambda>ast.
     bnd (checkExpressionTypes ast) (\<lambda>_.
     bnd (expressionDependencies ast) (\<lambda>deps.
     bnd (visitExpression ast (rule_visitor source) []) (\<lambda>requestRules.
     bnd (if js ''fixed'' \<in> dep_functions deps then validateFixedPricingTree requestRules ast else Inr ()) (\<lambda>_.
     Inr \<lparr>cb_version = 1, cb_source = source, cb_ast = ast, cb_variables = dep_variables deps,
          cb_functions = dep_functions deps, cb_rules = requestRules\<rparr>)))))"

definition compile_result :: "jstring \<Rightarrow> compilation_result" where
  "compile_result source =
     (case compile_try source of Inr c \<Rightarrow> Ready c | Inl error \<Rightarrow> Failure (expressionFailure error))"

type_synonym compiled_cache = "(jstring \<times> compilation_result) list"

definition compileBillingExpression ::
  "compiled_cache \<Rightarrow> jstring \<Rightarrow> compilation_result \<times> compiled_cache" where
  "compileBillingExpression cache source =
     (case map_of cache source of
        Some cached \<Rightarrow> (cached, cache)
      | None \<Rightarrow>
          let result = compile_result source;
              cache' = (if 128 \<le> length cache then tl cache else cache)
          in (result, cache' @ [(source, result)]))"

section \<open>The checker decides the typing relation\<close>

text \<open>A type is accepted where another is expected if they are the same or it is only known at run time.\<close>

definition accepts :: "expression_type \<Rightarrow> expression_type \<Rightarrow> bool" where
  "accepts expected t \<longleftrightarrow> t = expected \<or> t = T_dynamic"

definition call_typed :: "jstring \<Rightarrow> expression_type list \<Rightarrow> expression_type \<Rightarrow> bool" where
  "call_typed f ts t \<longleftrightarrow>
     (f \<in> set context_functions \<longrightarrow> 0 < length ts \<and> accepts T_string (ts ! 0)) \<and>
     (if f = js ''header'' then t = T_string
      else if f = js ''has'' then 1 < length ts \<and> accepts T_string (ts ! 1) \<and> t = T_boolean
      else if f = js ''tier''
      then 1 < length ts \<and> accepts T_string (ts ! 0) \<and> accepts T_number (ts ! 1) \<and> t = T_number
      else if f \<in> set TIME_FUNCTIONS then t = T_number
      else if f \<in> set numeric_functions then list_all (accepts T_number) ts \<and> t = T_number
      else t = T_dynamic)"

definition binary_typed ::
  "jstring \<Rightarrow> expression_type \<Rightarrow> expression_type \<Rightarrow> expression_type \<Rightarrow> bool" where
  "binary_typed f t u r \<longleftrightarrow>
     (if f \<in> set logical_operators then accepts T_boolean t \<and> accepts T_boolean u \<and> r = T_boolean
      else if f \<in> set comparison_operators then r = T_boolean
      else if f = js ''+'' \<and> t = T_string \<and> u = T_string then r = T_string
      else accepts T_number t \<and> accepts T_number u \<and> r = T_number)"

inductive typed :: "expr \<Rightarrow> expression_type \<Rightarrow> bool" where
  typed_literal: "typed (Literal v i a b) (literal_type v)"
| typed_variable: "typed (Variable x a b) T_number"
| typed_not: "typed x t \<Longrightarrow> accepts T_boolean t \<Longrightarrow> typed (Unary (js ''!'') x a b) T_boolean"
| typed_sign: "typed x t \<Longrightarrow> f \<noteq> js ''!'' \<Longrightarrow> accepts T_number t \<Longrightarrow> typed (Unary f x a b) T_number"
| typed_conditional: "typed c t \<Longrightarrow> accepts T_boolean t \<Longrightarrow> typed x u \<Longrightarrow> typed y w \<Longrightarrow>
    typed (Conditional c x y a b) (if u = w then u else T_dynamic)"
| typed_binary: "typed x t \<Longrightarrow> typed y u \<Longrightarrow> binary_typed f t u r \<Longrightarrow> typed (Binary f x y a b) r"
| typed_call: "list_all2 typed es ts \<Longrightarrow> call_typed f ts t \<Longrightarrow> typed (Call f es a b) t"

inductive_simps typed_simps:
  "typed (Literal v i a b) t" "typed (Variable x a b) t" "typed (Unary f x a b) t"
  "typed (Conditional c x y a b) t" "typed (Binary f x y a b) t" "typed (Call f es a b) t"

lemma call_typed_unique: "call_typed f ts t \<Longrightarrow> call_typed f ts u \<Longrightarrow> t = u"
  by (auto simp: call_typed_def split: if_splits)

lemma binary_typed_unique: "binary_typed f t u r \<Longrightarrow> binary_typed f t u r' \<Longrightarrow> r = r'"
  by (auto simp: binary_typed_def split: if_splits)

lemma typed_unique: "typed e t \<Longrightarrow> typed e u \<Longrightarrow> t = u"
proof (induction arbitrary: u rule: typed.induct)
  case (typed_conditional c t x u' y w a b)
  from typed_conditional.prems obtain u2 w2 where "typed x u2" "typed y w2" "u = (if u2 = w2 then u2 else T_dynamic)"
    by (auto simp: typed_simps)
  with typed_conditional.IH(2,3) show ?case by metis
next
  case (typed_binary x t y u' f r a b)
  from typed_binary.prems obtain t2 u2 where "typed x t2" "typed y u2" "binary_typed f t2 u2 u"
    by (auto simp: typed_simps)
  with typed_binary.IH typed_binary.hyps(3) show ?case by (metis binary_typed_unique)
next
  case (typed_call es ts f t a b)
  from typed_call.prems obtain us where us: "list_all2 typed es us" "call_typed f us u"
    by (auto simp: typed_simps)
  have "ts = us"
    using typed_call.IH us(1) by (induction arbitrary: us rule: list_all2_induct)
      (auto simp: list_all2_Cons1)
  with us(2) typed_call.hyps show ?case by (metis call_typed_unique)
next
  case (typed_literal v i a b)
  then show ?case by (simp add: typed_simps)
next
  case (typed_variable x a b)
  then show ?case by (simp add: typed_simps)
next
  case (typed_not x t a b)
  from typed_not.prems show ?case by (simp add: typed_simps)
next
  case (typed_sign x t f a b)
  from typed_sign.prems typed_sign.hyps(2) show ?case by (simp add: typed_simps)
qed

lemma typed_iff: "typed x t \<Longrightarrow> typed x u \<longleftrightarrow> u = t"
  using typed_unique by blast

text \<open>One node is checked as the relation says, given a table that is right about its children.\<close>

definition table_ok :: "type_table \<Rightarrow> bool" where
  "table_ok types \<longleftrightarrow> (\<forall>n t. map_of types n = Some t \<longrightarrow> typed n t)"

lemma requireType_iff:
  "map_of types x = Some t \<Longrightarrow> requireType types x expected = Inr u \<longleftrightarrow> accepts expected t"
  by (auto simp: requireType_def accepts_def Let_def)

lemma require_arg_iff:
  assumes "list_all2 (\<lambda>e t. map_of types e = Some t) es ts"
  shows "require_arg types es i expected = Inr u \<longleftrightarrow> i < length ts \<and> accepts expected (ts ! i)"
  using assms list_all2_nthD [OF assms, of i]
  by (auto simp: require_arg_def requireType_iff list_all2_lengthD)

lemma fold_require_iff:
  "list_all2 (\<lambda>e t. map_of types e = Some t) es ts \<Longrightarrow>
   fold_m (\<lambda>arg _. requireType types arg expected) es () = Inr u \<longleftrightarrow> list_all (accepts expected) ts"
proof (induction rule: list_all2_induct)
  case (Cons e es t ts)
  have "requireType types e expected = Inr () \<longleftrightarrow> accepts expected t"
    using Cons.hyps by (simp add: requireType_iff)
  with Cons.IH show ?case by (cases "requireType types e expected") auto
qed simp

lemma check_call_iff:
  assumes "list_all2 (\<lambda>e t. map_of types e = Some t) es ts"
  shows "check_call types f es = Inr r \<longleftrightarrow> call_typed f ts r"
  using require_arg_iff [OF assms] fold_require_iff [OF assms]
  by (auto simp: check_call_def call_typed_def bnd_Inr_iff)

lemma check_binary_iff:
  "map_of types x = Some t \<Longrightarrow> map_of types y = Some u \<Longrightarrow> check_binary types f x y = Inr r \<longleftrightarrow> binary_typed f t u r"
  by (auto simp: check_binary_def binary_typed_def bnd_Inr_iff requireType_iff)

lemma check_node_iff:
  assumes "table_ok types" and "\<forall>c \<in> set (children e). map_of types c \<noteq> None"
  shows "check_node types e = Inr r \<longleftrightarrow> typed e r"
proof (cases e)
  case (Call f es a b)
  define ts where "ts = map (\<lambda>c. the (map_of types c)) es"
  have tab: "list_all2 (\<lambda>e t. map_of types e = Some t) es ts"
    using assms(2) Call by (auto simp: ts_def list_all2_conv_all_nth)
  then have ty: "list_all2 typed es ts"
    using assms(1) by (auto simp: table_ok_def elim: list_all2_mono)
  have "list_all2 typed es us \<longleftrightarrow> us = ts" for us
    using ty by (auto simp: list_all2_conv_all_nth intro!: nth_equalityI typed_unique)
  with check_call_iff [OF tab] show ?thesis
    by (auto simp: check_node_def Call typed_simps)
next
  case (Unary f x a b)
  with assms obtain t where "map_of types x = Some t" "typed x t" by (auto simp: table_ok_def)
  then show ?thesis
    by (auto simp: check_node_def Unary typed_simps typed_iff requireType_iff Let_def bnd_Inr_iff)
next
  case (Binary f x y a b)
  with assms obtain t u where t: "map_of types x = Some t" "typed x t" and u: "map_of types y = Some u" "typed y u"
    by (auto simp: table_ok_def)
  then show ?thesis
    using check_binary_iff [OF t(1) u(1)] by (auto simp: check_node_def Binary typed_simps typed_iff)
next
  case (Conditional c x y a b)
  with assms obtain s t u where "map_of types c = Some s" "typed c s" and "map_of types x = Some t" "typed x t"
    and "map_of types y = Some u" "typed y u"
    by (auto simp: table_ok_def)
  then show ?thesis
    by (auto simp: check_node_def Conditional typed_simps typed_iff requireType_iff bnd_Inr_iff split: if_splits)
qed (auto simp: check_node_def typed_simps)

lemma typed_children: "typed e t \<Longrightarrow> c \<in> set (children e) \<Longrightarrow> \<exists>u. typed c u"
  by (cases e) (auto simp: typed_simps list_all2_conv_all_nth in_set_conv_nth)

text \<open>What a visit of a node does to the table: all typed, or an error exactly for an untyped node.\<close>

definition visits :: "expr set \<Rightarrow> type_table \<Rightarrow> thrown + type_table \<Rightarrow> bool" where
  "visits es types r \<longleftrightarrow>
     (case r of
        Inr types' \<Rightarrow> (\<forall>e \<in> es. \<exists>t. typed e t) \<and> table_ok types' \<and> dom (map_of types) \<subseteq> dom (map_of types') \<and> es \<subseteq> dom (map_of types')
      | Inl err \<Rightarrow> \<exists>e \<in> es. \<forall>t. \<not> typed e t)"

lemma visits_fold:
  assumes "\<And>e types. e \<in> set es \<Longrightarrow> table_ok types \<Longrightarrow> visits {e} types (f e types)"
    and "table_ok types"
  shows "visits (set es) types (fold_m f es types)"
  using assms
proof (induction es arbitrary: types)
  case Nil
  then show ?case by (simp add: visits_def)
next
  case (Cons e es)
  have e: "visits {e} types (f e types)" using Cons.prems by simp
  show ?case
  proof (cases "f e types")
    case (Inl err)
    with e show ?thesis by (auto simp: visits_def)
  next
    case (Inr types')
    with e have "table_ok types'" by (auto simp: visits_def)
    then have "visits (set es) types' (fold_m f es types')" using Cons by simp
    with e Inr show ?thesis by (cases "fold_m f es types'") (simp_all add: visits_def, blast+)
  qed
qed

lemma visits_check:
  "height e + d \<le> 256 \<Longrightarrow> table_ok types \<Longrightarrow> visits {e} types (visit_rec check_visitor d e types)"
proof (induction "size e" arbitrary: e d types rule: less_induct)
  case less
  have kids: "visits (set (children e)) types (fold_m (visit_rec check_visitor (d + 1)) (children e) types)"
  proof (rule visits_fold)
    fix c ty assume c: "c \<in> set (children e)" and ok: "table_ok ty"
    have "height c + (d + 1) \<le> 256" using height_child [OF c] less.prems by simp
    then show "visits {c} ty (visit_rec check_visitor (d + 1) c ty)"
      using less.hyps [OF size_children [OF c]] ok by blast
  qed (fact less.prems)
  show ?case
  proof (cases "fold_m (visit_rec check_visitor (d + 1)) (children e) types")
    case (Inl err)
    with kids less.prems typed_children show ?thesis
      by (auto simp: visits_def visit_rec.simps [of _ d e])
  next
    case (Inr types')
    with kids have ok: "table_ok types'" and ch: "\<forall>c \<in> set (children e). map_of types' c \<noteq> None"
      and sub: "dom (map_of types) \<subseteq> dom (map_of types')"
      by (auto simp: visits_def)
    have "visits {e} types (check_visitor e types')"
      using check_node_iff [OF ok ch] sub ok
      by (cases "check_node types' e") (auto simp: visits_def check_visitor_def table_ok_def)
    with Inr less.prems show ?thesis by (simp add: visit_rec.simps [of _ d e])
  qed
qed

lemma checkExpressionTypes_iff:
  "checkExpressionTypes e = Inr () \<longleftrightarrow> height e \<le> 256 \<and> (\<exists>t. typed e t)"
proof -
  have "table_ok []" by (simp add: table_ok_def)
  then have "visits {e} [] (visit_rec check_visitor 0 e [])" if "height e \<le> 256"
    using visits_check [of e 0] that by simp
  moreover have "height e \<le> 256" if "visit_rec check_visitor 0 e [] = Inr ty" for ty
    using visit_rec_height [OF that] by simp
  ultimately show ?thesis
    by (cases "visit_rec check_visitor 0 e []")
      (auto simp: checkExpressionTypes_def visitExpression_rec visits_def)
qed

text \<open>
  C6. The type checker decides the typing relation of the expression language: it accepts a tree
  exactly when the tree is at most 256 levels high and has a type.
\<close>

theorem checkExpressionTypes_iff_typed:
  "checkExpressionTypes e = Inr () \<longleftrightarrow> height e \<le> 256 \<and> (\<exists>t. typed e t)"
  by (rule checkExpressionTypes_iff)

section \<open>What the compiler returns\<close>

text \<open>The request rule a node gives rise to, if it does.\<close>

fun rule_of :: "jstring \<Rightarrow> expr \<Rightarrow> request_rule option" where
  "rule_of source (Conditional c (Literal (LNum m) i a b) (Literal (LNum n) i' a' b') a'' b'') =
     (if n = Fin 1 \<and> funs_of c \<inter> set rule_functions \<noteq> {}
      then Some \<lparr>rr_node = Conditional c (Literal (LNum m) i a b) (Literal (LNum n) i' a' b') a'' b'',
                 rr_condition = c, rr_multiplier = m, rr_cond = slice (e_start c) (e_end c) source\<rparr>
      else None)"
| "rule_of source _ = None"

lemma js_eq_one: "js_eq n (Fin 1) \<longleftrightarrow> n = Fin 1"
  by (cases n) (auto simp: js_eq_def is_finite_def fval_def)

lemma height_subnode: "x \<in> set (subnodes e) \<Longrightarrow> height x \<le> height e"
proof (induction "size e" arbitrary: e rule: less_induct)
  case less
  then show ?case
    using height_child size_children by (fastforce simp: set_subnodes [of e])
qed

lemma rule_visitor_eq:
  assumes "height e \<le> 256"
  shows "rule_visitor source e acc = Inr (acc @ (case rule_of source e of Some r \<Rightarrow> [r] | None \<Rightarrow> []))"
proof -
  have c: "height c \<le> 256" if "e = Conditional c x y a b" for c x y a b
    using that assms height_child [of c e] by simp
  show ?thesis
    by (cases "(source, e)" rule: rule_of.cases)
      (auto simp: rule_visitor_def js_eq_one expressionDependencies_eq c list_ex_iff
          split: expr.splits lit_value.splits)
qed

lemma rule_fold:
  "(\<And>e. e \<in> set es \<Longrightarrow> height e \<le> 256) \<Longrightarrow>
   fold_m (rule_visitor source) es acc = Inr (acc @ List.map_filter (rule_of source) es)"
  by (induction es arbitrary: acc)
    (auto simp: rule_visitor_eq split: option.splits)

lemma visit_rules:
  "height e \<le> 256 \<Longrightarrow> visitExpression e (rule_visitor source) [] = Inr (List.map_filter (rule_of source) (subnodes e))"
  using rule_fold [of "subnodes e" source "[]"] height_subnode
  by (simp add: visitExpression_rec visit_rec_fold) (metis order_trans)

text \<open>
  C7. A compiled expression records what its text says: the tree is the parse of the text and has
  a type, the variable and function sets are those that occur in it, and its request rules are, in
  postorder, exactly the conditionals \<open>c ? m : 1\<close> with a number \<open>m\<close> whose condition looks at the
  request or the clock, each with the text of its condition.
\<close>

theorem compile_records:
  "compile_result source = Ready c \<Longrightarrow>
     parse source = Inr (cb_ast c) \<and> height (cb_ast c) \<le> 256 \<and> (\<exists>t. typed (cb_ast c) t)
     \<and> cb_source c = source \<and> cb_variables c = vars_of (cb_ast c) \<and> cb_functions c = funs_of (cb_ast c)
     \<and> cb_rules c = List.map_filter (rule_of source) (subnodes (cb_ast c))"
  by (auto simp: compile_result_def compile_try_def checkExpressionTypes_iff expressionDependencies_eq
      visit_rules split: sum.splits if_splits)

theorem compile_records_witness:
  "\<exists>c. compile_result (js ''param(\"a\") == 1 ? 2 : 1'') = Ready c \<and> length (cb_rules c) = 1
     \<and> cb_functions c = funs_of (cb_ast c) \<and> height (cb_ast c) \<le> 256"
proof -
  let ?s = "js ''param(\"a\") == 1 ? 2 : 1''"
  have "\<not> isl (compile_try ?s) \<and> length (cb_rules (projr (compile_try ?s))) = 1" by code_simp
  then obtain c where "compile_result ?s = Ready c" "length (cb_rules c) = 1"
    by (cases "compile_try ?s") (auto simp: compile_result_def)
  with compile_records [OF this(1)] show ?thesis by blast
qed

section \<open>Fixed prices\<close>

fun fixed_call_ok :: "expr \<Rightarrow> bool" where
  "fixed_call_ok (Call f es a b) = (f = js ''fixed'' \<longrightarrow> es \<noteq> [] \<and> fixed_amount_ok (hd es))"
| "fixed_call_ok _ = True"

definition fixed_calls_ok :: "expr \<Rightarrow> bool" where
  "fixed_calls_ok e \<longleftrightarrow> (\<forall>n \<in> set (subnodes e). fixed_call_ok n)"

lemma fixed_calls_ok_simps [simp]:
  "fixed_calls_ok (Literal v i a b)"
  "fixed_calls_ok (Variable name a b)"
  "fixed_calls_ok (Unary f x a b) \<longleftrightarrow> fixed_calls_ok x"
  "fixed_calls_ok (Binary f x y a b) \<longleftrightarrow> fixed_calls_ok x \<and> fixed_calls_ok y"
  "fixed_calls_ok (Conditional x y z a b) \<longleftrightarrow> fixed_calls_ok x \<and> fixed_calls_ok y \<and> fixed_calls_ok z"
  "fixed_calls_ok (Call f es a b) \<longleftrightarrow> list_all fixed_calls_ok es \<and> fixed_call_ok (Call f es a b)"
  by (auto simp: fixed_calls_ok_def list_all_iff)

lemma no_fixed: "js ''fixed'' \<notin> funs_of e \<Longrightarrow> fixed_calls_ok e"
  unfolding fixed_calls_ok_def
proof
  fix n assume "js ''fixed'' \<notin> funs_of e" "n \<in> set (subnodes e)"
  then show "fixed_call_ok n" by (cases n) (auto simp: funs_of_def)
qed

lemma no_marker: "containsPricingMarker e = Inr False \<Longrightarrow> fixed_calls_ok e"
  by (rule no_fixed)
    (auto simp: containsPricingMarker_def expressionDependencies_eq split: if_splits)

definition rules_ok :: "request_rule list \<Rightarrow> bool" where
  "rules_ok rules \<longleftrightarrow> (\<forall>r \<in> set rules. \<exists>m i a b n i' a' b' a'' b''. rr_multiplier r = m \<and>
     rr_node r = Conditional (rr_condition r) (Literal (LNum m) i a b) (Literal (LNum n) i' a' b') a'' b'' \<and> n = Fin 1)"

lemma rules_ok_map_filter: "rules_ok (List.map_filter (rule_of source) es)"
  by (auto simp: rules_ok_def List.map_filter_def elim!: rule_of.elims split: if_splits)

lemma is_multiplier_ok:
  assumes "is_multiplier rules f = Inr True" and "rules_ok rules"
  shows "fixed_calls_ok f"
proof (cases "\<exists>a b. f = Variable (js ''image_count'') a b")
  case False
  with assms(1) obtain r where "find (\<lambda>candidate. rr_node candidate = f) rules = Some r"
    and c: "containsPricingMarker (rr_condition r) = Inr False"
    by (auto simp: is_multiplier_def split: if_splits option.splits expr.splits)
  then have "r \<in> set rules" "rr_node r = f" by (auto simp: find_Some_iff)
  with assms(2) no_marker [OF c] show ?thesis by (auto simp: rules_ok_def)
qed auto

lemma function_arities [simp]:
  "map_of BILLING_FUNCTIONS (js ''fixed'') = Some 1" "map_of BILLING_FUNCTIONS (js ''tier'') = Some 2"
  by (simp_all add: BILLING_FUNCTIONS_def)

lemma tier_price_ok_calls:
  assumes "tier_price_ok price = Inr True" and "ast_ok price"
  shows "fixed_calls_ok price"
proof (cases "\<exists>es a b. price = Call (js ''fixed'') es a b")
  case True
  with assms show ?thesis
    by (auto simp: tier_price_ok_def fixed_amount_ok_def length_Suc_conv
        split: list.splits expr.splits lit_value.splits)
next
  case False
  with assms(1) have "containsPricingMarker price = Inr False"
    by (auto simp: tier_price_ok_def split: expr.splits if_splits)
  then show ?thesis by (rule no_marker)
qed

lemma validate_calls:
  "validateFixedPricingTree rules e = Inr () \<Longrightarrow> rules_ok rules \<Longrightarrow> ast_ok e \<Longrightarrow> fixed_calls_ok e"
proof (induction rules e rule: validateFixedPricingTree.induct)
  case (1 rules c x y a b)
  then show ?case by (auto split: if_splits intro: no_marker)
next
  case (2 rules f l r a b)
  have "is_multiplier rules x = Inr True \<Longrightarrow> fixed_calls_ok x" for x
    using is_multiplier_ok 2(4) by blast
  with 2 show ?case by (auto split: if_splits)
next
  case (3 rules f args a b)
  then obtain n p where "args = [n, p]" "f = js ''tier''"
    by (cases args; cases "tl args") (auto split: if_splits)
  moreover from this 3 have "containsPricingMarker n = Inr False" "tier_price_ok p = Inr True" "ast_ok p"
    by (auto split: if_splits)
  ultimately show ?case using no_marker [of n] tier_price_ok_calls [of p] by simp
qed auto

lemma compile_validated:
  assumes "compile_result source = Ready c"
  shows "fixed_calls_ok (cb_ast c)" and "ast_ok (cb_ast c)"
proof -
  from assms have p: "parse source = Inr (cb_ast c)"
    and v: "js ''fixed'' \<in> funs_of (cb_ast c) \<longrightarrow>
      validateFixedPricingTree (List.map_filter (rule_of source) (subnodes (cb_ast c))) (cb_ast c) = Inr ()"
    by (auto simp: compile_result_def compile_try_def checkExpressionTypes_iff expressionDependencies_eq
        visit_rules split: sum.splits if_splits)
  show ok: "ast_ok (cb_ast c)" by (rule parse_ok(2) [OF p])
  show "fixed_calls_ok (cb_ast c)"
  proof (cases "js ''fixed'' \<in> funs_of (cb_ast c)")
    case True
    with v ok rules_ok_map_filter show ?thesis by (blast intro: validate_calls)
  qed (rule no_fixed)
qed

lemma subnode_ast_ok: "ast_ok e \<Longrightarrow> x \<in> set (subnodes e) \<Longrightarrow> ast_ok x"
proof (induction "size e" arbitrary: e rule: less_induct)
  case less
  have "ast_ok c" if "c \<in> set (children e)" for c
    using less.prems(1) that by (cases e) (auto simp: list_all_iff)
  with less size_children show ?case by (auto simp: set_subnodes [of e])
qed

text \<open>
  C8. In a compiled expression every call of \<open>fixed\<close> has as its only argument a number literal that
  is not negative and stays finite when it is scaled to millionths: a fixed price can be shown and
  charged without evaluating anything else.
\<close>

theorem compile_fixed_prices:
  "compile_result source = Ready c \<Longrightarrow> Call (js ''fixed'') es a b \<in> set (subnodes (cb_ast c)) \<Longrightarrow>
   \<exists>x i k l. es = [Literal (LNum x) i k l] \<and> js_le (Fin 0) x \<and> is_finite (js_mul x (Fin 1000000))"
proof -
  assume c: "compile_result source = Ready c" and s: "Call (js ''fixed'') es a b \<in> set (subnodes (cb_ast c))"
  have "length es = 1" using subnode_ast_ok [OF compile_validated(2) [OF c] s] by simp
  moreover have "fixed_amount_ok (hd es)"
    using compile_validated(1) [OF c] s by (force simp: fixed_calls_ok_def)
  ultimately show ?thesis
    by (auto simp: fixed_amount_ok_def length_Suc_conv split: expr.splits lit_value.splits)
qed

theorem compile_fixed_prices_witness:
  "\<exists>c es a b x i k l. compile_result (js ''tier(\"a\", fixed(2))'') = Ready c
     \<and> Call (js ''fixed'') es a b \<in> set (subnodes (cb_ast c)) \<and> es = [Literal (LNum x) i k l] \<and> js_le (Fin 0) x"
proof -
  let ?s = "js ''tier(\"a\", fixed(2))''"
  let ?e = "Call (js ''tier'') [Literal (LStr (js ''a'')) None 5 8,
              Call (js ''fixed'') [Literal (LNum (Fin 2)) (Some True) 16 17] 10 18] 0 19"
  have "\<not> isl (compile_try ?s) \<and> cb_ast (projr (compile_try ?s)) = ?e" by code_simp
  then obtain c where c: "compile_result ?s = Ready c" "cb_ast c = ?e"
    by (cases "compile_try ?s") (auto simp: compile_result_def)
  have s: "Call (js ''fixed'') [Literal (LNum (Fin 2)) (Some True) 16 17] 10 18 \<in> set (subnodes (cb_ast c))"
    by (simp add: c(2))
  from compile_fixed_prices [OF c(1) s] c(1) s show ?thesis by blast
qed

section \<open>The cache\<close>

definition cache_ok :: "compiled_cache \<Rightarrow> bool" where
  "cache_ok cache \<longleftrightarrow> length cache \<le> 128 \<and> distinct (map fst cache)
     \<and> (\<forall>(source, result) \<in> set cache. result = compile_result source)"

lemma compile_cache_ok:
  assumes "cache_ok cache" and "compileBillingExpression cache source = (result, cache')"
  shows "cache_ok cache'" and "result = compile_result source"
proof -
  show "result = compile_result source"
    using assms by (auto simp: compileBillingExpression_def cache_ok_def Let_def
        split: option.splits dest!: map_of_SomeD)
  show "cache_ok cache'"
  proof (cases "map_of cache source")
    case None
    define old where "old = (if 128 \<le> length cache then tl cache else cache)"
    have sub: "set old \<subseteq> set cache" by (cases cache) (auto simp: old_def)
    have "distinct (map fst old)"
      using assms(1) by (auto simp: old_def cache_ok_def map_tl distinct_tl)
    moreover have "source \<notin> fst ` set old" using None sub by (auto simp: map_of_eq_None_iff)
    moreover have "length old \<le> 127" using assms(1) by (auto simp: old_def cache_ok_def)
    moreover have "cache' = old @ [(source, compile_result source)]"
      using assms(2) None by (auto simp: compileBillingExpression_def Let_def old_def)
    ultimately show ?thesis using assms(1) sub by (auto simp: cache_ok_def)
  next
    case (Some r)
    with assms show ?thesis by (simp add: compileBillingExpression_def)
  qed
qed

interpretation compiled_memo: memo_table
  "\<lambda>cache source. Inr (compileBillingExpression cache source) :: thrown + _"
  "\<lambda>source. Inr (compile_result source)" "[]" cache_ok
  by unfold_locales (simp add: cache_ok_def, auto dest: compile_cache_ok)

text \<open>
  C9. The cache of compiled expressions cannot be seen: after any sequence of compilations, from an
  empty cache, the answers given and the next answer are those of compiling afresh, and the cache
  holds at most 128 entries, one per text.
\<close>

theorem compile_cache_transparent:
  "ask_all (\<lambda>cache source. Inr (compileBillingExpression cache source) :: thrown + _) [] sources = Inr (results, cache)
   \<Longrightarrow> results = map compile_result sources \<and> fst (compileBillingExpression cache source) = compile_result source
     \<and> length cache \<le> 128 \<and> distinct (map fst cache)"
proof -
  assume run: "ask_all (\<lambda>cache source. Inr (compileBillingExpression cache source) :: thrown + _) [] sources = Inr (results, cache)"
  note s = compiled_memo.ask_all_sound [OF compiled_memo.inv_none run]
  have "map (Inr :: _ \<Rightarrow> thrown + _) results = map Inr (map compile_result sources)"
    using s by (simp add: comp_def)
  then have "results = map compile_result sources" by (rule map_injective) (simp add: inj_def)
  moreover have "fst (compileBillingExpression cache source) = compile_result source"
    using compile_cache_ok(2) s by (metis prod.collapse)
  ultimately show ?thesis using s by (simp add: cache_ok_def)
qed

theorem compile_cache_transparent_witness:
  "fst (compileBillingExpression [(js ''p'', compile_result (js ''p''))] (js ''p'')) = compile_result (js ''p'')"
  using compile_cache_transparent [of "[js ''p'']" "[compile_result (js ''p'')]" "[(js ''p'', compile_result (js ''p''))]" "js ''p''"]
  by (simp add: compileBillingExpression_def)

section \<open>The compiler never crashes\<close>

lemma diagnosed_fold:
  "(\<And>x s. x \<in> set xs \<Longrightarrow> diagnosed (f x s)) \<Longrightarrow> diagnosed (fold_m f xs s)"
  by (induction xs arbitrary: s) (auto intro!: diagnosed_bnd)

lemma diagnosed_visit:
  "(\<And>x s. x \<in> set (subnodes e) \<Longrightarrow> diagnosed (v x s)) \<Longrightarrow> diagnosed (visit_rec v d e s)"
proof (induction "size e" arbitrary: e d s rule: less_induct)
  case less
  have "diagnosed (visit_rec v (d + 1) c u)" if c: "c \<in> set (children e)" for c u
  proof (rule less.hyps [OF size_children [OF c]])
    fix x w assume "x \<in> set (subnodes c)"
    with c show "diagnosed (v x w)" by (intro less.prems) (auto simp: set_subnodes [of e])
  qed
  then show ?case
    using less.prems [of e] by (auto simp: visit_rec.simps [of v d e] intro!: diagnosed_bnd diagnosed_fold)
qed

lemma diagnosed_dependencies [simp]: "diagnosed (expressionDependencies e)"
  by (simp add: expressionDependencies_eq)

lemma diagnosed_marker [simp]: "diagnosed (containsPricingMarker e)"
  by (auto simp: containsPricingMarker_def intro!: diagnosed_bnd)

lemma diagnosed_require [simp]: "diagnosed (requireType types e t)"
  by (simp add: requireType_def Let_def)

lemma diagnosed_require_arg: "i < length es \<Longrightarrow> diagnosed (require_arg types es i t)"
  by (simp add: require_arg_def)

lemma arity_bounds:
  "map_of BILLING_FUNCTIONS f = Some n \<Longrightarrow> 0 < n"
  "map_of BILLING_FUNCTIONS (js ''has'') = Some n \<Longrightarrow> n = 2"
  by (auto simp: BILLING_FUNCTIONS_def split: if_splits)

lemma diagnosed_check_node:
  assumes "ast_ok e"
  shows "diagnosed (check_node types e)"
proof (cases e)
  case (Call f es a b)
  with assms have ar: "map_of BILLING_FUNCTIONS f = Some (length es)" by simp
  then have "0 < length es" "f = js ''has'' \<or> f = js ''tier'' \<Longrightarrow> 1 < length es"
    using arity_bounds by auto
  then show ?thesis
    by (auto simp: Call check_node_def check_call_def intro!: diagnosed_bnd diagnosed_require_arg diagnosed_fold)
qed (auto simp: check_node_def check_binary_def Let_def intro!: diagnosed_bnd)

lemma diagnosed_validate: "ast_ok e \<Longrightarrow> diagnosed (validateFixedPricingTree rules e)"
proof (induction rules e rule: validateFixedPricingTree.induct)
  case (1 rules c x y a b)
  then show ?case by (auto simp: pricing_error_def intro!: diagnosed_bnd)
next
  case (2 rules f l r a b)
  have "diagnosed (is_multiplier rules x)" for x
    by (auto simp: is_multiplier_def intro!: diagnosed_bnd split: option.splits)
  with 2 show ?case by (auto simp: pricing_error_def intro!: diagnosed_bnd)
next
  case (3 rules f args a b)
  have price: "diagnosed (tier_price_ok p)" if "ast_ok p" for p
    using that by (auto simp: tier_price_ok_def intro!: diagnosed_bnd split: expr.splits list.splits)
  show ?case
  proof (cases "f = js ''tier''")
    case True
    with 3 obtain n p where "args = [n, p]" "ast_ok p"
      by (cases args; cases "tl args") auto
    with price show ?thesis by (auto simp: pricing_error_def intro!: diagnosed_bnd)
  qed (simp add: pricing_error_def)
qed (auto simp: pricing_error_def)

text \<open>
  C10. Compiling never fails with anything but a diagnostic of the program: no missing argument
  is read, no table entry is absent, whatever the text.
\<close>

theorem compile_never_crashes:
  "(\<exists>c. compile_try source = Inr c) \<or> (\<exists>d. compile_try source = Inl (Billing_error d))"
proof -
  have "diagnosed (compile_try source)"
    unfolding compile_try_def
  proof (rule diagnosed_bnd [OF parse_diagnosed])
    fix ast assume p: "parse source = Inr ast"
    note ok = parse_ok(2) [OF p]
    have "diagnosed (checkExpressionTypes ast)"
      using subnode_ast_ok [OF ok] diagnosed_check_node
      by (auto simp: checkExpressionTypes_def visitExpression_rec check_visitor_def
          intro!: diagnosed_bnd diagnosed_visit)
    moreover have "diagnosed (visitExpression ast (rule_visitor source) [])" if "height ast \<le> 256"
      using that by (simp add: visit_rules)
    ultimately show "diagnosed (bnd (checkExpressionTypes ast) (\<lambda>_.
     bnd (expressionDependencies ast) (\<lambda>deps.
     bnd (visitExpression ast (rule_visitor source) []) (\<lambda>requestRules.
     bnd (if js ''fixed'' \<in> dep_functions deps then validateFixedPricingTree requestRules ast else Inr ()) (\<lambda>_.
     Inr \<lparr>cb_version = 1, cb_source = source, cb_ast = ast, cb_variables = dep_variables deps,
          cb_functions = dep_functions deps, cb_rules = requestRules\<rparr>)))))"
      using diagnosed_validate [OF ok]
      by (auto simp: checkExpressionTypes_iff intro!: diagnosed_bnd)
  qed
  then show ?thesis by (cases "compile_try source") (auto dest: diagnosed_Inl)
qed

end
