(* ===== verification/JS_Value.thy ===== *)
theory JS_Value
  imports JS_String "HOL-Library.List_Lexorder"
begin

text \<open>
  Values of unknown shape (parsed JSON and \<open>undefined\<close>), \<open>Number\<close> of a string, and the UTC fields of
  a \<open>Date\<close>.  An object is the list of its own entries in the order of \<open>Object.entries\<close>.
\<close>

datatype jsval =
  JUndef | JNull | JBool bool | JNum jsnum | JStr jstring
| JArr "jsval list" | JObj "(jstring \<times> jsval) list"

type_synonym js_object = "(jstring \<times> jsval) list"

definition is_nullish :: "jsval \<Rightarrow> bool" where
  "is_nullish v = (v = JUndef \<or> v = JNull)"

text \<open>\<open>typeof v === 'object'\<close>: \<open>null\<close> is one.\<close>

fun is_object :: "jsval \<Rightarrow> bool" where
  "is_object JNull = True"
| "is_object (JArr _) = True"
| "is_object (JObj _) = True"
| "is_object _ = False"

fun is_number :: "jsval \<Rightarrow> bool" where
  "is_number (JNum _) = True"
| "is_number _ = False"

fun is_string :: "jsval \<Rightarrow> bool" where
  "is_string (JStr _) = True"
| "is_string _ = False"

text \<open>\<open>===\<close> on values that are not both objects.\<close>

fun strict_equal :: "jsval \<Rightarrow> jsval \<Rightarrow> bool" where
  "strict_equal JUndef JUndef = True"
| "strict_equal JNull JNull = True"
| "strict_equal (JBool a) (JBool b) = (a = b)"
| "strict_equal (JNum a) (JNum b) = js_eq a b"
| "strict_equal (JStr a) (JStr b) = (a = b)"
| "strict_equal _ _ = False"

section \<open>Number of a string\<close>

definition radix_value :: "nat \<Rightarrow> jstring \<Rightarrow> jsnum" where
  "radix_value r ds =
     (if ds = [] \<or> \<not> list_all (\<lambda>c. is_hex c \<and> hex_val c < r) ds then NaN
      else round_double (of_nat (foldl (\<lambda>n d. r * n + hex_val d) 0 ds)))"

definition decimal_number :: "jstring \<Rightarrow> jsnum" where
  "decimal_number s =
     (if s = js ''Infinity'' then PosInf
      else if match_number s = Some (length s) then num_of_text s else NaN)"

definition js_Number :: "jstring \<Rightarrow> jsnum" where
  "js_Number s =
     (case trim s of
        [] \<Rightarrow> Fin 0
      | c # rest \<Rightarrow>
          if c = 45 then js_neg (decimal_number rest)
          else if c = 43 then decimal_number rest
          else if c = 48 \<and> rest \<noteq> [] \<and> hd rest \<in> {120, 88} then radix_value 16 (tl rest)
          else if c = 48 \<and> rest \<noteq> [] \<and> hd rest \<in> {111, 79} then radix_value 8 (tl rest)
          else if c = 48 \<and> rest \<noteq> [] \<and> hd rest \<in> {98, 66} then radix_value 2 (tl rest)
          else decimal_number (c # rest))"

section \<open>Dates\<close>

text \<open>The time value of a \<open>Date\<close> in milliseconds, or \<open>None\<close> for an invalid date.\<close>

type_synonym date = "int option"

definition utc_hours :: "int \<Rightarrow> int" where
  "utc_hours t = t div 3600000 mod 24"

definition utc_minutes :: "int \<Rightarrow> int" where
  "utc_minutes t = t div 60000 mod 60"

definition utc_weekday :: "int \<Rightarrow> int" where
  "utc_weekday t = (t div 86400000 + 4) mod 7"

text \<open>Day of the 400-year era that starts on 1 March, day of the year that starts there.\<close>

definition day_of_era :: "int \<Rightarrow> int" where
  "day_of_era t = (t div 86400000 + 719468) mod 146097"

definition day_of_year :: "int \<Rightarrow> int" where
  "day_of_year t =
     (let doe = day_of_era t;
          doc = doe - 36524 * min 3 (doe div 36524);
          doq = doc mod 1461
      in doq - 365 * min 3 (doq div 365))"

definition utc_month :: "int \<Rightarrow> int" where
  "utc_month t =
     (let mp = (5 * day_of_year t + 2) div 153 in if mp < 10 then mp + 3 else mp - 9)"

definition utc_day :: "int \<Rightarrow> int" where
  "utc_day t =
     (let mp = (5 * day_of_year t + 2) div 153 in day_of_year t - (153 * mp + 2) div 5 + 1)"

lemma utc_ranges:
  "0 \<le> utc_hours t \<and> utc_hours t \<le> 23" "0 \<le> utc_minutes t \<and> utc_minutes t \<le> 59"
  "0 \<le> utc_weekday t \<and> utc_weekday t \<le> 6"
  by (auto simp: utc_hours_def utc_minutes_def utc_weekday_def
      simp flip: zle_add1_eq_le)

lemma day_of_year_range: "0 \<le> day_of_year t \<and> day_of_year t \<le> 365"
proof -
  have "0 \<le> q - 365 * min 3 (q div 365) \<and> q - 365 * min 3 (q div 365) \<le> 365"
    if "0 \<le> q" "q < 1461" for q :: int
    using that by (auto simp: min_def)
  from this [of "(day_of_era t - 36524 * min 3 (day_of_era t div 36524)) mod 1461"]
  show ?thesis by (simp add: day_of_year_def Let_def)
qed

lemma utc_month_range: "1 \<le> utc_month t \<and> utc_month t \<le> 12"
  using day_of_year_range [of t] by (auto simp: utc_month_def Let_def)

lemma utc_day_range: "1 \<le> utc_day t \<and> utc_day t \<le> 31"
  using day_of_year_range [of t] by (auto simp: utc_day_def Let_def)

end
