(* ===== verification/Expr_Runtime.thy ===== *)
theory Expr_Runtime
  imports Expr_Check JS_Value
begin

text \<open>
  The evaluator of \<open>billing-expression/runtime.ts\<close>: reading a path of the request body, the text of
  a value, the fields of an instant in a zone, and the class \<open>BillingRuntime\<close>.

  The fields of the class that an evaluation writes are the record \<open>runtime_state\<close>; those that are
  fixed once the object is built are \<open>runtime_env\<close>.  The methods are one definition each.  They
  take the recursive call \<open>evaluate\<close> as an argument, and \<open>evaluate\<close> ties the knot by recursion on the
  tree; its counter of nested calls, restored by \<open>finally\<close>, is the argument \<open>depth\<close>.  Time-zone
  data, Unicode case tables and the clock are not part of the program: they are the record
  \<open>host\<close>, an argument.
\<close>

section \<open>The host\<close>

text \<open>
  \<open>host_zone z\<close> is \<open>None\<close> when \<open>new Intl.DateTimeFormat(\<dots>, { timeZone: z })\<close> throws and otherwise the
  resolved zone name; \<open>host_parts z t\<close> are the pairs of type and value of \<open>formatToParts\<close>.
\<close>

record host =
  host_clock :: date
  host_lower :: "jstring \<Rightarrow> jstring"
  host_zone :: "jstring \<Rightarrow> jstring option"
  host_parts :: "jstring \<Rightarrow> int \<Rightarrow> (jstring \<times> jstring) list"

section \<open>Paths into the request body\<close>

fun split_path :: "jstring \<Rightarrow> jstring \<Rightarrow> jstring \<Rightarrow> jstring list \<Rightarrow> thrown + jstring list" where
  "split_path path [] part parts = Inr (parts @ [part])"
| "split_path path (c # rest) part parts =
     (if c = 92
      then (case rest of
              [] \<Rightarrow> Inl (billing_error Code_unsupported path None)
            | d # rest' \<Rightarrow> split_path path rest' (part @ [d]) parts)
      else if c = 46 then split_path path rest [] (parts @ [part])
      else if c \<in> set (js ''*?[]()|@!'') then Inl (billing_error Code_unsupported path None)
      else split_path path rest (part @ [c]) parts)"

definition array_get :: "jsval list \<Rightarrow> jsnum \<Rightarrow> jsval" where
  "array_get xs index =
     (if is_safe_integer index \<and> nat \<lfloor>fval index\<rfloor> < length xs then xs ! nat \<lfloor>fval index\<rfloor> else JUndef)"

fun walk_path :: "jstring \<Rightarrow> jsval \<Rightarrow> jstring list \<Rightarrow> thrown + jsval" where
  "walk_path path v [] = Inr (if is_nullish v then JNull else v)"
| "walk_path path v (key # keys) =
     (case v of
        JArr xs \<Rightarrow>
          if key = js ''#'' \<and> keys = [] then Inr (JNum (num_of_int (int (length xs))))
          else if key = js ''#'' then Inl (billing_error Code_unsupported path None)
          else if key = [] \<or> \<not> list_all is_digit key then Inr JNull
          else walk_path path (array_get xs (num_of_text key)) keys
      | JObj kvs \<Rightarrow>
          (case map_of kvs key of
             Some w \<Rightarrow> walk_path path w keys
           | None \<Rightarrow> Inr JNull)
      | _ \<Rightarrow> Inr JNull)"

definition readRequestPath :: "jsval \<Rightarrow> jstring \<Rightarrow> thrown + jsval" where
  "readRequestPath body rawPath =
     (let path = trim rawPath
      in if path = [] then Inr JNull
         else bnd (split_path path path [] []) (walk_path path body))"

section \<open>The text of a value\<close>

definition map_m :: "('a \<Rightarrow> thrown + 'b) \<Rightarrow> 'a list \<Rightarrow> thrown + 'b list" where
  "map_m f xs = fold_m (\<lambda>x ys. bnd (f x) (\<lambda>y. Inr (ys @ [y]))) xs []"

lemma map_m_cong [fundef_cong]:
  "xs = ys \<Longrightarrow> (\<And>x. x \<in> set ys \<Longrightarrow> f x = g x) \<Longrightarrow> map_m f xs = map_m g ys"
  unfolding map_m_def by (rule fold_m_cong) auto

definition number_text :: "jsnum \<Rightarrow> thrown + jstring" where
  "number_text x =
     (if \<not> is_finite x then Inl (billing_error Code_number (js ''request number'') None)
      else if x = NegZero then Inr (js ''-0'')
      else case to_exponential x of (mantissa, exponent) \<Rightarrow>
        if 6 \<le> exponent \<or> exponent < - 4
        then let ds = digits_of (nat \<bar>exponent\<bar>)
             in Inr (mantissa @ js ''e'' @ (if exponent < 0 then js ''-'' else js ''+'')
                     @ replicate (2 - length ds) 48 @ ds)
        else Inr (num_to_string x))"

function billingString :: "nat \<Rightarrow> jsval \<Rightarrow> thrown + jstring" where
  "billingString depth v =
     (if 128 < depth then Inl (limit_error ''request value depth'')
      else case v of
        JUndef \<Rightarrow> Inr (js ''<nil>'')
      | JNull \<Rightarrow> Inr (js ''<nil>'')
      | JArr xs \<Rightarrow>
          bnd (map_m (billingString (depth + 1)) xs) (\<lambda>ts. Inr (js ''['' @ join (js '' '') ts @ js '']''))
      | JObj kvs \<Rightarrow>
          bnd (map_m (\<lambda>kv. bnd (billingString (depth + 1) (snd kv)) (\<lambda>t. Inr (fst kv @ js '':'' @ t)))
                 (sort_key fst kvs))
            (\<lambda>ts. Inr (js ''map['' @ join (js '' '') ts @ js '']''))
      | JNum x \<Rightarrow> number_text x
      | JBool b \<Rightarrow> Inr (if b then js ''true'' else js ''false'')
      | JStr s \<Rightarrow> Inr s)"
  by pat_completeness auto
termination
proof (relation "measure (\<lambda>(d, v). size v)", goal_cases)
  case (3 depth v kvs kv)
  then have "size (snd kv) \<le> size_list (\<lambda>p. size (snd p)) kvs"
    by (intro size_list_estimation' [of kv]) auto
  also have "\<dots> \<le> size_list (size_prod (\<lambda>_. 0) size) kvs" by (rule size_list_pointwise) (auto split: prod.splits)
  finally show ?case using 3 by simp
qed (auto simp: less_Suc_eq_le intro: size_list_estimation')

declare billingString.simps [simp del]

section \<open>Time in a zone\<close>

record time_values =
  tv_hour :: jsnum
  tv_minute :: jsnum
  tv_weekday :: jsnum
  tv_month :: jsnum
  tv_day :: jsnum

definition zone_word_char :: "nat \<Rightarrow> bool" where
  "zone_word_char c = (is_word c \<or> c = 43 \<or> c = 45)"

text \<open>The pattern \<open>[A-Z][A-Za-z0-9_+-]*(?:/[A-Z][A-Za-z0-9_+-]*)*\<close> of the whole text.\<close>

fun zone_syntax :: "bool \<Rightarrow> jstring \<Rightarrow> bool" where
  "zone_syntax first [] = (\<not> first)"
| "zone_syntax first (c # rest) =
     (if first then 65 \<le> c \<and> c \<le> 90 \<and> zone_syntax False rest
      else if c = 47 then zone_syntax True rest
      else zone_word_char c \<and> zone_syntax False rest)"

definition utc_values :: "int \<Rightarrow> time_values" where
  "utc_values t = \<lparr>tv_hour = num_of_int (utc_hours t), tv_minute = num_of_int (utc_minutes t),
     tv_weekday = num_of_int (utc_weekday t), tv_month = num_of_int (utc_month t),
     tv_day = num_of_int (utc_day t)\<rparr>"

text \<open>\<open>Number(parts[k])\<close> with \<open>parts\<close> built by \<open>Object.fromEntries\<close>: the last entry of a key counts.\<close>

definition part_number :: "(jstring \<times> jstring) list \<Rightarrow> string \<Rightarrow> jsnum" where
  "part_number parts k = (case map_of (rev parts) (js k) of Some s \<Rightarrow> js_Number s | None \<Rightarrow> NaN)"

definition weekday_names :: "jstring list" where
  "weekday_names = map js [''Sun'', ''Mon'', ''Tue'', ''Wed'', ''Thu'', ''Fri'', ''Sat'']"

definition weekday_index :: "jstring option \<Rightarrow> jsnum" where
  "weekday_index w =
     (case w of
        None \<Rightarrow> Fin (- 1)
      | Some s \<Rightarrow> (case find_index (\<lambda>n. n = s) weekday_names of Some i \<Rightarrow> num_of_int (int i) | None \<Rightarrow> Fin (- 1)))"

text \<open>The formatter the \<open>try\<close> block builds, or \<open>None\<close> when a \<open>RangeError\<close> is caught.\<close>

definition zone_formatter :: "host \<Rightarrow> jstring \<Rightarrow> jstring option" where
  "zone_formatter h timezone =
     (if \<not> zone_syntax True timezone then None
      else case host_zone h timezone of
             None \<Rightarrow> None
           | Some resolved \<Rightarrow>
               if host_lower h resolved = host_lower h timezone \<and> resolved \<noteq> timezone then None
               else Some timezone)"

definition timeInBillingZone :: "host \<Rightarrow> date \<Rightarrow> jstring \<Rightarrow> thrown + time_values" where
  "timeInBillingZone h now zone =
     (case now of
        None \<Rightarrow> Inl (billing_error Code_type (js ''simulation time'') None)
      | Some t \<Rightarrow>
          let timezone = (if trim zone = [] then js ''UTC'' else trim zone)
          in if timezone = js ''Local''
             then Inl (billing_error Code_unsupported (js ''server Local timezone'') None)
             else case zone_formatter h timezone of
                    None \<Rightarrow> Inr (utc_values t)
                  | Some z \<Rightarrow>
                      let parts = host_parts h z t
                      in Inr \<lparr>tv_hour = part_number parts ''hour'', tv_minute = part_number parts ''minute'',
                           tv_weekday = weekday_index (map_of (rev parts) (js ''weekday'')),
                           tv_month = part_number parts ''month'', tv_day = part_number parts ''day''\<rparr>)"

definition time_field :: "jstring \<Rightarrow> time_values \<Rightarrow> jsnum" where
  "time_field f tv =
     (if f = js ''hour'' then tv_hour tv else if f = js ''minute'' then tv_minute tv
      else if f = js ''weekday'' then tv_weekday tv else if f = js ''month'' then tv_month tv
      else tv_day tv)"

section \<open>The evaluation context and the runtime object\<close>

record request_context =
  req_body :: jsval
  req_headers :: "js_object option"

record simulation_context =
  ctx_image_count :: "jsnum option"
  ctx_tokens :: "js_object option"
  ctx_request :: "request_context option"
  ctx_usage :: "js_object option"
  ctx_now :: "date option"

datatype billing_unit = Unit_token | Unit_request

record billing_request_rule =
  br_cond :: jstring
  br_multiplier :: jsnum
  br_matched :: bool

record runtime_env =
  env_host :: host
  env_rules :: "request_rule list"
  env_context :: simulation_context
  env_now :: date
  env_headers :: "(jstring \<times> jstring) list"

record runtime_state =
  rt_rules :: "billing_request_rule list"
  rt_tier :: jstring
  rt_unit :: billing_unit
  rt_fixed :: "jsnum option"
  rt_times :: "(jstring \<times> time_values) list"

record runtime_value =
  rv_value :: jsval
  rv_integer :: "bool option"

text \<open>The headers map: the value set last for a key is found first.\<close>

definition add_header ::
  "host \<Rightarrow> jstring \<times> jsval \<Rightarrow> (jstring \<times> jstring) list \<Rightarrow> thrown + (jstring \<times> jstring) list" where
  "add_header h entry headers =
     (case entry of (name, rawValue) \<Rightarrow>
        case rawValue of
          JStr raw \<Rightarrow>
            let key = host_lower h (trim name); val = trim raw
            in Inr (if key \<noteq> [] \<and> val \<noteq> [] then (key, val) # headers else headers)
        | _ \<Rightarrow> Inl (billing_error Code_type (js ''request header'') None))"

definition initial_state :: "request_rule list \<Rightarrow> runtime_state" where
  "initial_state rules = \<lparr>
     rt_rules = map (\<lambda>r. \<lparr>br_cond = rr_cond r, br_multiplier = rr_multiplier r, br_matched = False\<rparr>) rules,
     rt_tier = [], rt_unit = Unit_token, rt_fixed = None, rt_times = []\<rparr>"

definition new_runtime ::
  "host \<Rightarrow> request_rule list \<Rightarrow> simulation_context \<Rightarrow> thrown + (runtime_env \<times> runtime_state)" where
  "new_runtime h rules ctx =
     bnd (fold_m (add_header h)
            (case ctx_request ctx of
               Some r \<Rightarrow> (case req_headers r of Some hs \<Rightarrow> hs | None \<Rightarrow> [])
             | None \<Rightarrow> []) [])
       (\<lambda>headers. Inr (\<lparr>env_host = h, env_rules = rules, env_context = ctx,
            env_now = (case ctx_now ctx of Some d \<Rightarrow> d | None \<Rightarrow> host_clock h), env_headers = headers\<rparr>,
          initial_state rules))"

section \<open>The methods\<close>

type_synonym 'a outcome = "thrown + ('a \<times> runtime_state)"
type_synonym evaluator = "expr \<Rightarrow> runtime_state \<Rightarrow> runtime_value outcome"

abbreviation ret :: "jsval \<Rightarrow> bool option \<Rightarrow> runtime_state \<Rightarrow> runtime_value outcome" where
  "ret v i st \<equiv> Inr (\<lparr>rv_value = v, rv_integer = i\<rparr>, st)"

definition boolean :: "evaluator \<Rightarrow> expr \<Rightarrow> runtime_state \<Rightarrow> bool outcome" where
  "boolean ev node st =
     bnd (ev node st) (\<lambda>(r, st').
       case rv_value r of
         JBool b \<Rightarrow> Inr (b, st')
       | _ \<Rightarrow> Inl (billing_error Code_type (js ''boolean condition'') (Some (e_start node))))"

definition numeric :: "evaluator \<Rightarrow> expr \<Rightarrow> runtime_state \<Rightarrow> (jsnum \<times> bool option) outcome" where
  "numeric ev node st =
     bnd (ev node st) (\<lambda>(r, st').
       case rv_value r of
         JNum x \<Rightarrow> Inr ((x, rv_integer r), st')
       | _ \<Rightarrow> Inl (billing_error Code_type (js ''numeric operand'') (Some (e_start node))))"

definition string_value :: "evaluator \<Rightarrow> expr \<Rightarrow> runtime_state \<Rightarrow> jstring outcome" where
  "string_value ev node st =
     bnd (ev node st) (\<lambda>(r, st').
       case rv_value r of
         JStr t \<Rightarrow> Inr (t, st')
       | _ \<Rightarrow> Inl (billing_error Code_type (js ''string argument'') (Some (e_start node))))"

text \<open>The operators on two evaluated operands.\<close>

definition equality ::
  "jstring \<Rightarrow> jsval \<Rightarrow> jsval \<Rightarrow> nat \<Rightarrow> thrown + runtime_value" where
  "equality operator a b pos =
     (if a \<noteq> JNull \<and> b \<noteq> JNull \<and> (is_object a \<or> is_object b)
      then Inl (billing_error Code_unsupported (js ''object comparison'') (Some pos))
      else Inr \<lparr>rv_value = JBool (if operator = js ''=='' then strict_equal a b else \<not> strict_equal a b),
                rv_integer = None\<rparr>)"

definition arithmetic ::
  "jstring \<Rightarrow> jsnum \<Rightarrow> jsnum \<Rightarrow> bool \<Rightarrow> nat \<Rightarrow> thrown + runtime_value" where
  "arithmetic operator a b integer pos =
     (if operator = js ''+'' then Inr \<lparr>rv_value = JNum (js_add a b), rv_integer = Some integer\<rparr>
      else if operator = js ''-'' then Inr \<lparr>rv_value = JNum (js_sub a b), rv_integer = Some integer\<rparr>
      else if operator = js ''*'' then Inr \<lparr>rv_value = JNum (js_mul a b), rv_integer = Some integer\<rparr>
      else if operator = js ''/'' then Inr \<lparr>rv_value = JNum (js_div a b), rv_integer = None\<rparr>
      else if operator = js ''%''
      then (if \<not> integer then Inl (billing_error Code_type (js ''integer modulo'') (Some pos))
            else Inr \<lparr>rv_value = JNum (js_rem a b), rv_integer = Some True\<rparr>)
      else Inl (billing_error Code_unsupported operator (Some pos)))"

definition comparison :: "jstring \<Rightarrow> jsval \<Rightarrow> jsval \<Rightarrow> bool option" where
  "comparison operator a b =
     (case (a, b) of
        (JNum x, JNum y) \<Rightarrow>
          if operator = js ''<'' then Some (js_lt x y) else if operator = js ''<='' then Some (js_le x y)
          else if operator = js ''>'' then Some (js_lt y x) else if operator = js ''>='' then Some (js_le y x)
          else None
      | (JStr x, JStr y) \<Rightarrow>
          if operator = js ''<'' then Some (str_less x y) else if operator = js ''<='' then Some (str_le x y)
          else if operator = js ''>'' then Some (str_less y x) else if operator = js ''>='' then Some (str_le y x)
          else None
      | _ \<Rightarrow> None)"

definition concatenation :: "jstring \<Rightarrow> jsval \<Rightarrow> jsval \<Rightarrow> jstring option" where
  "concatenation operator a b =
     (case (a, b) of (JStr s, JStr t) \<Rightarrow> if operator = js ''+'' then Some (s @ t) else None | _ \<Rightarrow> None)"

definition binary_values ::
  "jstring \<Rightarrow> runtime_value \<Rightarrow> runtime_value \<Rightarrow> nat \<Rightarrow> thrown + runtime_value" where
  "binary_values operator l r pos =
     (if operator = js ''=='' \<or> operator = js ''!='' then equality operator (rv_value l) (rv_value r) pos
      else case concatenation operator (rv_value l) (rv_value r) of
        Some s \<Rightarrow> Inr \<lparr>rv_value = JStr s, rv_integer = None\<rparr>
      | None \<Rightarrow>
      case comparison operator (rv_value l) (rv_value r) of
        Some b \<Rightarrow> Inr \<lparr>rv_value = JBool b, rv_integer = None\<rparr>
      | None \<Rightarrow>
      case (rv_value l, rv_value r) of
        (JNum x, JNum y) \<Rightarrow>
          arithmetic operator x y (rv_integer l = Some True \<and> rv_integer r = Some True) pos
      | _ \<Rightarrow> Inl (billing_error Code_type operator (Some pos)))"

definition binary ::
  "evaluator \<Rightarrow> jstring \<Rightarrow> expr \<Rightarrow> expr \<Rightarrow> nat \<Rightarrow> runtime_state \<Rightarrow> runtime_value outcome" where
  "binary ev operator l r pos st =
     (if operator = js ''&&''
      then bnd (boolean ev l st) (\<lambda>(a, st1).
             if a then bnd (boolean ev r st1) (\<lambda>(b, st2). ret (JBool b) None st2)
             else ret (JBool False) None st1)
      else if operator = js ''||''
      then bnd (boolean ev l st) (\<lambda>(a, st1).
             if a then ret (JBool True) None st1
             else bnd (boolean ev r st1) (\<lambda>(b, st2). ret (JBool b) None st2))
      else bnd (ev l st) (\<lambda>(left0, st1).
           bnd (ev r st1) (\<lambda>(right0, st2).
           bnd (binary_values operator left0 right0 pos) (\<lambda>v. Inr (v, st2)))))"

text \<open>Calls.  \<open>with_arg args i f\<close> is \<open>f\<close> applied to \<open>args[i]\<close>.\<close>

definition with_arg :: "expr list \<Rightarrow> nat \<Rightarrow> (expr \<Rightarrow> 'a outcome) \<Rightarrow> 'a outcome" where
  "with_arg args i f = (if i < length args then f (args ! i) else Inl missing_argument)"

abbreviation is_name :: "jstring \<Rightarrow> string \<Rightarrow> bool" where
  "is_name name s \<equiv> name = js s"

definition zone_time ::
  "host \<Rightarrow> date \<Rightarrow> (jstring \<times> time_values) list \<Rightarrow> jstring
   \<Rightarrow> thrown + (time_values \<times> (jstring \<times> time_values) list)" where
  "zone_time h now known zone =
     (case map_of known zone of
        Some values \<Rightarrow> Inr (values, known)
      | None \<Rightarrow> bnd (timeInBillingZone h now zone) (\<lambda>values. Inr (values, (zone, values) # known)))"

definition call_fixed :: "evaluator \<Rightarrow> expr list \<Rightarrow> runtime_state \<Rightarrow> runtime_value outcome" where
  "call_fixed ev args st =
     bnd (with_arg args 0 (\<lambda>x. numeric ev x st)) (\<lambda>((amount, i), st1).
       ret (JNum (js_mul amount (Fin 1000000))) None
         (st1\<lparr>rt_unit := Unit_request, rt_fixed := Some amount\<rparr>))"

definition call_tier :: "evaluator \<Rightarrow> expr list \<Rightarrow> runtime_state \<Rightarrow> runtime_value outcome" where
  "call_tier ev args st =
     bnd (with_arg args 0 (\<lambda>x. string_value ev x st)) (\<lambda>(name, st1).
     bnd (with_arg args 1 (\<lambda>x. numeric ev x st1)) (\<lambda>((val, i), st2).
       ret (JNum val) None (st2\<lparr>rt_tier := name\<rparr>)))"

definition call_param ::
  "evaluator \<Rightarrow> runtime_env \<Rightarrow> expr list \<Rightarrow> nat \<Rightarrow> runtime_state \<Rightarrow> runtime_value outcome" where
  "call_param ev env args pos st =
     bnd (with_arg args 0 (\<lambda>x. string_value ev x st)) (\<lambda>(path, st1).
       case ctx_request (env_context env) of
         None \<Rightarrow> Inl (billing_error Code_missing_context (js ''request body'') (Some pos))
       | Some r \<Rightarrow> bnd (readRequestPath (req_body r) path) (\<lambda>v. ret v None st1))"

definition call_header ::
  "evaluator \<Rightarrow> runtime_env \<Rightarrow> expr list \<Rightarrow> nat \<Rightarrow> runtime_state \<Rightarrow> runtime_value outcome" where
  "call_header ev env args pos st =
     bnd (with_arg args 0 (\<lambda>x. string_value ev x st)) (\<lambda>(raw, st1).
       case ctx_request (env_context env) of
         None \<Rightarrow> Inl (billing_error Code_missing_context (js ''request headers'') (Some pos))
       | Some r \<Rightarrow>
           ret (JStr (case map_of (env_headers env) (host_lower (env_host env) (trim raw)) of
                        Some v \<Rightarrow> v | None \<Rightarrow> [])) None st1)"

definition call_u ::
  "evaluator \<Rightarrow> runtime_env \<Rightarrow> expr list \<Rightarrow> nat \<Rightarrow> runtime_state \<Rightarrow> runtime_value outcome" where
  "call_u ev env args pos st =
     bnd (with_arg args 0 (\<lambda>x. string_value ev x st)) (\<lambda>(name, st1).
       case ctx_usage (env_context env) of
         None \<Rightarrow> Inl (billing_error Code_missing_context (js ''task usage'') (Some pos))
       | Some usage \<Rightarrow> ret (case map_of usage name of Some v \<Rightarrow> v | None \<Rightarrow> JNull) None st1)"

definition call_has :: "evaluator \<Rightarrow> expr list \<Rightarrow> runtime_state \<Rightarrow> runtime_value outcome" where
  "call_has ev args st =
     bnd (with_arg args 0 (\<lambda>x. ev x st)) (\<lambda>(source, st1).
     bnd (with_arg args 1 (\<lambda>x. string_value ev x st1)) (\<lambda>(substring, st2).
       if is_nullish (rv_value source) \<or> substring = [] then ret (JBool False) None st2
       else bnd (billingString 0 (rv_value source)) (\<lambda>t. ret (JBool (includes_str t substring)) None st2)))"

definition call_num2 ::
  "evaluator \<Rightarrow> (jsnum \<Rightarrow> jsnum \<Rightarrow> jsnum) \<Rightarrow> expr list \<Rightarrow> runtime_state \<Rightarrow> runtime_value outcome" where
  "call_num2 ev f args st =
     bnd (with_arg args 0 (\<lambda>x. numeric ev x st)) (\<lambda>((a, i), st1).
     bnd (with_arg args 1 (\<lambda>x. numeric ev x st1)) (\<lambda>((b, j), st2). ret (JNum (f a b)) None st2))"

definition call_num1 ::
  "evaluator \<Rightarrow> (jsnum \<Rightarrow> jsnum) \<Rightarrow> expr list \<Rightarrow> runtime_state \<Rightarrow> runtime_value outcome" where
  "call_num1 ev f args st =
     bnd (with_arg args 0 (\<lambda>x. numeric ev x st)) (\<lambda>((a, i), st1). ret (JNum (f a)) None st1)"

definition call_time ::
  "evaluator \<Rightarrow> runtime_env \<Rightarrow> jstring \<Rightarrow> expr list \<Rightarrow> runtime_state \<Rightarrow> runtime_value outcome" where
  "call_time ev env name args st =
     (if name \<notin> set TIME_FUNCTIONS then Inl (billing_error Code_unsupported name None)
      else bnd (with_arg args 0 (\<lambda>x. string_value ev x st)) (\<lambda>(zone, st1).
           bnd (zone_time (env_host env) (env_now env) (rt_times st1) (trim zone)) (\<lambda>(values, known).
             ret (JNum (time_field name values)) (Some True) (st1\<lparr>rt_times := known\<rparr>))))"

definition call ::
  "evaluator \<Rightarrow> runtime_env \<Rightarrow> jstring \<Rightarrow> expr list \<Rightarrow> nat \<Rightarrow> runtime_state \<Rightarrow> runtime_value outcome" where
  "call ev env name args pos st =
     (if is_name name ''fixed'' then call_fixed ev args st
      else if is_name name ''tier'' then call_tier ev args st
      else if is_name name ''param'' then call_param ev env args pos st
      else if is_name name ''header'' then call_header ev env args pos st
      else if is_name name ''u'' then call_u ev env args pos st
      else if is_name name ''has'' then call_has ev args st
      else if is_name name ''min'' then call_num2 ev js_min args st
      else if is_name name ''max'' then call_num2 ev js_max args st
      else if is_name name ''abs'' then call_num1 ev js_abs args st
      else if is_name name ''floor'' then call_num1 ev js_floor args st
      else if is_name name ''ceil'' then call_num1 ev js_ceil args st
      else call_time ev env name args st)"

fun literal_value :: "lit_value \<Rightarrow> jsval" where
  "literal_value LNull = JNull"
| "literal_value (LBool b) = JBool b"
| "literal_value (LNum x) = JNum x"
| "literal_value (LStr s) = JStr s"

definition variable_value :: "simulation_context \<Rightarrow> jstring \<Rightarrow> nat \<Rightarrow> thrown + jsnum" where
  "variable_value ctx name pos =
     (if name = js ''image_count''
      then let val = (case ctx_image_count ctx of Some x \<Rightarrow> x | None \<Rightarrow> Fin 1)
           in if \<not> is_integer val \<or> js_lt val (Fin 1) \<or> js_lt (Fin 128) val
              then Inl (billing_error Code_number (js ''image_count must be between 1 and 128'') (Some pos))
              else Inr val
      else case (case ctx_tokens ctx of Some ts \<Rightarrow> map_of ts name | None \<Rightarrow> None) of
             None \<Rightarrow> Inl (billing_error Code_missing_context name (Some pos))
           | Some JUndef \<Rightarrow> Inl (billing_error Code_missing_context name (Some pos))
           | Some (JNum x) \<Rightarrow>
               if js_lt x (Fin 0) then Inl (billing_error Code_number name (Some pos)) else Inr x
           | Some _ \<Rightarrow> Inl (billing_error Code_number name (Some pos)))"

definition mark_rule :: "request_rule list \<Rightarrow> expr \<Rightarrow> bool \<Rightarrow> runtime_state \<Rightarrow> runtime_state" where
  "mark_rule rules node condition st =
     (case find_index (\<lambda>rule. rr_node rule = node) rules of
        Some i \<Rightarrow>
          if condition
          then st\<lparr>rt_rules := (rt_rules st)[i := (rt_rules st ! i)\<lparr>br_matched := True\<rparr>]\<rparr>
          else st
      | None \<Rightarrow> st)"

definition evaluateNode ::
  "evaluator \<Rightarrow> runtime_env \<Rightarrow> expr \<Rightarrow> runtime_state \<Rightarrow> runtime_value outcome" where
  "evaluateNode ev env node st =
     (case node of
        Literal v i a b \<Rightarrow> ret (literal_value v) i st
      | Variable x a b \<Rightarrow> bnd (variable_value (env_context env) x a) (\<lambda>v. ret (JNum v) None st)
      | Conditional c x y a b \<Rightarrow>
          bnd (boolean ev c st) (\<lambda>(condition, st1).
            ev (if condition then x else y) (mark_rule (env_rules env) node condition st1))
      | Unary operator x a b \<Rightarrow>
          if operator = js ''!''
          then bnd (boolean ev x st) (\<lambda>(v, st1). ret (JBool (\<not> v)) None st1)
          else bnd (numeric ev x st) (\<lambda>((v, i), st1).
                 ret (JNum (if operator = js ''-'' then js_neg v else v)) i st1)
      | Binary operator l r a b \<Rightarrow> binary ev operator l r a st
      | Call name args a b \<Rightarrow> call ev env name args a st)"

definition checked_value :: "nat \<Rightarrow> runtime_value \<times> runtime_state \<Rightarrow> runtime_value outcome" where
  "checked_value pos r =
     (case rv_value (fst r) of
        JNum x \<Rightarrow>
          if \<not> is_finite x
          then Inl (billing_error Code_number (js ''non-finite result'') (Some pos))
          else if rv_integer (fst r) = Some True \<and> \<not> is_safe_integer x
          then Inl (billing_error Code_unsupported (js ''integer precision'') (Some pos))
          else Inr r
      | _ \<Rightarrow> Inr r)"

lemma with_arg_cong:
  "(\<And>x. x \<in> set args \<Longrightarrow> f x = g x) \<Longrightarrow> with_arg args i f = with_arg args i g"
  by (simp add: with_arg_def)

lemma method_congs:
  "(\<And>s. ev x s = ev' x s) \<Longrightarrow> boolean ev x st = boolean ev' x st"
  "(\<And>s. ev x s = ev' x s) \<Longrightarrow> numeric ev x st = numeric ev' x st"
  "(\<And>s. ev x s = ev' x s) \<Longrightarrow> string_value ev x st = string_value ev' x st"
  by (simp_all add: boolean_def numeric_def string_value_def)

lemma call_cong:
  assumes "\<And>x s. x \<in> set args \<Longrightarrow> ev x s = ev' x s"
  shows "call ev env name args pos st = call ev' env name args pos st"
proof -
  have "with_arg args i (\<lambda>x. numeric ev x s) = with_arg args i (\<lambda>x. numeric ev' x s)"
    "with_arg args i (\<lambda>x. string_value ev x s) = with_arg args i (\<lambda>x. string_value ev' x s)"
    "with_arg args i (\<lambda>x. ev x s) = with_arg args i (\<lambda>x. ev' x s)" for i s
    using assms by (auto intro!: with_arg_cong method_congs)
  then show ?thesis
    by (simp add: call_def call_fixed_def call_tier_def call_param_def call_header_def call_u_def
        call_has_def call_num1_def call_num2_def call_time_def)
qed

lemma evaluateNode_cong [fundef_cong]:
  assumes "env = env'" and "node = node'" and "st = st'"
    and "\<And>x s. x \<in> set (children node') \<Longrightarrow> ev x s = ev' x s"
  shows "evaluateNode ev env node st = evaluateNode ev' env' node' st'"
proof (cases node')
  case (Call f es a b)
  with assms show ?thesis by (simp add: evaluateNode_def call_cong [of es ev ev'])
next
  case (Conditional c x y a b)
  with assms have "boolean ev c = boolean ev' c" "ev x = ev' x" "ev y = ev' y"
    by (auto intro!: ext method_congs)
  with assms Conditional show ?thesis by (simp add: evaluateNode_def)
next
  case (Binary f x y a b)
  with assms have "boolean ev x = boolean ev' x" "boolean ev y = boolean ev' y" "ev x = ev' x" "ev y = ev' y"
    by (auto intro!: ext method_congs)
  with assms Binary show ?thesis by (simp add: evaluateNode_def binary_def cong del: if_weak_cong)
next
  case (Unary f x a b)
  with assms have "boolean ev x = boolean ev' x" "numeric ev x = numeric ev' x"
    by (auto intro!: ext method_congs)
  with assms Unary show ?thesis by (simp add: evaluateNode_def)
qed (use assms in \<open>auto simp: evaluateNode_def\<close>)

function evaluate :: "runtime_env \<Rightarrow> nat \<Rightarrow> expr \<Rightarrow> runtime_state \<Rightarrow> runtime_value outcome" where
  "evaluate env depth node st =
     (if 256 < depth + 1 then Inl (limit_error ''evaluation depth'')
      else bnd (evaluateNode (evaluate env (depth + 1)) env node st) (checked_value (e_start node)))"
  by pat_completeness auto
termination
  by (relation "measure (\<lambda>(env, d, node, st). size node)") (auto dest: size_children)

declare evaluate.simps [simp del]

section \<open>The entry points\<close>

definition evaluateBillingCondition ::
  "host \<Rightarrow> compiled_expression \<Rightarrow> expr \<Rightarrow> date \<Rightarrow> bool option" where
  "evaluateBillingCondition h compiled node now =
     (case bnd (new_runtime h (cb_rules compiled) \<lparr>ctx_image_count = None, ctx_tokens = None,
                  ctx_request = None, ctx_usage = None, ctx_now = Some now\<rparr>)
             (\<lambda>(env, st). evaluate env 0 node st) of
        Inr (r, st) \<Rightarrow> (case rv_value r of JBool b \<Rightarrow> Some b | _ \<Rightarrow> None)
      | Inl error \<Rightarrow> None)"

record evaluation_success =
  es_cost :: jsnum
  es_unit :: billing_unit
  es_fixed :: "jsnum option"
  es_image_count :: "jsnum option"
  es_tier :: jstring
  es_rules :: "billing_request_rule list"

datatype evaluation_result = Eval_failure expression_failure | Eval_success evaluation_success

definition token_ok :: "jstring \<times> jsval \<Rightarrow> unit \<Rightarrow> thrown + unit" where
  "token_ok entry u =
     (case snd entry of
        JNum x \<Rightarrow> if \<not> is_finite x \<or> js_lt x (Fin 0) then Inl (billing_error Code_number (fst entry) None)
                  else Inr ()
      | _ \<Rightarrow> Inl (billing_error Code_number (fst entry) None))"

definition billing_result :: "runtime_value \<Rightarrow> thrown + jsnum" where
  "billing_result r =
     (case rv_value r of
        JNum x \<Rightarrow> if \<not> is_finite x \<or> js_lt x (Fin 0) then Inl (billing_error Code_number (js ''billing result'') None)
                  else Inr x
      | _ \<Rightarrow> Inl (billing_error Code_number (js ''billing result'') None))"

definition evaluate_try ::
  "host \<Rightarrow> compiled_expression \<Rightarrow> simulation_context \<Rightarrow> thrown + evaluation_success" where
  "evaluate_try h compiled ctx =
     bnd (fold_m token_ok (case ctx_tokens ctx of Some ts \<Rightarrow> ts | None \<Rightarrow> []) ()) (\<lambda>_.
     bnd (new_runtime h (cb_rules compiled) ctx) (\<lambda>(env, st).
     bnd (evaluate env 0 (cb_ast compiled) st) (\<lambda>(r, st').
     bnd (billing_result r) (\<lambda>cost.
     Inr \<lparr>es_cost = cost, es_unit = rt_unit st', es_fixed = rt_fixed st',
          es_image_count = (if js ''image_count'' \<in> cb_variables compiled
                            then Some (case ctx_image_count ctx of Some n \<Rightarrow> n | None \<Rightarrow> Fin 1) else None),
          es_tier = rt_tier st', es_rules = rt_rules st'\<rparr>))))"

definition evaluate_compiled ::
  "host \<Rightarrow> compiled_expression \<Rightarrow> simulation_context \<Rightarrow> evaluation_result" where
  "evaluate_compiled h compiled ctx =
     (case evaluate_try h compiled ctx of
        Inr s \<Rightarrow> Eval_success s
      | Inl error \<Rightarrow> Eval_failure (expressionFailure error))"

definition evaluateBillingExpression ::
  "host \<Rightarrow> compiled_cache \<Rightarrow> jstring \<Rightarrow> simulation_context \<Rightarrow> evaluation_result \<times> compiled_cache" where
  "evaluateBillingExpression h cache source ctx =
     (case compileBillingExpression cache source of (compiled, cache') \<Rightarrow>
        (case compiled of
           Failure f \<Rightarrow> Eval_failure f
         | Ready c \<Rightarrow> evaluate_compiled h c ctx, cache'))"

end
