(* ===== verification/Runtime_Correct.thy ===== *)
theory Runtime_Correct
  imports Expr_Runtime
begin

text \<open>
  Correctness of the evaluator.

  \<^item> \<open>evaluate_by_node\<close> is the induction every proof uses: a property that holds for a node
    when it holds for the evaluations of its children.
  \<^item> \<open>state_relation\<close> is the interface between the evaluator and the fields it writes; its
    instances show that the request rules keep their texts and multipliers and only become
    matched, and that the table of zone times stays right.
  \<^item> The main results: evaluation never crashes, returns a value of the static type, is exact on
    integers, and does not depend on what was evaluated before.
\<close>

lemma evaluate_by_node:
  assumes step: "\<And>ev node st. (\<And>x s. x \<in> set (children node) \<Longrightarrow> P x s (ev x s)) \<Longrightarrow>
      P node st (bnd (evaluateNode ev env node st) (checked_value (e_start node)))"
    and limit: "\<And>node st. P node st (Inl (limit_error ''evaluation depth''))"
  shows "P node st (evaluate env d node st)"
proof (induction "size node" arbitrary: node d st rule: less_induct)
  case less
  have "P node st (bnd (evaluateNode (evaluate env (d + 1)) env node st) (checked_value (e_start node)))"
    by (rule step) (use less size_children in blast)
  with limit show ?case by (simp add: evaluate.simps [of env d node])
qed

section \<open>Evaluation never crashes\<close>

lemma with_arg_diagnosed: "i < length args \<Longrightarrow> (\<And>x. x \<in> set args \<Longrightarrow> diagnosed (f x)) \<Longrightarrow> diagnosed (with_arg args i f)"
  by (simp add: with_arg_def)

lemma method_diagnosed:
  assumes "\<And>s. diagnosed (ev x s)"
  shows "diagnosed (boolean ev x st)" "diagnosed (numeric ev x st)" "diagnosed (string_value ev x st)"
  using assms by (auto simp: boolean_def numeric_def string_value_def intro!: diagnosed_bnd split: jsval.splits)

lemma split_path_diagnosed: "diagnosed (split_path path rest part parts)"
  by (induction path rest part parts rule: split_path.induct) (auto split: list.splits)

lemma walk_path_diagnosed: "diagnosed (walk_path path v keys)"
  by (induction path v keys rule: walk_path.induct) (auto split: jsval.splits option.splits)

lemma readRequestPath_diagnosed: "diagnosed (readRequestPath body path)"
  by (auto simp: readRequestPath_def Let_def split_path_diagnosed walk_path_diagnosed intro!: diagnosed_bnd)

lemma timeInBillingZone_diagnosed: "diagnosed (timeInBillingZone h now zone)"
  by (auto simp: timeInBillingZone_def Let_def split: option.splits)

lemma map_m_diagnosed: "(\<And>x. x \<in> set xs \<Longrightarrow> diagnosed (f x)) \<Longrightarrow> diagnosed (map_m f xs)"
  unfolding map_m_def by (auto intro!: diagnosed_fold diagnosed_bnd)

lemma billingString_diagnosed: "diagnosed (billingString d v)"
proof (induction d v rule: billingString.induct)
  case (1 d v)
  then show ?case
    by (subst billingString.simps)
      (auto simp: number_text_def Let_def split: jsval.splits prod.splits intro!: diagnosed_bnd map_m_diagnosed)
qed

lemma binary_values_diagnosed: "diagnosed (binary_values f l r pos)"
  by (auto simp: binary_values_def equality_def arithmetic_def split: option.splits jsval.splits)

lemma variable_value_diagnosed: "diagnosed (variable_value ctx x pos)"
  by (auto simp: variable_value_def Let_def split: option.splits jsval.splits)

lemma call_diagnosed:
  assumes "map_of BILLING_FUNCTIONS f = Some (length args)" and "\<And>x s. x \<in> set args \<Longrightarrow> diagnosed (ev x s)"
  shows "diagnosed (call ev env f args pos st)"
proof -
  have one: "0 < length args" using arity_bounds(1) [OF assms(1)] .
  have two: "1 < length args" if "f \<in> {js ''tier'', js ''has'', js ''min'', js ''max''}"
    using that assms(1) by (auto simp: BILLING_FUNCTIONS_def)
  have m: "diagnosed (with_arg args i (\<lambda>x. numeric ev x s))"
    "diagnosed (with_arg args i (\<lambda>x. string_value ev x s))"
    "diagnosed (with_arg args i (\<lambda>x. ev x s))" if "i < length args" for i s
    using that assms(2) by (auto intro!: with_arg_diagnosed method_diagnosed)
  have t: "diagnosed (zone_time h now known zone)" for h now known zone
    by (auto simp: zone_time_def timeInBillingZone_diagnosed split: option.splits intro!: diagnosed_bnd)
  show ?thesis
    using one two
    by (auto simp: call_def call_fixed_def call_tier_def call_param_def call_header_def call_u_def
        call_has_def call_num1_def call_num2_def call_time_def m t readRequestPath_diagnosed
        billingString_diagnosed split: option.splits intro!: diagnosed_bnd)
qed

lemma evaluateNode_diagnosed:
  assumes "ast_ok node" and "\<And>x s. x \<in> set (children node) \<Longrightarrow> diagnosed (ev x s)"
  shows "diagnosed (evaluateNode ev env node st)"
proof (cases node)
  case (Call f es a b)
  with assms show ?thesis by (auto simp: evaluateNode_def intro!: call_diagnosed)
qed (use assms in \<open>auto simp: evaluateNode_def binary_def variable_value_diagnosed binary_values_diagnosed
       intro!: diagnosed_bnd method_diagnosed\<close>)

lemma evaluate_diagnosed: "ast_ok node \<Longrightarrow> diagnosed (evaluate env d node st)"
proof (rule evaluate_by_node [of "\<lambda>node st r. ast_ok node \<longrightarrow> diagnosed r", THEN mp], intro impI)
  fix ev :: evaluator and node st
  assume IH: "\<And>x s. x \<in> set (children node) \<Longrightarrow> ast_ok x \<longrightarrow> diagnosed (ev x s)" and ok: "ast_ok node"
  have "ast_ok x" if "x \<in> set (children node)" for x
    using ok that by (cases node) (auto simp: list_all_iff)
  with IH ok show "diagnosed (bnd (evaluateNode ev env node st) (checked_value (e_start node)))"
    by (auto simp: checked_value_def intro!: diagnosed_bnd evaluateNode_diagnosed split: jsval.splits)
qed auto

section \<open>What an evaluation does to the state\<close>

text \<open>
  A relation between states that holds across each single write of the evaluator holds across a
  whole evaluation.
\<close>

locale state_relation =
  fixes env :: runtime_env and R :: "runtime_state \<Rightarrow> runtime_state \<Rightarrow> bool"
  assumes R_refl: "R s s"
    and R_trans: "R s t \<Longrightarrow> R t u \<Longrightarrow> R s u"
    and R_fixed: "R s (s\<lparr>rt_unit := Unit_request, rt_fixed := Some a\<rparr>)"
    and R_tier: "R s (s\<lparr>rt_tier := name\<rparr>)"
    and R_mark: "R s (mark_rule (env_rules env) node b s)"
    and R_times: "zone_time (env_host env) (env_now env) (rt_times s) zone = Inr (v, known) \<Longrightarrow>
                  R s (s\<lparr>rt_times := known\<rparr>)"
begin

definition steps :: "expr \<Rightarrow> runtime_state \<Rightarrow> 'a outcome \<Rightarrow> bool" where
  "steps x s r \<longleftrightarrow> (\<forall>v s'. r = Inr (v, s') \<longrightarrow> R s s')"

lemma steps_methods:
  assumes "\<And>s. steps x s (ev x s)"
  shows "boolean ev x st = Inr (v, st') \<Longrightarrow> R st st'"
    and "numeric ev x st = Inr (w, st') \<Longrightarrow> R st st'"
    and "string_value ev x st = Inr (u, st') \<Longrightarrow> R st st'"
proof -
  have r: "R st s1" if "ev x st = Inr (q, s1)" for q s1 using assms [of st] that by (simp add: steps_def)
  show "boolean ev x st = Inr (v, st') \<Longrightarrow> R st st'"
    by (auto simp: boolean_def split: jsval.splits intro: r)
  show "numeric ev x st = Inr (w, st') \<Longrightarrow> R st st'"
    by (auto simp: numeric_def split: jsval.splits intro: r)
  show "string_value ev x st = Inr (u, st') \<Longrightarrow> R st st'"
    by (auto simp: string_value_def split: jsval.splits intro: r)
qed

lemma steps_with_arg:
  assumes "\<And>x s. x \<in> set args \<Longrightarrow> steps x s (ev x s)"
  shows "with_arg args i (\<lambda>x. numeric ev x s) = Inr (w, s') \<Longrightarrow> R s s'"
    and "with_arg args i (\<lambda>x. string_value ev x s) = Inr (u, s') \<Longrightarrow> R s s'"
    and "with_arg args i (\<lambda>x. ev x s) = Inr (v, s') \<Longrightarrow> R s s'"
proof -
  have st: "steps (args ! i) s1 (ev (args ! i) s1)" if "i < length args" for s1
    using assms that by simp
  show "with_arg args i (\<lambda>x. numeric ev x s) = Inr (w, s') \<Longrightarrow> R s s'"
    by (auto simp: with_arg_def split: if_splits intro: steps_methods(2) [of "args ! i" ev, OF st])
  show "with_arg args i (\<lambda>x. string_value ev x s) = Inr (u, s') \<Longrightarrow> R s s'"
    by (auto simp: with_arg_def split: if_splits intro: steps_methods(3) [of "args ! i" ev, OF st])
  show "with_arg args i (\<lambda>x. ev x s) = Inr (v, s') \<Longrightarrow> R s s'"
    using st [of s] by (auto simp: with_arg_def steps_def split: if_splits)
qed

lemma steps_call:
  assumes "\<And>x s. x \<in> set args \<Longrightarrow> steps x s (ev x s)"
    and run: "call ev env f args pos st = Inr (v, st')"
  shows "R st st'"
proof -
  have num: "R s s'" if "with_arg args i (\<lambda>x. numeric ev x s) = Inr (w, s')" for i s w s'
    using steps_with_arg(1) [OF assms(1) that] .
  have str: "R s s'" if "with_arg args i (\<lambda>x. string_value ev x s) = Inr (w, s')" for i s w s'
    using steps_with_arg(2) [OF assms(1) that] .
  have any: "R s s'" if "with_arg args i (\<lambda>x. ev x s) = Inr (w, s')" for i s w s'
    using steps_with_arg(3) [OF assms(1) that] .
  have "R st st'" if "call_fixed ev args st = Inr (v, st')"
  proof -
    from that obtain w s1 a where "with_arg args 0 (\<lambda>x. numeric ev x st) = Inr (w, s1)"
      "st' = s1\<lparr>rt_unit := Unit_request, rt_fixed := Some a\<rparr>" by (auto simp: call_fixed_def)
    then show ?thesis using R_trans [OF num R_fixed] by simp
  qed
  moreover have "R st st'" if "call_tier ev args st = Inr (v, st')"
  proof -
    from that obtain n s1 w s2 where "with_arg args 0 (\<lambda>x. string_value ev x st) = Inr (n, s1)"
      "with_arg args 1 (\<lambda>x. numeric ev x s1) = Inr (w, s2)" "st' = s2\<lparr>rt_tier := n\<rparr>"
      by (auto simp: call_tier_def)
    then show ?thesis using R_trans [OF R_trans [OF str num] R_tier] by simp
  qed
  moreover have "R st st'" if "call_param ev env args pos st = Inr (v, st')"
    using that str by (auto simp: call_param_def split: option.splits)
  moreover have "R st st'" if "call_header ev env args pos st = Inr (v, st')"
    using that str by (auto simp: call_header_def split: option.splits)
  moreover have "R st st'" if "call_u ev env args pos st = Inr (v, st')"
    using that str by (auto simp: call_u_def split: option.splits)
  moreover have "R st st'" if "call_has ev args st = Inr (v, st')"
  proof -
    from that obtain w s1 n where "with_arg args 0 (\<lambda>x. ev x st) = Inr (w, s1)"
      "with_arg args 1 (\<lambda>x. string_value ev x s1) = Inr (n, st')"
      by (auto simp: call_has_def split: if_splits)
    then show ?thesis by (rule R_trans [OF any str])
  qed
  moreover have "R st st'" if "call_num2 ev g args st = Inr (v, st')" for g
  proof -
    from that obtain w s1 u where "with_arg args 0 (\<lambda>x. numeric ev x st) = Inr (w, s1)"
      "with_arg args 1 (\<lambda>x. numeric ev x s1) = Inr (u, st')"
      by (auto simp: call_num2_def)
    then show ?thesis by (rule R_trans [OF num num])
  qed
  moreover have "R st st'" if "call_num1 ev g args st = Inr (v, st')" for g
    using that num by (auto simp: call_num1_def)
  moreover have "R st st'" if "call_time ev env f args st = Inr (v, st')"
  proof -
    from that obtain z s1 w known where "with_arg args 0 (\<lambda>x. string_value ev x st) = Inr (z, s1)"
      "zone_time (env_host env) (env_now env) (rt_times s1) (trim z) = Inr (w, known)"
      "st' = s1\<lparr>rt_times := known\<rparr>"
      by (auto simp: call_time_def split: if_splits)
    then show ?thesis using R_trans [OF str R_times] by simp
  qed
  ultimately show ?thesis
    using run by (simp add: call_def split: if_splits)
qed

lemma steps_binary:
  assumes "\<And>s. steps x s (ev x s)" "\<And>s. steps y s (ev y s)" and "binary ev f x y pos st = Inr (v, st')"
  shows "R st st'"
proof -
  note x = steps_methods(1) [of x ev, OF assms(1)] and y = steps_methods(1) [of y ev, OF assms(2)]
  show ?thesis
  proof (cases "f = js ''&&'' \<or> f = js ''||''")
    case True
    with assms(3) obtain a s1 where a: "boolean ev x st = Inr (a, s1)"
      and "st' = s1 \<or> (\<exists>b. boolean ev y s1 = Inr (b, st'))"
      by (auto simp: binary_def split: if_splits)
    then show ?thesis using x [OF a] R_trans [OF x [OF a] y] by blast
  next
    case False
    with assms(3) obtain l s1 r s2 where "ev x st = Inr (l, s1)" "ev y s1 = Inr (r, s2)" "st' = s2"
      by (auto simp: binary_def)
    with assms(1,2) have "R st s1" "R s1 st'" by (auto simp: steps_def)
    then show ?thesis by (rule R_trans)
  qed
qed

lemma evaluate_related: "evaluate env d node st = Inr (v, st') \<Longrightarrow> R st st'"
proof -
  have "steps node st (evaluate env d node st)"
  proof (rule evaluate_by_node)
    fix ev :: evaluator and node st
    assume IH: "\<And>x s. x \<in> set (children node) \<Longrightarrow> steps x s (ev x s)"
    have "R st s'" if run: "evaluateNode ev env node st = Inr (v, s')" for v s'
    proof (cases node)
      case (Call f es a b)
      with IH run show ?thesis by (auto simp: evaluateNode_def intro: steps_call)
    next
      case (Binary f x y a b)
      with IH run show ?thesis by (auto simp: evaluateNode_def intro: steps_binary [of x ev y])
    next
      case (Unary f x a b)
      with IH run steps_methods(1,2) [of x ev] show ?thesis
        by (auto simp: evaluateNode_def split: if_splits)
    next
      case (Conditional c x y a b)
      with run obtain t s1 where "boolean ev c st = Inr (t, s1)"
        and "ev (if t then x else y) (mark_rule (env_rules env) node t s1) = Inr (v, s')"
        by (auto simp: evaluateNode_def)
      moreover have "R st s1" using steps_methods(1) [of c ev st] IH calculation(1) Conditional by simp
      moreover have "R (mark_rule (env_rules env) node t s1) s'"
        using calculation(2) IH Conditional by (auto simp: steps_def split: if_splits)
      ultimately show ?thesis using R_trans [OF R_trans [OF _ R_mark]] by blast
    qed (use run R_refl in \<open>auto simp: evaluateNode_def\<close>)
    then show "steps node st (bnd (evaluateNode ev env node st) (checked_value (e_start node)))"
      by (auto simp: steps_def checked_value_def split: jsval.splits if_splits)
  qed (simp add: steps_def)
  then show "evaluate env d node st = Inr (v, st') \<Longrightarrow> R st st'" by (simp add: steps_def)
qed

end

text \<open>Request rules keep their text and multiplier; a rule that was matched stays matched.\<close>

definition rules_step :: "billing_request_rule list \<Rightarrow> billing_request_rule list \<Rightarrow> bool" where
  "rules_step rs rs' \<longleftrightarrow>
     list_all2 (\<lambda>r r'. br_cond r' = br_cond r \<and> br_multiplier r' = br_multiplier r
       \<and> (br_matched r \<longrightarrow> br_matched r')) rs rs'"

lemma rules_step_trans: "rules_step rs ss \<Longrightarrow> rules_step ss ts \<Longrightarrow> rules_step rs ts"
  unfolding rules_step_def by (rule list_all2_trans) auto

lemma rules_step_refl: "rules_step rs rs"
  unfolding rules_step_def by (rule list_all2_refl) simp

lemma rules_step_mark: "rules_step rs (rs[i := (rs ! i)\<lparr>br_matched := True\<rparr>])"
  by (cases "i < length rs") (auto simp: rules_step_def list_all2_conv_all_nth nth_list_update list_update_beyond)

interpretation rule_steps: state_relation env "\<lambda>s s'. rules_step (rt_rules s) (rt_rules s')"
  by unfold_locales
    (auto simp: mark_rule_def rules_step_refl rules_step_mark intro: rules_step_trans split: option.splits)

text \<open>Every entry of the table of zone times is the time in that zone.\<close>

definition times_ok :: "host \<Rightarrow> date \<Rightarrow> (jstring \<times> time_values) list \<Rightarrow> bool" where
  "times_ok h now known \<longleftrightarrow> (\<forall>(zone, tv) \<in> set known. timeInBillingZone h now zone = Inr tv)"

interpretation zone_memo: memo_table "zone_time h now" "timeInBillingZone h now" "[]" "times_ok h now"
  by unfold_locales
    (auto simp: times_ok_def zone_time_def bnd_Inl_iff split: option.splits dest!: map_of_SomeD)

interpretation time_steps: state_relation env
  "\<lambda>s s'. times_ok (env_host env) (env_now env) (rt_times s) \<longrightarrow> times_ok (env_host env) (env_now env) (rt_times s')"
  by unfold_locales
    (auto simp: mark_rule_def split: option.splits dest: zone_memo.ask_inv)

section \<open>Evaluation does not depend on what was evaluated before\<close>

text \<open>
  Two outcomes agree when they throw the same error or return the same result in states whose zone
  times are right.  The other fields are written and never read.
\<close>

abbreviation state_ok :: "runtime_env \<Rightarrow> runtime_state \<Rightarrow> bool" where
  "state_ok env s \<equiv> times_ok (env_host env) (env_now env) (rt_times s)"

definition agree :: "runtime_env \<Rightarrow> 'a outcome \<Rightarrow> 'a outcome \<Rightarrow> bool" where
  "agree env r r' \<longleftrightarrow> rel_sum (=) (rel_prod (=) (\<lambda>s s'. state_ok env s \<and> state_ok env s')) r r'"

lemma agree_Inl [simp]: "agree env (Inl e) (Inl e)"
  by (simp add: agree_def)

lemma agree_Inr: "state_ok env s \<Longrightarrow> state_ok env s' \<Longrightarrow> agree env (Inr (v, s)) (Inr (v, s'))"
  by (simp add: agree_def)

lemma agree_bnd:
  assumes "agree env m m'" and "\<And>v s s'. state_ok env s \<Longrightarrow> state_ok env s' \<Longrightarrow> agree env (f (v, s)) (f' (v, s'))"
  shows "agree env (bnd m f) (bnd m' f')"
  using assms by (cases m; cases m') (auto simp: agree_def)

lemma agree_pure: "(\<And>v. agree env (f v) (f' v)) \<Longrightarrow> agree env (bnd m f) (bnd m f')"
  by (cases m) auto

lemma agree_zone:
  assumes "state_ok env s" and "state_ok env s'"
    and "\<And>v k k'. times_ok (env_host env) (env_now env) k \<Longrightarrow> times_ok (env_host env) (env_now env) k' \<Longrightarrow>
      agree env (f (v, k)) (f' (v, k'))"
  shows "agree env (bnd (zone_time (env_host env) (env_now env) (rt_times s) z) f)
    (bnd (zone_time (env_host env) (env_now env) (rt_times s') z) f')"
proof -
  let ?r = "zone_time (env_host env) (env_now env) (rt_times s) z"
  let ?r' = "zone_time (env_host env) (env_now env) (rt_times s') z"
  have eq: "bnd ?r (\<lambda>(v, k). Inr v) = bnd ?r' (\<lambda>(v, k). Inr v)"
    using zone_memo.ask_answers [OF assms(1)] zone_memo.ask_answers [OF assms(2)] by simp
  show ?thesis
  proof (cases ?r)
    case (Inl e)
    with eq show ?thesis by (cases ?r') (auto split: prod.splits)
  next
    case (Inr p)
    then obtain v k where r: "?r = Inr (v, k)" by (cases p) auto
    with eq obtain k' where r': "?r' = Inr (v, k')" by (cases ?r') (auto split: prod.splits)
    show ?thesis
      using assms(3) zone_memo.ask_inv [OF assms(1) r] zone_memo.ask_inv [OF assms(2) r'] r r' by simp
  qed
qed

definition stable :: "runtime_env \<Rightarrow> evaluator \<Rightarrow> expr \<Rightarrow> bool" where
  "stable env ev x \<longleftrightarrow> (\<forall>s s'. state_ok env s \<longrightarrow> state_ok env s' \<longrightarrow> agree env (ev x s) (ev x s'))"

lemma stable_methods:
  assumes "stable env ev x" and "state_ok env s" and "state_ok env s'"
  shows "agree env (boolean ev x s) (boolean ev x s')" "agree env (numeric ev x s) (numeric ev x s')"
    "agree env (string_value ev x s) (string_value ev x s')" "agree env (ev x s) (ev x s')"
  using assms unfolding boolean_def numeric_def string_value_def stable_def
  by (auto intro!: agree_bnd [where m = "ev x s" and m' = "ev x s'"] agree_Inr split: jsval.splits)

lemma stable_args:
  assumes "\<And>x. x \<in> set args \<Longrightarrow> stable env ev x" and "state_ok env s" and "state_ok env s'"
  shows "agree env (with_arg args i (\<lambda>x. numeric ev x s)) (with_arg args i (\<lambda>x. numeric ev x s'))"
    "agree env (with_arg args i (\<lambda>x. string_value ev x s)) (with_arg args i (\<lambda>x. string_value ev x s'))"
    "agree env (with_arg args i (\<lambda>x. ev x s)) (with_arg args i (\<lambda>x. ev x s'))"
  using assms by (auto simp: with_arg_def intro!: stable_methods)

lemma stable_call:
  assumes "\<And>x. x \<in> set args \<Longrightarrow> stable env ev x" and "state_ok env s" and "state_ok env s'"
  shows "agree env (call ev env f args pos s) (call ev env f args pos s')"
proof -
  note arg = stable_args [OF assms(1)]
  note intros = agree_bnd [OF arg(1)] agree_bnd [OF arg(2)] agree_bnd [OF arg(3)] agree_Inr
  show ?thesis
    using assms(2,3)
    by (auto simp: call_def call_fixed_def call_tier_def call_param_def call_header_def call_u_def
        call_has_def call_num1_def call_num2_def call_time_def
        intro!: intros agree_pure agree_zone split: option.splits)
qed

lemma stable_node:
  assumes "\<And>x. x \<in> set (children node) \<Longrightarrow> stable env ev x" and "state_ok env s" and "state_ok env s'"
  shows "agree env (evaluateNode ev env node s) (evaluateNode ev env node s')"
proof (cases node)
  case (Call f es a b)
  with assms show ?thesis by (simp add: evaluateNode_def stable_call)
next
  case (Binary f x y a b)
  note st = stable_methods [of env ev x] stable_methods [of env ev y]
  from Binary assms show ?thesis
    by (auto simp: evaluateNode_def binary_def intro!: agree_bnd [OF st(1)] agree_bnd [OF st(5)]
        agree_bnd [OF st(4)] agree_bnd [OF st(8)] agree_pure agree_Inr)
next
  case (Unary f x a b)
  note st = stable_methods [of env ev x]
  from Unary assms show ?thesis
    by (auto simp: evaluateNode_def intro!: agree_bnd [OF st(1)] agree_bnd [OF st(2)] agree_Inr)
next
  case (Conditional c x y a b)
  have mark: "state_ok env (mark_rule rules n t s)" if "state_ok env s" for rules n t s
    using that by (auto simp: mark_rule_def split: option.splits)
  note st = stable_methods [of env ev c] stable_methods [of env ev x] stable_methods [of env ev y]
  from Conditional assms show ?thesis
    by (auto simp: evaluateNode_def intro!: agree_bnd [OF st(1)] st(8) st(12) mark)
qed (use assms in \<open>auto simp: evaluateNode_def intro!: agree_pure agree_Inr\<close>)

lemma evaluate_stable: "stable env (evaluate env d) node"
proof (induction "size node" arbitrary: node d rule: less_induct)
  case less
  have "agree env (evaluate env d node s) (evaluate env d node s')"
    if "state_ok env s" "state_ok env s'" for s s'
  proof -
    have "agree env (evaluateNode (evaluate env (d + 1)) env node s) (evaluateNode (evaluate env (d + 1)) env node s')"
      using less that size_children by (intro stable_node) blast+
    then show ?thesis
      by (auto simp: evaluate.simps [of env d node] checked_value_def intro!: agree_bnd agree_Inr split: jsval.splits)
  qed
  then show ?case by (simp add: stable_def)
qed

section \<open>The entry point\<close>

text \<open>A host without time zones whose texts have no upper case, and a context, for the examples.\<close>

definition plain_host :: host where
  "plain_host = \<lparr>host_clock = Some 0, host_lower = (\<lambda>s. s), host_zone = (\<lambda>z. None), host_parts = (\<lambda>z t. [])\<rparr>"

definition tokens_context :: "(string \<times> rat) list \<Rightarrow> simulation_context" where
  "tokens_context ts = \<lparr>ctx_image_count = None, ctx_tokens = Some (map (\<lambda>(n, x). (js n, JNum (Fin x))) ts),
     ctx_request = None, ctx_usage = None, ctx_now = Some (Some 0)\<rparr>"

lemma new_runtime_diagnosed: "diagnosed (new_runtime h rules ctx)"
  by (auto simp: new_runtime_def add_header_def Let_def intro!: diagnosed_bnd diagnosed_fold
      split: jsval.splits option.splits)

lemma evaluate_try_diagnosed: "ast_ok (cb_ast c) \<Longrightarrow> diagnosed (evaluate_try h c ctx)"
  by (auto simp: evaluate_try_def token_ok_def billing_result_def new_runtime_diagnosed evaluate_diagnosed
      intro!: diagnosed_bnd diagnosed_fold split: jsval.splits prod.splits option.splits)

lemma new_runtime_env:
  "new_runtime h rules ctx = Inr (env, st) \<Longrightarrow>
     st = initial_state rules \<and> env_host env = h \<and> env_rules env = rules \<and> env_context env = ctx"
  by (auto simp: new_runtime_def)

lemma rules_step_texts:
  "rules_step rs rs' \<Longrightarrow> map br_cond rs' = map br_cond rs \<and> map br_multiplier rs' = map br_multiplier rs"
  by (auto simp: rules_step_def list_all2_conv_all_nth intro!: nth_equalityI)

text \<open>
  C11. Evaluating a compiled expression never crashes: whatever the host, the request, the usage
  record and the token counts are, it succeeds or fails with a diagnostic of the program.
\<close>

theorem evaluate_never_crashes:
  "compile_result source = Ready c \<Longrightarrow>
   (\<exists>s. evaluate_try h c ctx = Inr s) \<or> (\<exists>d. evaluate_try h c ctx = Inl (Billing_error d))"
  using evaluate_try_diagnosed [OF compile_validated(2)]
  by (cases "evaluate_try h c ctx") (fastforce dest: diagnosed_Inl)+

theorem evaluate_never_crashes_witness:
  "\<exists>c s. compile_result (js ''p*2'') = Ready c
     \<and> evaluate_try plain_host c (tokens_context [(''p'', 3)]) = Inr s"
proof -
  let ?r = "compile_try (js ''p*2'')"
  have e: "\<not> isl ?r \<and> \<not> isl (evaluate_try plain_host (projr ?r) (tokens_context [(''p'', 3)]))"
    by code_simp
  then have c: "compile_result (js ''p*2'') = Ready (projr ?r)"
    by (cases ?r) (auto simp: compile_result_def)
  from evaluate_never_crashes [OF c, of plain_host "tokens_context [(''p'', 3)]"] e c show ?thesis by auto
qed

text \<open>
  C12. A successful evaluation reports a finite, non-negative cost and, for every request rule of the
  compiled expression in its order, the text of its condition and its multiplier.
\<close>

theorem evaluate_reports:
  "evaluate_try h c ctx = Inr s \<Longrightarrow>
     is_finite (es_cost s) \<and> \<not> js_lt (es_cost s) (Fin 0)
     \<and> map br_cond (es_rules s) = map rr_cond (cb_rules c)
     \<and> map br_multiplier (es_rules s) = map rr_multiplier (cb_rules c)"
proof -
  assume "evaluate_try h c ctx = Inr s"
  then obtain env st r st' cost where n: "new_runtime h (cb_rules c) ctx = Inr (env, st)"
    and e: "evaluate env 0 (cb_ast c) st = Inr (r, st')" and b: "billing_result r = Inr cost"
    and s: "es_cost s = cost" "es_rules s = rt_rules st'"
    by (auto simp: evaluate_try_def)
  have "rules_step (rt_rules st) (rt_rules st')" by (rule rule_steps.evaluate_related [OF e])
  with n have "rules_step (rt_rules (initial_state (cb_rules c))) (rt_rules st')"
    by (auto dest: new_runtime_env)
  from rules_step_texts [OF this] b s show ?thesis
    by (auto simp: initial_state_def billing_result_def comp_def split: jsval.splits if_splits)
qed

theorem evaluate_reports_witness:
  "\<exists>s. evaluate_try plain_host (projr (compile_try (js ''p*2''))) (tokens_context [(''p'', 3)]) = Inr s
     \<and> is_finite (es_cost s) \<and> es_cost s = Fin 6"
proof -
  let ?r = "evaluate_try plain_host (projr (compile_try (js ''p*2''))) (tokens_context [(''p'', 3)])"
  have "\<not> isl ?r \<and> es_cost (projr ?r) = Fin 6" by code_simp
  then obtain s where s: "?r = Inr s" "es_cost s = Fin 6" by (cases ?r) auto
  from evaluate_reports [OF s(1)] s show ?thesis by auto
qed

text \<open>
  C13. What an expression evaluates to does not depend on what was evaluated before in the same run:
  from any state whose remembered zone times are right, in particular from any state a run reaches,
  it returns the result, or throws the error, that it has in the initial state.
\<close>

theorem evaluate_history_free:
  "(\<forall>(zone, tv) \<in> set (rt_times st). timeInBillingZone (env_host env) (env_now env) zone = Inr tv) \<Longrightarrow>
   map_sum id fst (evaluate env d node st) = map_sum id fst (evaluate env d node (initial_state rules))"
proof -
  assume "\<forall>(zone, tv) \<in> set (rt_times st). timeInBillingZone (env_host env) (env_now env) zone = Inr tv"
  then have "agree env (evaluate env d node st) (evaluate env d node (initial_state rules))"
    using evaluate_stable [of env d node] by (auto simp: stable_def times_ok_def initial_state_def)
  then show ?thesis
    by (cases "evaluate env d node st"; cases "evaluate env d node (initial_state rules)")
      (auto simp: agree_def)
qed

definition plain_env :: runtime_env where
  "plain_env = \<lparr>env_host = plain_host, env_rules = [], env_context = tokens_context [],
     env_now = Some 0, env_headers = []\<rparr>"

theorem evaluate_history_free_witness:
  "map_sum id fst (evaluate plain_env 0 (projr (parse (js ''hour(\"\")'')))
     ((initial_state [])\<lparr>rt_times := [([], utc_values 0)]\<rparr>))
   = Inr \<lparr>rv_value = JNum (Fin 0), rv_integer = Some True\<rparr>"
proof -
  let ?st = "(initial_state [])\<lparr>rt_times := [([], utc_values 0)]\<rparr>"
  have ok: "\<forall>(zone, tv) \<in> set (rt_times ?st). timeInBillingZone (env_host plain_env) (env_now plain_env) zone = Inr tv"
    by code_simp
  have "map_sum id fst (evaluate plain_env 0 (projr (parse (js ''hour(\"\")''))) (initial_state []))
      = Inr \<lparr>rv_value = JNum (Fin 0), rv_integer = Some True\<rparr>"
    by code_simp
  with evaluate_history_free [OF ok] show ?thesis by simp
qed

end
