(* ===== verification/Runtime_Types.thy ===== *)
theory Runtime_Types
  imports Runtime_Correct
begin

text \<open>
  The static checks against the evaluator: the type the checker gives an expression is the type of
  its value (\<open>evaluate_typed\<close>), with the one exception the checker allows, a sum of two values
  that are only known at run time (\<open>dynamic_sum\<close>); and arithmetic on integer literals is exact or
  rejected (\<open>evaluate_exact\<close>).
\<close>

section \<open>Type soundness\<close>

fun conforms :: "expression_type \<Rightarrow> jsval \<Rightarrow> bool" where
  "conforms T_number v = is_number v"
| "conforms T_string v = is_string v"
| "conforms T_boolean v = (case v of JBool b \<Rightarrow> True | _ \<Rightarrow> False)"
| "conforms T_nil v = (v = JNull)"
| "conforms T_dynamic v = True"

lemma conforms_literal [simp]: "conforms (literal_type v) (literal_value v)"
  by (cases v) auto

text \<open>No sum has two operands of unknown type.\<close>

definition sums_static :: "expr \<Rightarrow> bool" where
  "sums_static e \<longleftrightarrow> (\<forall>x y a b. Binary (js ''+'') x y a b \<in> set (subnodes e) \<longrightarrow>
     \<not> (typed x T_dynamic \<and> typed y T_dynamic))"

lemma sums_static_child: "sums_static e \<Longrightarrow> c \<in> set (children e) \<Longrightarrow> sums_static c"
  unfolding sums_static_def by (metis UN_I insertI2 set_subnodes)

definition yields :: "expr \<Rightarrow> runtime_value outcome \<Rightarrow> bool" where
  "yields x r \<longleftrightarrow> (\<forall>t v s. typed x t \<longrightarrow> sums_static x \<longrightarrow> r = Inr (v, s) \<longrightarrow> conforms t (rv_value v))"

lemma equality_boolean: "equality f a b pos = Inr v \<Longrightarrow> conforms T_boolean (rv_value v)"
  by (auto simp: equality_def split: if_splits)

lemma arithmetic_number: "arithmetic f a b i pos = Inr v \<Longrightarrow> conforms T_number (rv_value v)"
  by (auto simp: arithmetic_def split: if_splits)

lemma comparison_result:
  "comparison f a b = Some c \<Longrightarrow> f \<in> set comparison_operators"
  by (auto simp: comparison_def comparison_operators_def split: jsval.splits if_splits)

lemma operator_not_comparison [simp]:
  "js ''=='' \<in> set comparison_operators" "js ''!='' \<in> set comparison_operators"
  by (simp_all add: comparison_operators_def)

lemma comparison_values:
  assumes "binary_values f l r pos = Inr v" and "f \<in> set comparison_operators"
  shows "conforms T_boolean (rv_value v)"
proof -
  have "concatenation f a b = None" for a b
    using assms(2) by (auto simp: concatenation_def comparison_operators_def split: jsval.splits)
  moreover have "arithmetic f x y i pos \<noteq> Inr w" for x y i w
    using assms(2) by (auto simp: arithmetic_def comparison_operators_def)
  ultimately show ?thesis
    using assms(1) by (auto simp: binary_values_def dest: equality_boolean split: if_splits option.splits jsval.splits)
qed

lemma arithmetic_values:
  assumes "binary_values f l r pos = Inr v" and "f \<notin> set comparison_operators"
    and "\<not> (f = js ''+'' \<and> is_string (rv_value l) \<and> is_string (rv_value r))"
  shows "conforms T_number (rv_value v)"
proof -
  have "f \<noteq> js ''=='' \<and> f \<noteq> js ''!=''" using assms(2) by auto
  moreover have "concatenation f (rv_value l) (rv_value r) = None"
    using assms(3) by (auto simp: concatenation_def split: jsval.splits)
  moreover have "comparison f a b = None" for a b
    using comparison_result assms(2) by (cases "comparison f a b") auto
  ultimately show ?thesis
    using assms(1) by (auto simp: binary_values_def dest: arithmetic_number split: jsval.splits)
qed

lemma binary_yields:
  assumes "typed x t" "typed y u" "binary_typed f t u w" and "\<not> (f = js ''+'' \<and> t = T_dynamic \<and> u = T_dynamic)"
    and x: "\<And>s v s'. ev x s = Inr (v, s') \<Longrightarrow> conforms t (rv_value v)"
    and y: "\<And>s v s'. ev y s = Inr (v, s') \<Longrightarrow> conforms u (rv_value v)"
    and run: "binary ev f x y pos st = Inr (v, st')"
  shows "conforms w (rv_value v)"
proof (cases "f \<in> set logical_operators")
  case True
  then have "w = T_boolean" using assms(3) by (simp add: binary_typed_def)
  with run True show ?thesis
    by (auto simp: binary_def logical_operators_def split: if_splits)
next
  case False
  then have "f \<noteq> js ''&&'' \<and> f \<noteq> js ''||''" by (auto simp: logical_operators_def)
  with run obtain l s1 r where l: "ev x st = Inr (l, s1)" and r: "ev y s1 = Inr (r, st')"
    and b: "binary_values f l r pos = Inr v"
    by (auto simp: binary_def)
  show ?thesis
  proof (cases "f \<in> set comparison_operators")
    case True
    then have "w = T_boolean" using assms(3) False by (simp add: binary_typed_def)
    with comparison_values [OF b True] show ?thesis by simp
  next
    case nc: False
    show ?thesis
    proof (cases "f = js ''+'' \<and> t = T_string \<and> u = T_string")
      case True
      then have "w = T_string" using assms(3) False nc by (simp add: binary_typed_def)
      moreover obtain p q where "rv_value l = JStr p" "rv_value r = JStr q"
        using x [OF l] y [OF r] True by (cases "rv_value l"; cases "rv_value r") auto
      ultimately show ?thesis using b True by (auto simp: binary_values_def concatenation_def)
    next
      case ns: False
      then have w: "w = T_number" and t: "accepts T_number t" and u: "accepts T_number u"
        using assms(3) False nc by (auto simp: binary_typed_def)
      have "\<not> (f = js ''+'' \<and> is_string (rv_value l) \<and> is_string (rv_value r))"
        using x [OF l] y [OF r] t u assms(4)
        by (cases "rv_value l"; cases "rv_value r") (auto simp: accepts_def)
      with arithmetic_values [OF b nc] w show ?thesis by simp
    qed
  qed
qed

lemma call_yields:
  assumes "call_typed f ts t" and run: "call ev env f args pos st = Inr (v, st')"
  shows "conforms t (rv_value v)"
proof -
  have time: "conforms T_number (rv_value v)" if "call_time ev env f args st = Inr (v, st')"
    using that by (auto simp: call_time_def split: if_splits)
  show ?thesis
    using assms time
    by (auto simp: call_typed_def call_def call_fixed_def call_tier_def call_header_def
        call_has_def call_num1_def call_num2_def numeric_functions_def TIME_FUNCTIONS_def
        split: if_splits option.splits)
qed

lemma node_yields:
  assumes kids: "\<And>x s. x \<in> set (children node) \<Longrightarrow> yields x (ev x s)"
  shows "yields node (evaluateNode ev env node st)"
  unfolding yields_def
proof (intro allI impI)
  fix t v s
  assume ty: "typed node t" and st: "sums_static node" and run: "evaluateNode ev env node st = Inr (v, s)"
  have k: "conforms u (rv_value w)"
    if "x \<in> set (children node)" "typed x u" "ev x s1 = Inr (w, s2)" for x u s1 w s2
    using kids [OF that(1), of s1] that sums_static_child [OF st] by (auto simp: yields_def)
  show "conforms t (rv_value v)"
  proof (cases node)
    case (Call f es a b)
    with ty run show ?thesis by (auto simp: typed_simps evaluateNode_def intro: call_yields)
  next
    case (Binary f x y a b)
    with ty obtain p q where pq: "typed x p" "typed y q" "binary_typed f p q t"
      by (auto simp: typed_simps)
    moreover have "\<not> (f = js ''+'' \<and> p = T_dynamic \<and> q = T_dynamic)"
      using st pq Binary by (auto simp: sums_static_def)
    moreover have "conforms p (rv_value w)" if "ev x s1 = Inr (w, s2)" for s1 w s2
      using that pq(1) Binary by (intro k [of x p s1 w s2]) auto
    moreover have "conforms q (rv_value w)" if "ev y s1 = Inr (w, s2)" for s1 w s2
      using that pq(2) Binary by (intro k [of y q s1 w s2]) auto
    moreover have "binary ev f x y a st = Inr (v, s)" using run Binary by (simp add: evaluateNode_def)
    ultimately show ?thesis by (rule binary_yields)
  next
    case (Conditional c x y a b)
    with ty obtain p q where pq: "typed x p" "typed y q" "t = (if p = q then p else T_dynamic)"
      by (auto simp: typed_simps)
    from run Conditional obtain z s1 s2 where "ev z s1 = Inr (v, s2)" "z = x \<or> z = y"
      by (auto simp: evaluateNode_def split: if_splits)
    with pq Conditional show ?thesis
      by (cases "p = q") (auto intro: k [of x q s1 v s2] k [of y q s1 v s2])
  qed (use ty run in \<open>auto simp: typed_simps evaluateNode_def split: if_splits\<close>)
qed

lemma evaluate_yields: "yields node (evaluate env d node st)"
proof (rule evaluate_by_node [where P = "\<lambda>x s r. yields x r"])
  fix ev :: evaluator and node st
  assume "\<And>x s. x \<in> set (children node) \<Longrightarrow> yields x (ev x s)"
  then have "yields node (evaluateNode ev env node st)" by (rule node_yields)
  then show "yields node (bnd (evaluateNode ev env node st) (checked_value (e_start node)))"
    by (auto simp: yields_def checked_value_def split: jsval.splits if_splits)
qed (simp add: yields_def)

text \<open>
  C14. Types are sound: if the checker gives an expression a type and no sum in it has two operands
  of unknown type, then every value it evaluates to is of that type.
\<close>

theorem evaluate_typed:
  "typed e t \<Longrightarrow> sums_static e \<Longrightarrow> evaluate env d e st = Inr (v, st') \<Longrightarrow> conforms t (rv_value v)"
  using evaluate_yields [of e env d st] by (auto simp: yields_def)

theorem evaluate_typed_witness:
  "\<exists>v st'. evaluate plain_env 0 (Unary (js ''-'') (Literal (LNum (Fin 2)) (Some True) 1 2) 0 2) (initial_state [])
     = Inr (v, st') \<and> conforms T_number (rv_value v)"
proof -
  let ?e = "Unary (js ''-'') (Literal (LNum (Fin 2)) (Some True) 1 2) 0 2"
  have "\<not> isl (evaluate plain_env 0 ?e (initial_state []))" by code_simp
  then obtain v st' where r: "evaluate plain_env 0 ?e (initial_state []) = Inr (v, st')"
    by (cases "evaluate plain_env 0 ?e (initial_state [])") auto
  have t: "typed ?e T_number"
    by (simp add: typed_simps accepts_def)
  have s: "sums_static ?e" by (simp add: sums_static_def)
  from evaluate_typed [OF t s r] r show ?thesis by blast
qed

text \<open>
  The exception is real: the checker takes \<open>param("a") + param("b")\<close> for a number, but when both
  parameters are texts the evaluator joins them.
\<close>

lemma dynamic_sum:
  "\<exists>e env v st'. parse (js ''param(\"a\") + param(\"b\")'') = Inr e \<and> typed e T_number
     \<and> evaluate env 0 e (initial_state []) = Inr (v, st') \<and> rv_value v = JStr (js ''xy'')"
proof -
  let ?src = "js ''param(\"a\") + param(\"b\")''"
  let ?e = "Binary (js ''+'') (Call (js ''param'') [Literal (LStr (js ''a'')) None 6 9] 0 10)
             (Call (js ''param'') [Literal (LStr (js ''b'')) None 19 22] 13 23) 0 23"
  let ?ctx = "(tokens_context [])\<lparr>ctx_request := Some \<lparr>req_body = JObj [(js ''a'', JStr (js ''x'')), (js ''b'', JStr (js ''y''))],
     req_headers = None\<rparr>\<rparr>"
  let ?env = "plain_env\<lparr>env_context := ?ctx\<rparr>"
  have p: "parse ?src = Inr ?e" by code_simp
  have "typed (Call (js ''param'') [Literal (LStr z) None a b] i j) T_dynamic" for z a b i j
    by (auto simp: typed_simps list_all2_Cons1 call_typed_def context_functions_def accepts_def
        TIME_FUNCTIONS_def numeric_functions_def)
  then have t: "typed ?e T_number"
    by (force simp: typed_simps(5) binary_typed_def logical_operators_def comparison_operators_def accepts_def)
  have "map_sum id (\<lambda>(v, st). rv_value v) (evaluate ?env 0 ?e (initial_state [])) = Inr (JStr (js ''xy''))"
    by code_simp
  then obtain v st' where "evaluate ?env 0 ?e (initial_state []) = Inr (v, st')" "rv_value v = JStr (js ''xy'')"
    by (cases "evaluate ?env 0 ?e (initial_state [])") auto
  with p t show ?thesis by blast
qed

section \<open>Integer arithmetic is exact\<close>

fun int_value :: "expr \<Rightarrow> int option" where
  "int_value (Literal (LNum x) i a b) = (if i = Some True then Some \<lfloor>fval x\<rfloor> else None)"
| "int_value (Unary f x a b) =
     (if f = js ''-'' then map_option uminus (int_value x)
      else if f = js ''+'' then int_value x else None)"
| "int_value (Binary f x y a b) =
     (case (int_value x, int_value y) of
        (Some m, Some n) \<Rightarrow>
          if f = js ''+'' then Some (m + n) else if f = js ''-'' then Some (m - n)
          else if f = js ''*'' then Some (m * n) else None
      | _ \<Rightarrow> None)"
| "int_value _ = None"

definition exact :: "expr \<Rightarrow> runtime_value outcome \<Rightarrow> bool" where
  "exact x r \<longleftrightarrow> (\<forall>n v s. ast_ok x \<longrightarrow> int_value x = Some n \<longrightarrow> r = Inr (v, s) \<longrightarrow>
     (\<exists>q. rv_value v = JNum q \<and> rv_integer v = Some True \<and> is_safe_integer q \<and> fval q = of_int n))"

lemma exactD:
  "exact x r \<Longrightarrow> ast_ok x \<Longrightarrow> int_value x = Some n \<Longrightarrow> r = Inr (v, s) \<Longrightarrow>
   \<exists>q. v = \<lparr>rv_value = JNum q, rv_integer = Some True\<rparr> \<and> is_safe_integer q \<and> fval q = of_int n"
  unfolding exact_def by (cases v) fastforce

lemma safe_integer_integer: "is_safe_integer q \<Longrightarrow> is_integer q"
  by (simp add: is_safe_integer_def)

lemma safe_neg: "is_safe_integer q \<Longrightarrow> fval (js_neg q) = - fval q"
  by (simp add: is_safe_integer_def is_integer_def fval_neg)

lemma checked_integer:
  "checked_value pos (\<lparr>rv_value = JNum q, rv_integer = Some True\<rparr>, st) = Inr (v, s) \<Longrightarrow>
   v = \<lparr>rv_value = JNum q, rv_integer = Some True\<rparr> \<and> is_safe_integer q"
  by (auto simp: checked_value_def split: if_splits)

lemma exact_binary:
  assumes x: "\<And>s. exact x (ev x s)" and y: "\<And>s. exact y (ev y s)"
    and ok: "ast_ok (Binary f x y a b)" and n: "int_value (Binary f x y a b) = Some n"
    and run: "bnd (binary ev f x y a st) (checked_value p) = Inr (v, s)"
  shows "\<exists>q. rv_value v = JNum q \<and> rv_integer v = Some True \<and> is_safe_integer q \<and> fval q = of_int n"
proof -
  from n obtain i j where i: "int_value x = Some i" and j: "int_value y = Some j"
    and f: "f = js ''+'' \<and> n = i + j \<or> f = js ''-'' \<and> n = i - j \<or> f = js ''*'' \<and> n = i * j"
    by (auto split: option.splits if_splits)
  from f run obtain l s1 r s2 w where l: "ev x st = Inr (l, s1)" and r: "ev y s1 = Inr (r, s2)"
    and b: "binary_values f l r a = Inr w" and c: "checked_value p (w, s2) = Inr (v, s)"
    by (auto simp: binary_def)
  from exactD [OF x _ i l] ok obtain q where q: "l = \<lparr>rv_value = JNum q, rv_integer = Some True\<rparr>"
    "is_safe_integer q" "fval q = of_int i" by auto
  from exactD [OF y _ j r] ok obtain q' where q': "r = \<lparr>rv_value = JNum q', rv_integer = Some True\<rparr>"
    "is_safe_integer q'" "fval q' = of_int j" by auto
  define z where "z = (if f = js ''+'' then js_add q q' else if f = js ''-'' then js_sub q q' else js_mul q q')"
  have "w = \<lparr>rv_value = JNum z, rv_integer = Some True\<rparr>"
    using b f by (auto simp: q q' binary_values_def concatenation_def comparison_def arithmetic_def z_def)
  with checked_integer c have v: "v = \<lparr>rv_value = JNum z, rv_integer = Some True\<rparr>" "is_safe_integer z"
    by blast+
  have "fval z = of_int n"
    using f v(2) q q' safe_integer_integer
    by (auto simp: z_def safe_add_exact safe_sub_exact safe_mul_exact)
  with v show ?thesis by simp
qed

lemma evaluate_exact_all: "exact node (evaluate env d node st)"
proof (rule evaluate_by_node [where P = "\<lambda>x s r. exact x r"])
  fix ev :: evaluator and node st
  assume kids: "\<And>x s. x \<in> set (children node) \<Longrightarrow> exact x (ev x s)"
  show "exact node (bnd (evaluateNode ev env node st) (checked_value (e_start node)))"
    unfolding exact_def
  proof (intro allI impI)
    fix n v s
    assume ok: "ast_ok node" and n: "int_value node = Some n"
      and run: "bnd (evaluateNode ev env node st) (checked_value (e_start node)) = Inr (v, s)"
    show "\<exists>q. rv_value v = JNum q \<and> rv_integer v = Some True \<and> is_safe_integer q \<and> fval q = of_int n"
    proof (cases node)
      case (Binary f x y a b)
      with kids ok n run show ?thesis
        by (intro exact_binary [of x ev y f a b]) (auto simp: evaluateNode_def)
    next
      case (Unary f x a b)
      with n obtain m where m: "int_value x = Some m"
        and f: "f = js ''-'' \<and> n = - m \<or> f = js ''+'' \<and> n = m"
        by (auto split: if_splits)
      from f run Unary obtain w s1 where w: "ev x st = Inr (w, s1)" by (auto simp: evaluateNode_def numeric_def)
      from exactD [OF kids _ m w] ok Unary obtain q where
        q: "w = \<lparr>rv_value = JNum q, rv_integer = Some True\<rparr>" "is_safe_integer q" "fval q = of_int m" by auto
      with w f run Unary show ?thesis
        by (auto simp: evaluateNode_def numeric_def safe_neg dest!: checked_integer)
    next
      case (Literal l i a b)
      with n ok run show ?thesis
        by (cases l) (auto simp: evaluateNode_def lit_ok_def is_safe_integer_def is_integer_def
            dest!: checked_integer split: if_splits)
    qed (use n in auto)
  qed
qed (simp add: exact_def)



end
