(* ===== verification/Expr_Display.thy ===== *)
theory Expr_Display
  imports Runtime_Types
begin

text \<open>
  The display adapters of \<open>billing-expression/display.ts\<close>: they read a compiled tree as an ordered
  chain of price tiers, or give up.  The functions read arguments by position; on the trees the
  parser returns every call has its arity, and the model gives up where an argument is missing.
\<close>

section \<open>Token tiers\<close>

record token_condition =
  tc_var :: jstring
  tc_op :: jstring
  tc_value :: jsnum

record token_tier =
  tt_condition_text :: "jstring option"
  tt_image_count :: bool
  tt_unit :: "billing_unit option"
  tt_fixed :: "jsnum option"
  tt_label :: jstring
  tt_conditions :: "token_condition list"
  tt_prices :: "(jstring \<times> jsnum) list"

definition plain_tier :: "jstring \<Rightarrow> token_condition list \<Rightarrow> (jstring \<times> jsnum) list \<Rightarrow> token_tier" where
  "plain_tier l cs ps = \<lparr>tt_condition_text = None, tt_image_count = False, tt_unit = None,
     tt_fixed = None, tt_label = l, tt_conditions = cs, tt_prices = ps\<rparr>"

fun flattenBinary :: "expr \<Rightarrow> jstring \<Rightarrow> expr list" where
  "flattenBinary (Binary f l r a b) operator =
     (if f \<noteq> operator then [Binary f l r a b]
      else flattenBinary l operator @ flattenBinary r operator)"
| "flattenBinary node operator = [node]"

definition relational_operators :: "jstring list" where
  "relational_operators = map js [''<'', ''<='', ''>'', ''>='']"

definition condition_variables :: "jstring list" where
  "condition_variables = map js [''p'', ''c'', ''len'']"

fun token_condition_of :: "expr \<Rightarrow> token_condition option" where
  "token_condition_of (Binary f (Variable x a b) (Literal (LNum v) i a' b') a'' b'') =
     (if f \<in> set relational_operators \<and> x \<in> set condition_variables \<and> \<not> js_lt v (Fin 0)
      then Some \<lparr>tc_var = x, tc_op = f, tc_value = v\<rparr> else None)"
| "token_condition_of _ = None"

text \<open>A loop that returns \<open>null\<close> at the first element it cannot read.\<close>

fun map_opt :: "('a \<Rightarrow> 'b option) \<Rightarrow> 'a list \<Rightarrow> 'b list option" where
  "map_opt f [] = Some []"
| "map_opt f (x # xs) =
     (case f x of None \<Rightarrow> None | Some y \<Rightarrow> map_option ((#) y) (map_opt f xs))"

definition tokenConditions :: "expr \<Rightarrow> token_condition list option" where
  "tokenConditions node = map_opt token_condition_of (flattenBinary node (js ''&&''))"

fun nonnegativePriceLiteral :: "expr \<Rightarrow> jsnum option" where
  "nonnegativePriceLiteral (Literal (LNum x) i a b) = (if js_le (Fin 0) x then Some x else None)"
| "nonnegativePriceLiteral (Unary f (Literal (LNum x) i a b) a' b') =
     (if f = js ''-'' \<and> js_eq x (Fin 0) then Some NegZero else None)"
| "nonnegativePriceLiteral _ = None"

fun is_zero_literal :: "expr \<Rightarrow> bool" where
  "is_zero_literal (Literal (LNum x) i a b) = js_eq x (Fin 0)"
| "is_zero_literal _ = False"

fun is_variable :: "string \<Rightarrow> expr \<Rightarrow> bool" where
  "is_variable n (Variable x a b) = (x = js n)"
| "is_variable n _ = False"

fun is_text_remainder :: "expr \<Rightarrow> bool" where
  "is_text_remainder (Binary f l r a b) = (f = js ''-'' \<and> is_variable ''len'' l \<and> is_variable ''ai'' r)"
| "is_text_remainder _ = False"

text \<open>The variable a price is for; \<open>max(0, len - ai)\<close> counts as \<open>p\<close>.\<close>

fun priced_variable :: "expr \<Rightarrow> jstring option" where
  "priced_variable (Variable x a b) =
     (if x \<noteq> js ''len'' \<and> x \<noteq> js ''image_count'' then Some x else None)"
| "priced_variable (Call f [x, y] a b) =
     (if f \<noteq> js ''max'' then None
      else if is_zero_literal x then (if is_text_remainder y then Some (js ''p'') else None)
      else if is_zero_literal y then (if is_text_remainder x then Some (js ''p'') else None)
      else None)"
| "priced_variable _ = None"

fun price_term :: "expr \<Rightarrow> (jstring \<times> jsnum) option" where
  "price_term (Binary f l r a b) =
     (if f \<noteq> js ''*'' then None
      else case nonnegativePriceLiteral r of
             Some price \<Rightarrow> map_option (\<lambda>v. (v, price)) (priced_variable l)
           | None \<Rightarrow>
               (case nonnegativePriceLiteral l of
                  Some price \<Rightarrow> map_option (\<lambda>v. (v, price)) (priced_variable r)
                | None \<Rightarrow> None))"
| "price_term _ = None"

text \<open>The loop over the terms of a sum: a variable priced twice is refused.\<close>

fun price_terms :: "expr list \<Rightarrow> (jstring \<times> jsnum) list \<Rightarrow> (jstring \<times> jsnum) list option" where
  "price_terms [] prices = Some prices"
| "price_terms (t # ts) prices =
     (case price_term t of
        None \<Rightarrow> None
      | Some (v, x) \<Rightarrow> if v \<in> fst ` set prices then None else price_terms ts (prices @ [(v, x)]))"

fun fixed_price_of :: "expr \<Rightarrow> jsnum option" where
  "fixed_price_of (Call f (Literal (LNum x) i a b # rest) a' b') = (if f = js ''fixed'' then Some x else None)"
| "fixed_price_of _ = None"

fun tokenTier :: "expr \<Rightarrow> token_condition list \<Rightarrow> token_tier option" where
  "tokenTier (Call f (Literal (LStr l) i a b # body # rest) a' b') conditions =
     (if f \<noteq> js ''tier'' then None
      else case fixed_price_of body of
             Some x \<Rightarrow> Some ((plain_tier l conditions [])\<lparr>tt_unit := Some Unit_request, tt_fixed := Some x\<rparr>)
           | None \<Rightarrow>
               (case price_terms (flattenBinary body (js ''+'')) [] of
                  None \<Rightarrow> None
                | Some prices \<Rightarrow> if prices = [] then None else Some (plain_tier l conditions prices)))"
| "tokenTier _ conditions = None"

section \<open>The chain\<close>

fun audio_input :: "expr \<Rightarrow> jstring option" where
  "audio_input (Binary f (Variable x a b) y a' b') =
     (if f = js ''>'' \<and> (x = js ''ai'' \<or> x = js ''ao'') \<and> is_zero_literal y then Some x else None)"
| "audio_input _ = None"

fun audio_condition :: "expr \<Rightarrow> bool" where
  "audio_condition (Binary f l r a b) =
     (f = js ''||'' \<and> card (set (List.map_filter audio_input [l, r])) = 2)"
| "audio_condition _ = False"

text \<open>The \<open>while\<close> loop down the \<open>no\<close> branches and the fallback tier.\<close>

fun tier_chain :: "expr \<Rightarrow> token_tier list \<Rightarrow> token_tier list option" where
  "tier_chain (Conditional c x y a b) tiers =
     (case tokenConditions c of
        None \<Rightarrow> None
      | Some conditions \<Rightarrow>
          (case tokenTier x conditions of None \<Rightarrow> None | Some tier \<Rightarrow> tier_chain y (tiers @ [tier])))"
| "tier_chain node tiers =
     (case tokenTier node [] of None \<Rightarrow> None | Some fallback \<Rightarrow> Some (tiers @ [fallback]))"

fun audio_tiers :: "expr \<Rightarrow> token_tier list option" where
  "audio_tiers (Conditional c x y a b) =
     (if audio_condition c
      then (case (tokenTier x [], tokenTier y []) of
              (Some audio, Some txt) \<Rightarrow>
                Some [audio\<lparr>tt_condition_text := Some (js ''Audio requests'')\<rparr>,
                      txt\<lparr>tt_condition_text := Some (js ''Text-only requests'')\<rparr>]
            | _ \<Rightarrow> None)
      else None)"
| "audio_tiers _ = None"

text \<open>The factor priced per image, in the order of the loop over the two sides.\<close>

fun image_pricing :: "expr \<Rightarrow> expr option" where
  "image_pricing (Binary f l r a b) =
     (if f \<noteq> js ''*'' then None
      else if is_variable ''image_count'' l then Some r
      else if is_variable ''image_count'' r then Some l else None)"
| "image_pricing _ = None"

lemma image_pricing_size: "image_pricing e = Some x \<Longrightarrow> size x < size e"
  by (cases e) (auto split: if_splits)

function readTokenTierChain :: "expr \<Rightarrow> token_tier list option" where
  "readTokenTierChain node =
     (case audio_tiers node of
        Some tiers \<Rightarrow> Some tiers
      | None \<Rightarrow>
          (case image_pricing node of
             Some pricing \<Rightarrow>
               map_option (map (\<lambda>t. t\<lparr>tt_image_count := True\<rparr>)) (readTokenTierChain pricing)
           | None \<Rightarrow> tier_chain node []))"
  by pat_completeness auto
termination
  by (relation "measure size") (auto dest: image_pricing_size)

declare readTokenTierChain.simps [simp del]

section \<open>Prices that depend on the time\<close>

definition time_condition_functions :: "jstring list" where
  "time_condition_functions = TIME_FUNCTIONS @ map js [''min'', ''max'', ''abs'', ''ceil'', ''floor'']"

definition isTimeCondition :: "expr \<Rightarrow> thrown + bool" where
  "isTimeCondition node =
     bnd (expressionDependencies node) (\<lambda>d.
       Inr (dep_variables d = {} \<and> list_ex (\<lambda>f. f \<in> dep_functions d) TIME_FUNCTIONS
            \<and> (\<forall>f \<in> dep_functions d. f \<in> set time_condition_functions)))"

record time_token_tier =
  tm_tier :: token_tier
  tm_path :: "(expr \<times> bool) list"

definition path_text :: "jstring \<Rightarrow> expr \<times> bool \<Rightarrow> jstring" where
  "path_text source step =
     (let t = slice (e_start (fst step)) (e_end (fst step)) source
      in if snd step then js ''('' @ t @ js '')'' else js ''!('' @ t @ js '')'')"

definition condition_text :: "token_condition \<Rightarrow> jstring" where
  "condition_text c = tc_var c @ js '' '' @ tc_op c @ js '' '' @ num_to_string (tc_value c)"

definition time_tier :: "jstring \<Rightarrow> (expr \<times> bool) list \<Rightarrow> token_tier \<Rightarrow> time_token_tier" where
  "time_tier source path tier =
     \<lparr>tm_tier = tier\<lparr>tt_condition_text := Some (join (js '' && '')
        (join (js '' && '') (map (path_text source) path) # map condition_text (tt_conditions tier)))\<rparr>,
      tm_path = path\<rparr>"

definition time_leaf :: "jstring \<Rightarrow> expr \<Rightarrow> (expr \<times> bool) list \<Rightarrow> time_token_tier list option" where
  "time_leaf source node path =
     (case readTokenTierChain node of
        None \<Rightarrow> None
      | Some tiers \<Rightarrow> if path = [] then None else Some (map (time_tier source path) tiers))"

fun timeTierBranches ::
  "compiled_expression \<Rightarrow> expr \<Rightarrow> (expr \<times> bool) list \<Rightarrow> thrown + time_token_tier list option" where
  "timeTierBranches compiled (Conditional c x y a b) path =
     bnd (isTimeCondition c) (\<lambda>t.
       if t
       then bnd (timeTierBranches compiled x (path @ [(c, True)])) (\<lambda>yes.
            bnd (timeTierBranches compiled y (path @ [(c, False)])) (\<lambda>no.
            Inr (case (yes, no) of (Some ys, Some ns) \<Rightarrow> Some (ys @ ns) | _ \<Rightarrow> None)))
       else Inr (time_leaf (cb_source compiled) (Conditional c x y a b) path))"
| "timeTierBranches compiled node path = Inr (time_leaf (cb_source compiled) node path)"

definition current_tiers ::
  "host \<Rightarrow> compiled_expression \<Rightarrow> date \<Rightarrow> time_token_tier list \<Rightarrow> time_token_tier list" where
  "current_tiers h compiled now tiers =
     filter (\<lambda>t. list_all (\<lambda>(c, m). evaluateBillingCondition h compiled c now = Some m) (tm_path t)) tiers"

definition readTimeTokenPricing ::
  "host \<Rightarrow> compiled_cache \<Rightarrow> jstring \<Rightarrow> date option
   \<Rightarrow> (thrown + (time_token_tier list \<times> time_token_tier list) option) \<times> compiled_cache" where
  "readTimeTokenPricing h cache source now =
     (case compileBillingExpression cache source of (compiled, cache') \<Rightarrow>
        (case compiled of
           Failure f \<Rightarrow> Inr None
         | Ready c \<Rightarrow>
             bnd (timeTierBranches c (cb_ast c) []) (\<lambda>r.
               Inr (map_option (\<lambda>tiers. (tiers,
                      case now of Some d \<Rightarrow> current_tiers h c d tiers | None \<Rightarrow> [])) r)), cache'))"

section \<open>Task tiers\<close>

record usage_field =
  uf_type :: "jstring option"
  uf_unit :: "jstring option"
  uf_enum :: "jstring list option"

type_synonym usage_schema = "(jstring \<times> usage_field) list"

record task_tier =
  tk_label :: jstring
  tk_conditions :: "(jstring \<times> jstring) list"
  tk_constant :: jsnum
  tk_unit_prices :: "(jstring \<times> jsnum) list"

datatype task_condition = Task_reject | Task_unreachable "jstring \<times> jstring" | Task_ok "jstring \<times> jstring"

definition text_truthy :: "jstring option \<Rightarrow> bool" where
  "text_truthy s = (case s of None \<Rightarrow> False | Some t \<Rightarrow> t \<noteq> [])"

definition boolean_text :: "bool \<Rightarrow> jstring" where
  "boolean_text b = (if b then js ''true'' else js ''false'')"

fun task_condition_of :: "usage_schema \<Rightarrow> bool \<Rightarrow> expr \<Rightarrow> task_condition" where
  "task_condition_of schema includeBoolean
     (Binary f (Call g (Literal (LStr field) i a b # rest) a' b') (Literal v j c d) c' d') =
     (if f \<noteq> js ''=='' \<or> g \<noteq> js ''u'' then Task_reject
      else if (case map_of schema field of Some def \<Rightarrow> uf_type def = Some (js ''boolean'') | None \<Rightarrow> False)
      then (case v of
              LBool x \<Rightarrow> if includeBoolean then Task_ok (field, boolean_text x) else Task_reject
            | _ \<Rightarrow> Task_reject)
      else (case (v, map_of schema field) of
              (LStr x, Some def) \<Rightarrow>
                (case uf_enum def of
                   None \<Rightarrow> Task_reject
                 | Some xs \<Rightarrow> if x \<in> set xs then Task_ok (field, x) else Task_unreachable (field, x))
            | _ \<Rightarrow> Task_reject))"
| "task_condition_of schema includeBoolean _ = Task_reject"

text \<open>The loop with its flag \<open>reachable\<close>; \<open>Some None\<close> is the result \<open>'unreachable'\<close>.\<close>

fun task_condition_loop ::
  "usage_schema \<Rightarrow> bool \<Rightarrow> expr list \<Rightarrow> (jstring \<times> jstring) list \<Rightarrow> bool
   \<Rightarrow> (jstring \<times> jstring) list option option" where
  "task_condition_loop schema ib [] conditions reachable = Some (if reachable then Some conditions else None)"
| "task_condition_loop schema ib (t # ts) conditions reachable =
     (case task_condition_of schema ib t of
        Task_reject \<Rightarrow> None
      | Task_unreachable c \<Rightarrow> task_condition_loop schema ib ts (conditions @ [c]) False
      | Task_ok c \<Rightarrow> task_condition_loop schema ib ts (conditions @ [c]) reachable)"

definition taskConditions ::
  "expr \<Rightarrow> usage_schema \<Rightarrow> bool \<Rightarrow> (jstring \<times> jstring) list option option" where
  "taskConditions node schema includeBoolean =
     task_condition_loop schema includeBoolean (flattenBinary node (js ''&&'')) [] True"

text \<open>A term \<open>u(field) * price\<close>, with the division by a million already taken off.\<close>

fun task_unit_term :: "usage_schema \<Rightarrow> bool \<Rightarrow> (jstring \<times> jsnum) list \<Rightarrow> expr \<Rightarrow> (jstring \<times> jsnum) option" where
  "task_unit_term schema scaled unitPrices (Binary f (Call g (Literal (LStr field) i a b # rest) a' b') r a'' b'') =
     (if f \<noteq> js ''*'' \<or> g \<noteq> js ''u'' then None
      else case (nonnegativePriceLiteral r, map_of schema field) of
             (Some price, Some def) \<Rightarrow>
               if uf_type def \<noteq> Some (js ''number'') \<or> \<not> text_truthy (uf_unit def) \<or> field \<in> fst ` set unitPrices
                  \<or> (uf_unit def = Some (js ''token'')) \<noteq> scaled
               then None else Some (field, price)
           | _ \<Rightarrow> None)"
| "task_unit_term schema scaled unitPrices _ = None"

fun is_million_literal :: "expr \<Rightarrow> bool" where
  "is_million_literal (Literal (LNum x) i a b) = js_eq x (Fin 1000000)"
| "is_million_literal _ = False"

fun unscale :: "expr \<Rightarrow> (expr \<times> bool) option" where
  "unscale (Binary f l r a b) =
     (if f = js ''/'' then (if is_million_literal r then Some (l, True) else None)
      else Some (Binary f l r a b, False))"
| "unscale node = Some (node, False)"

fun task_terms ::
  "usage_schema \<Rightarrow> expr list \<Rightarrow> jsnum option \<Rightarrow> (jstring \<times> jsnum) list
   \<Rightarrow> (jsnum option \<times> (jstring \<times> jsnum) list) option" where
  "task_terms schema [] constant unitPrices = Some (constant, unitPrices)"
| "task_terms schema (t # ts) constant unitPrices =
     (case nonnegativePriceLiteral t of
        Some x \<Rightarrow> (case constant of Some _ \<Rightarrow> None | None \<Rightarrow> task_terms schema ts (Some x) unitPrices)
      | None \<Rightarrow>
          (case unscale t of
             None \<Rightarrow> None
           | Some (t', scaled) \<Rightarrow>
               (case task_unit_term schema scaled unitPrices t' of
                  None \<Rightarrow> None
                | Some p \<Rightarrow> task_terms schema ts constant (unitPrices @ [p]))))"

fun taskTier :: "expr \<Rightarrow> (jstring \<times> jstring) list \<Rightarrow> usage_schema \<Rightarrow> task_tier option" where
  "taskTier (Call f (Literal (LStr l) i a b # body # rest) a' b') conditions schema =
     (if f \<noteq> js ''tier'' then None
      else case task_terms schema (flattenBinary body (js ''+'')) None [] of
             None \<Rightarrow> None
           | Some (constant, unitPrices) \<Rightarrow>
               if unitPrices = [] then None
               else Some \<lparr>tk_label = l, tk_conditions = conditions,
                          tk_constant = (case constant of Some x \<Rightarrow> x | None \<Rightarrow> Fin 0),
                          tk_unit_prices = unitPrices\<rparr>)"
| "taskTier _ conditions schema = None"

fun task_chain :: "usage_schema \<Rightarrow> bool \<Rightarrow> expr \<Rightarrow> task_tier list \<Rightarrow> task_tier list option" where
  "task_chain schema ib (Conditional c x y a b) tiers =
     (case taskConditions c schema ib of
        None \<Rightarrow> None
      | Some None \<Rightarrow> task_chain schema ib y tiers
      | Some (Some conditions) \<Rightarrow>
          (case taskTier x conditions schema of
             None \<Rightarrow> None
           | Some tier \<Rightarrow> task_chain schema ib y (tiers @ [tier])))"
| "task_chain schema ib node tiers =
     (case taskTier node [] schema of None \<Rightarrow> None | Some fallback \<Rightarrow> Some (tiers @ [fallback]))"

definition readTaskTierChain :: "expr \<Rightarrow> usage_schema \<Rightarrow> bool \<Rightarrow> task_tier list option" where
  "readTaskTierChain node schema includeBoolean = task_chain schema includeBoolean node []"

end
