(* ===== verification/JS_Json.thy ===== *)
theory JS_Json
  imports JS_Value
begin

text \<open>
  \<open>JSON.parse\<close>, whose error is the value \<open>None\<close>, and \<open>String(v)\<close> of a parsed value.  The main
  fact is the round trip with \<open>JSON.stringify\<close> on strings, \<open>json_parse_quote\<close>.
\<close>

definition is_json_ws :: "nat \<Rightarrow> bool" where
  "is_json_ws c = (c \<in> {9, 10, 13, 32})"

definition skip_json :: "jstring \<Rightarrow> jstring" where
  "skip_json s = dropWhile is_json_ws s"

definition json_escapes :: "(nat \<times> nat) list" where
  "json_escapes = [(34, 34), (92, 92), (47, 47), (98, 8), (102, 12), (110, 10), (114, 13), (116, 9)]"

definition hex_number :: "jstring \<Rightarrow> nat" where
  "hex_number ds = foldl (\<lambda>n d. 16 * n + hex_val d) 0 ds"

text \<open>The characters of a string literal after its opening quote.\<close>

function json_chars :: "jstring \<Rightarrow> jstring \<Rightarrow> (jstring \<times> jstring) option" where
  "json_chars [] val = None"
| "json_chars (c # s) val =
     (if c = 34 then Some (val, s)
      else if c < 32 then None
      else if c \<noteq> 92 then json_chars s (val @ [c])
      else case s of
             [] \<Rightarrow> None
           | e # s' \<Rightarrow>
               if e = 117
               then (if length (take 4 s') = 4 \<and> list_all is_hex (take 4 s')
                     then json_chars (drop 4 s') (val @ [hex_number (take 4 s')]) else None)
               else (case map_of json_escapes e of
                       Some d \<Rightarrow> json_chars s' (val @ [d])
                     | None \<Rightarrow> None))"
  by pat_completeness auto
termination
  by (relation "measure (\<lambda>(s, v). length s)") auto

declare json_chars.simps(2) [simp del]

text \<open>The length of the number at the front of a text, \<open>0\<close> when there is none.\<close>

definition json_fraction :: "jstring \<Rightarrow> nat" where
  "json_fraction s =
     (case s of
        c # rest \<Rightarrow> if c = 46 \<and> 0 < span_len is_digit rest then 1 + span_len is_digit rest else 0
      | [] \<Rightarrow> 0)"

definition json_digits :: "jstring \<Rightarrow> nat" where
  "json_digits s =
     (let n = (case s of
                 c # rest \<Rightarrow> if c = 48 then 1 else span_len is_digit s
               | [] \<Rightarrow> 0);
          f = json_fraction (drop n s)
      in if n = 0 then 0 else n + f + exponent_len (drop (n + f) s))"

definition json_number :: "jstring \<Rightarrow> (jsval \<times> jstring) option" where
  "json_number s =
     (case s of
        [] \<Rightarrow> None
      | c # rest \<Rightarrow>
          let digits = (if c = 45 then rest else s); n = json_digits digits; x = num_of_text (take n digits)
          in if n = 0 then None
             else Some (JNum (if c = 45 then js_neg x else x), drop n digits))"

text \<open>
  The entries of an object in the order of \<open>Object.entries\<close>: of equal names the last value counts, at
  the place of the first; names that are array indices come first, in increasing order.
\<close>

fun set_entry :: "jstring \<Rightarrow> 'v \<Rightarrow> (jstring \<times> 'v) list \<Rightarrow> (jstring \<times> 'v) list" where
  "set_entry k v [] = [(k, v)]"
| "set_entry k v ((k', v') # es) = (if k = k' then (k, v) # es else (k', v') # set_entry k v es)"

definition array_index :: "jstring \<Rightarrow> bool" where
  "array_index k = (k \<noteq> [] \<and> list_all is_digit k \<and> digits_of (nat_of_digits k) = k \<and> nat_of_digits k < 2 ^ 32 - 1)"

definition object_entries :: "(jstring \<times> 'v) list \<Rightarrow> (jstring \<times> 'v) list" where
  "object_entries entries =
     (let es = fold (\<lambda>(k, v). set_entry k v) entries []
      in sort_key (\<lambda>(k, v). nat_of_digits k) (filter (\<lambda>(k, v). array_index k) es)
         @ filter (\<lambda>(k, v). \<not> array_index k) es)"

text \<open>
  Values, the elements of an array after a value or at its start, and the entries of an object.
  The tests that the rest is shorter always succeed; they make the recursion well founded.
\<close>

datatype json_goal = G_value | G_elements "jsval list" | G_entries "(jstring \<times> jsval) list"

definition shorter :: "jstring \<Rightarrow> jstring \<Rightarrow> bool" where
  "shorter r s = (length r < length s)"

function json_read :: "json_goal \<Rightarrow> jstring \<Rightarrow> (jsval \<times> jstring) option" where
  "json_read G_value s0 =
     (case skip_json s0 of
        [] \<Rightarrow> None
      | c # s \<Rightarrow>
          if \<not> shorter s s0 then None
          else if c = 34 then map_option (apfst JStr) (json_chars s [])
          else if c = 91
          then (case skip_json s of
                  d # r \<Rightarrow> if d = 93 then Some (JArr [], r) else json_read (G_elements []) s
                | [] \<Rightarrow> None)
          else if c = 123
          then (case skip_json s of
                  d # r \<Rightarrow> if d = 125 then Some (JObj [], r) else json_read (G_entries []) s
                | [] \<Rightarrow> None)
          else if starts_with (js ''true'') (c # s) then Some (JBool True, drop 3 s)
          else if starts_with (js ''false'') (c # s) then Some (JBool False, drop 4 s)
          else if starts_with (js ''null'') (c # s) then Some (JNull, drop 3 s)
          else json_number (c # s))"
| "json_read (G_elements vs) s0 =
     (case json_read G_value s0 of
        None \<Rightarrow> None
      | Some (v, s) \<Rightarrow>
          (case skip_json s of
             [] \<Rightarrow> None
           | c # r \<Rightarrow>
               if \<not> shorter r s0 then None
               else if c = 44 then json_read (G_elements (vs @ [v])) r
               else if c = 93 then Some (JArr (vs @ [v]), r) else None))"
| "json_read (G_entries es) s0 =
     (case skip_json s0 of
        [] \<Rightarrow> None
      | q # s1 \<Rightarrow>
          if q \<noteq> 34 then None
          else case json_chars s1 [] of
                 None \<Rightarrow> None
               | Some (k, s2) \<Rightarrow>
                   (case skip_json s2 of
                      [] \<Rightarrow> None
                    | c # s3 \<Rightarrow>
                        if c \<noteq> 58 \<or> \<not> shorter s3 s0 then None
                        else case json_read G_value s3 of
                               None \<Rightarrow> None
                             | Some (v, s4) \<Rightarrow>
                                 (case skip_json s4 of
                                    [] \<Rightarrow> None
                                  | e # s5 \<Rightarrow>
                                      if \<not> shorter s5 s0 then None
                                      else if e = 44 then json_read (G_entries (es @ [(k, v)])) s5
                                      else if e = 125 then Some (JObj (object_entries (es @ [(k, v)])), s5)
                                      else None)))"
  by pat_completeness auto
termination
  by (relation "measure (\<lambda>(g, s). 2 * length s + (case g of G_value \<Rightarrow> 0 | _ \<Rightarrow> 1))")
    (auto simp: shorter_def)

declare json_read.simps [simp del]

definition json_parse :: "jstring \<Rightarrow> jsval option" where
  "json_parse s =
     (case json_read G_value s of
        Some (v, rest) \<Rightarrow> if skip_json rest = [] then Some v else None
      | None \<Rightarrow> None)"

section \<open>Strings come back\<close>

lemma hex_digit_val: "d < 16 \<Longrightarrow> is_hex (hex_digit d) \<and> hex_val (hex_digit d) = d"
  by (auto simp: hex_digit_def is_hex_def hex_val_def is_digit_def)

lemma hex4_number: "c < 65536 \<Longrightarrow> hex_number (hex4 c) = c"
proof -
  assume c: "c < 65536"
  define d where "d = c div 16"
  define e where "e = d div 16"
  have d: "c div 256 = e" "c div 4096 = e div 16" "c div 16 = d"
    by (simp_all add: d_def e_def div_mult2_eq [symmetric])
  have "e div 16 < 16" using c by (simp add: d_def e_def)
  then have "16 * (16 * (16 * (e div 16 mod 16) + e mod 16) + d mod 16) + c mod 16 = c"
    using div_mult_mod_eq [of c 16] div_mult_mod_eq [of d 16] div_mult_mod_eq [of e 16]
    by (simp add: d_def [symmetric] e_def [symmetric])
  then show ?thesis
    by (simp add: hex4_def hex_number_def hex_digit_val d)
qed

lemma hex4_hex: "list_all is_hex (hex4 c)" "length (hex4 c) = 4"
  by (simp_all add: hex4_def hex_digit_val)

lemma json_chars_unicode:
  "c < 65536 \<Longrightarrow> json_chars (92 # 117 # hex4 c @ s) v = json_chars s (v @ [c])"
  by (simp add: json_chars.simps(2) hex4_hex hex4_number)

lemma json_chars_escape: "c < 65536 \<Longrightarrow> json_chars (json_escape c @ s) v = json_chars s (v @ [c])"
  by (simp add: json_escape_def json_chars_unicode) (simp add: json_chars.simps(2) json_escapes_def)

lemma surrogate_range:
  "is_high_surrogate c \<Longrightarrow> 92 < c" "is_low_surrogate c \<Longrightarrow> 92 < c"
  by (simp_all add: is_high_surrogate_def is_low_surrogate_def)

lemma json_chars_quote:
  "list_all (\<lambda>c. c < 65536) s \<Longrightarrow> json_chars (json_body s @ 34 # t) v = Some (v @ s, t)"
proof (induction s arbitrary: v rule: json_body.induct)
  case 1
  then show ?case by (simp add: json_chars.simps(2))
next
  case (2 c)
  then show ?case by (simp add: json_chars_unicode json_chars_escape) (simp add: json_chars.simps(2))
next
  case (3 c d rest)
  then show ?case
    by (auto simp: json_chars_unicode json_chars_escape)
      (auto simp: json_chars.simps(2) dest!: surrogate_range)
qed

lemma json_parse_quote: "list_all (\<lambda>c. c < 65536) s \<Longrightarrow> json_parse (json_quote s) = Some (JStr s)"
  by (simp add: json_parse_def json_read.simps(1) json_quote_def skip_json_def is_json_ws_def shorter_def
      json_chars_quote)

section \<open>Text of a value\<close>

text \<open>
  \<open>String(v)\<close>.  An object with an own property \<open>toString\<close>, which is never a function here, has no
  primitive value, and the conversion throws.
\<close>

function js_to_string :: "jsval \<Rightarrow> jstring option" where
  "js_to_string JUndef = Some (js ''undefined'')"
| "js_to_string JNull = Some (js ''null'')"
| "js_to_string (JBool b) = Some (if b then js ''true'' else js ''false'')"
| "js_to_string (JNum x) = Some (num_to_string x)"
| "js_to_string (JStr s) = Some s"
| "js_to_string (JObj es) =
     (if js ''toString'' \<in> fst ` set es then None else Some (js ''[object Object]''))"
| "js_to_string (JArr vs) =
     (let ts = map (\<lambda>v. if is_nullish v then Some [] else js_to_string v) vs
      in if None \<in> set ts then None else Some (join (js '','') (map the ts)))"
  by pat_completeness auto
termination
  by (relation "measure size") (auto simp: less_Suc_eq_le size_list_estimation')

end
