(* ===== verification/Task_Display.thy ===== *)
theory Task_Display
  imports Expr_Display JS_Json
begin

text \<open>
  \<open>task-display.ts\<close>: a task expression is expanded into one row for each combination of the values
  it looks at and for each outcome of its time conditions, with symbolic linear prices.  The field
  \<open>remaining\<close> of the display state, counted down at every visit of a node, is passed along.  A
  record of prices is an association list in the order of insertion; fields named like a member of
  \<open>Object.prototype\<close>, whose lookup finds the inherited member, are not considered.
\<close>

section \<open>Conditions\<close>

record price_branch =
  pb_label :: "jstring option"
  pb_constant :: jsnum
  pb_prices :: "(jstring \<times> jsnum) list"
  pb_times :: "(jstring \<times> bool) list"

record task_display_context =
  dc_source :: jstring
  dc_schema :: usage_schema
  dc_facts :: js_object

definition MAX_DISPLAY_ROWS :: nat where
  "MAX_DISPLAY_ROWS = 128"

text \<open>The result \<open>boolean | string | null\<close>: a known truth value, or the text of a time condition.\<close>

datatype display_condition = Known bool | Open jstring

fun negate_condition :: "display_condition \<Rightarrow> display_condition" where
  "negate_condition (Known b) = Known (\<not> b)"
| "negate_condition (Open s) = Open (js ''!('' @ s @ js '')'')"

definition join_conditions ::
  "jstring \<Rightarrow> display_condition option \<Rightarrow> display_condition option \<Rightarrow> display_condition option" where
  "join_conditions operator left0 right0 =
     (case (left0, right0) of
        (Some l, Some r) \<Rightarrow>
          let shortCircuit = (operator = js ''||'')
          in if l = Known shortCircuit \<or> r = Known shortCircuit then Some (Known shortCircuit)
             else (case (l, r) of
                     (Known _, _) \<Rightarrow> Some r
                   | (_, Known _) \<Rightarrow> Some l
                   | (Open s, Open t) \<Rightarrow>
                       Some (Open (js ''('' @ s @ js '') '' @ operator @ js '' ('' @ t @ js '')'')))
      | _ \<Rightarrow> None)"

text \<open>The comparison of a categorical fact with a literal.\<close>

definition decide_usage ::
  "task_display_context \<Rightarrow> jstring \<Rightarrow> jstring \<Rightarrow> lit_value \<Rightarrow> display_condition option" where
  "decide_usage ctx operator key v =
     (case (map_of (dc_facts ctx) key, map_of (dc_schema ctx) key) of
        (Some given, Some def) \<Rightarrow>
          let equal = strict_equal given (literal_value v);
              answer = Some (Known (if operator = js ''=='' then equal else \<not> equal))
          in if uf_type def = Some (js ''boolean'')
             then (case v of LBool b \<Rightarrow> answer | _ \<Rightarrow> None)
             else (case v of
                     LStr x \<Rightarrow>
                       if x \<notin> set (case uf_enum def of Some xs \<Rightarrow> xs | None \<Rightarrow> [])
                       then Some (Known (operator = js ''!='')) else answer
                   | _ \<Rightarrow> None)
      | _ \<Rightarrow> None)"

text \<open>One round of the loop over the two orders of the operands; \<open>None\<close> continues the loop.\<close>

fun usage_probe ::
  "task_display_context \<Rightarrow> jstring \<Rightarrow> expr \<Rightarrow> expr \<Rightarrow> display_condition option option" where
  "usage_probe ctx operator (Call f (Literal (LStr key) i a b # rest) a' b') (Literal v j c d) =
     (if f \<noteq> js ''u'' then None else Some (decide_usage ctx operator key v))"
| "usage_probe ctx operator _ _ = None"

fun is_call :: "expr \<Rightarrow> bool" where
  "is_call (Call f es a b) = True"
| "is_call _ = False"

fun time_operand :: "expr \<Rightarrow> bool" where
  "time_operand (Literal (LNum x) i a b) = True"
| "time_operand (Call f (Literal (LStr z) i a b # rest) a' b') =
     (f \<in> set TIME_FUNCTIONS \<and> trim z \<noteq> js ''Local'')"
| "time_operand _ = False"

definition time_comparison :: "jstring \<Rightarrow> expr \<Rightarrow> expr \<Rightarrow> bool" where
  "time_comparison operator l r =
     (operator \<in> set comparison_operators \<and> (is_call l \<or> is_call r) \<and> time_operand l \<and> time_operand r)"

definition display_comparison ::
  "task_display_context \<Rightarrow> jstring \<Rightarrow> expr \<Rightarrow> expr \<Rightarrow> nat \<Rightarrow> nat \<Rightarrow> display_condition option" where
  "display_comparison ctx operator l r a b =
     (let probe = (if operator = js ''=='' \<or> operator = js ''!=''
                   then (case usage_probe ctx operator l r of
                           Some result \<Rightarrow> Some result
                         | None \<Rightarrow> usage_probe ctx operator r l)
                   else None)
      in case probe of
           Some result \<Rightarrow> result
         | None \<Rightarrow> if time_comparison operator l r then Some (Open (slice a b (dc_source ctx))) else None)"

definition is_logical :: "jstring \<Rightarrow> bool" where
  "is_logical operator = (operator = js ''&&'' \<or> operator = js ''||'')"

fun taskDisplayCondition ::
  "task_display_context \<Rightarrow> expr \<Rightarrow> int \<Rightarrow> display_condition option \<times> int" where
  "taskDisplayCondition ctx (Literal v i a b) budget =
     (if budget - 1 < 0 then (None, budget - 1)
      else (case v of LBool x \<Rightarrow> Some (Known x) | _ \<Rightarrow> None, budget - 1))"
| "taskDisplayCondition ctx (Unary operator x a b) budget =
     (if budget - 1 < 0 then (None, budget - 1)
      else if operator = js ''!''
      then (case taskDisplayCondition ctx x (budget - 1) of
              (val, n) \<Rightarrow> (map_option negate_condition val, n))
      else (None, budget - 1))"
| "taskDisplayCondition ctx (Binary operator l r a b) budget =
     (if budget - 1 < 0 then (None, budget - 1)
      else if is_logical operator
      then (case taskDisplayCondition ctx l (budget - 1) of
              (left0, n) \<Rightarrow>
                (case taskDisplayCondition ctx r n of
                   (right0, m) \<Rightarrow> (join_conditions operator left0 right0, m)))
      else (display_comparison ctx operator l r a b, budget - 1))"
| "taskDisplayCondition ctx _ budget = (None, budget - 1)"

section \<open>Prices\<close>

text \<open>\<open>new Map(entries)\<close>.\<close>

definition new_map :: "(jstring \<times> 'v) list \<Rightarrow> (jstring \<times> 'v) list" where
  "new_map entries = fold (\<lambda>(k, v). set_entry k v) entries []"

definition unit_branch :: "task_display_context \<Rightarrow> jstring \<Rightarrow> price_branch list option" where
  "unit_branch ctx field =
     (case map_of (dc_schema ctx) field of
        Some def \<Rightarrow>
          if uf_type def \<noteq> Some (js ''number'') \<or> \<not> text_truthy (uf_unit def) then None
          else Some [\<lparr>pb_label = None, pb_constant = Fin 0, pb_prices = [(field, Fin 1)], pb_times = []\<rparr>]
      | None \<Rightarrow> None)"

definition label_branches :: "jstring \<Rightarrow> price_branch list option \<Rightarrow> price_branch list option" where
  "label_branches l branches =
     (case branches of
        None \<Rightarrow> None
      | Some bs \<Rightarrow>
          if list_ex (\<lambda>b. pb_label b \<noteq> None) bs then None
          else Some (map (\<lambda>b. b\<lparr>pb_label := Some l\<rparr>) bs))"

definition under_condition :: "jstring \<Rightarrow> bool \<Rightarrow> price_branch list \<Rightarrow> price_branch list" where
  "under_condition condition matches branches =
     map (\<lambda>child. child\<lparr>pb_times := new_map ((condition, matches) # pb_times child)\<rparr>)
       (filter (\<lambda>child. map_of (pb_times child) condition \<noteq> Some (\<not> matches)) branches)"

definition price_or_zero :: "(jstring \<times> jsnum) list \<Rightarrow> jstring \<Rightarrow> jsnum" where
  "price_or_zero prices field = (case map_of prices field of Some x \<Rightarrow> x | None \<Rightarrow> Fin 0)"

definition add_prices :: "(jstring \<times> jsnum) list \<Rightarrow> (jstring \<times> jsnum) list \<Rightarrow> (jstring \<times> jsnum) list" where
  "add_prices p q =
     fold (\<lambda>field. set_entry field (js_add (price_or_zero p field) (price_or_zero q field)))
       (map fst p @ map fst q) []"

definition scale_prices :: "(jstring \<times> jsnum) list \<Rightarrow> jsnum \<Rightarrow> (jstring \<times> jsnum) list" where
  "scale_prices prices factor = fold (\<lambda>(field, price). set_entry field (js_mul price factor)) prices []"

definition amount_ok :: "jsnum \<Rightarrow> bool" where
  "amount_ok x = (is_finite x \<and> js_le (Fin 0) x)"

text \<open>The constant and the prices of one pair of branches under an operator.\<close>

definition pair_amounts ::
  "jstring \<Rightarrow> price_branch \<Rightarrow> price_branch \<Rightarrow> (jsnum \<times> (jstring \<times> jsnum) list) option" where
  "pair_amounts operator a b =
     (let aQuantity = (pb_prices a \<noteq> []); bQuantity = (pb_prices b \<noteq> [])
      in if operator = js ''+''
         then Some (js_add (pb_constant a) (pb_constant b), add_prices (pb_prices a) (pb_prices b))
         else if aQuantity \<and> bQuantity \<or> operator = js ''/'' \<and> (bQuantity \<or> js_le (pb_constant b) (Fin 0))
         then None
         else let quantity = (if aQuantity then a else b);
                  factor = (if operator = js ''/'' then js_div (Fin 1) (pb_constant b)
                            else if aQuantity then pb_constant b else pb_constant a);
                  constant = (if operator = js ''/'' then js_div (pb_constant a) (pb_constant b)
                              else js_mul (pb_constant a) (pb_constant b))
              in Some (constant, scale_prices (pb_prices quantity) factor))"

definition combine_pair :: "jstring \<Rightarrow> price_branch \<Rightarrow> price_branch \<Rightarrow> price_branch option" where
  "combine_pair operator a b =
     (case pair_amounts operator a b of
        None \<Rightarrow> None
      | Some (constant, prices) \<Rightarrow>
          if \<not> list_all amount_ok (constant # map snd prices) then None
          else Some \<lparr>pb_label = (case pb_label a of Some l \<Rightarrow> Some l | None \<Rightarrow> pb_label b),
                     pb_constant = constant, pb_prices = prices,
                     pb_times = new_map (pb_times a @ pb_times b)\<rparr>)"

definition times_clash :: "price_branch \<Rightarrow> price_branch \<Rightarrow> bool" where
  "times_clash a b = list_ex (\<lambda>(key, val). map_of (pb_times b) key = Some (\<not> val)) (pb_times a)"

text \<open>The double loop over the branches of both sides.\<close>

fun product_loop ::
  "jstring \<Rightarrow> (price_branch \<times> price_branch) list \<Rightarrow> price_branch list \<Rightarrow> price_branch list option" where
  "product_loop operator [] branches = Some branches"
| "product_loop operator ((a, b) # pairs) branches =
     (if pb_label a \<noteq> None \<and> pb_label b \<noteq> None then None
      else if times_clash a b then product_loop operator pairs branches
      else (case combine_pair operator a b of
              None \<Rightarrow> None
            | Some c \<Rightarrow> product_loop operator pairs (branches @ [c])))"

definition combine_branches ::
  "jstring \<Rightarrow> price_branch list option \<Rightarrow> price_branch list option \<Rightarrow> price_branch list option" where
  "combine_branches operator left0 right0 =
     (case (left0, right0) of
        (Some ls, Some rs) \<Rightarrow>
          if MAX_DISPLAY_ROWS < length ls * length rs then None
          else product_loop operator (List.product ls rs) []
      | _ \<Rightarrow> None)"

definition split_branches ::
  "jstring \<Rightarrow> price_branch list \<Rightarrow> price_branch list \<Rightarrow> price_branch list option" where
  "split_branches condition yes no =
     (let branches = under_condition condition True yes @ under_condition condition False no
      in if length branches \<le> MAX_DISPLAY_ROWS then Some branches else None)"

definition is_linear :: "jstring \<Rightarrow> bool" where
  "is_linear operator = (operator = js ''+'' \<or> operator = js ''*'' \<or> operator = js ''/'')"

fun taskPriceBranches ::
  "task_display_context \<Rightarrow> expr \<Rightarrow> int \<Rightarrow> price_branch list option \<times> int" where
  "taskPriceBranches ctx (Literal v i a b) budget =
     (if budget - 1 < 0 then (None, budget - 1)
      else (case v of
              LNum x \<Rightarrow>
                if js_le (Fin 0) x
                then Some [\<lparr>pb_label = None, pb_constant = x, pb_prices = [], pb_times = []\<rparr>] else None
            | _ \<Rightarrow> None, budget - 1))"
| "taskPriceBranches ctx (Call f (Literal (LStr s) i a b # args) a' b') budget =
     (if budget - 1 < 0 then (None, budget - 1)
      else if f = js ''u'' then (unit_branch ctx s, budget - 1)
      else if f = js ''tier''
      then (case args of
              body # _ \<Rightarrow>
                (case taskPriceBranches ctx body (budget - 1) of
                   (branches, n) \<Rightarrow> (label_branches s branches, n))
            | [] \<Rightarrow> (None, budget - 1))
      else (None, budget - 1))"
| "taskPriceBranches ctx (Conditional c yes no a b) budget =
     (if budget - 1 < 0 then (None, budget - 1)
      else (case taskDisplayCondition ctx c (budget - 1) of
              (None, n) \<Rightarrow> (None, n)
            | (Some (Known condition), n) \<Rightarrow> taskPriceBranches ctx (if condition then yes else no) n
            | (Some (Open condition), n) \<Rightarrow>
                (case taskPriceBranches ctx yes n of
                   (None, m) \<Rightarrow> (None, m)
                 | (Some ys, m) \<Rightarrow>
                     (case taskPriceBranches ctx no m of
                        (None, k) \<Rightarrow> (None, k)
                      | (Some ns, k) \<Rightarrow> (split_branches condition ys ns, k)))))"
| "taskPriceBranches ctx (Binary operator l r a b) budget =
     (if budget - 1 < 0 then (None, budget - 1)
      else if is_linear operator
      then (case taskPriceBranches ctx l (budget - 1) of
              (left0, n) \<Rightarrow>
                (case taskPriceBranches ctx r n of
                   (right0, m) \<Rightarrow> (combine_branches operator left0 right0, m)))
      else (None, budget - 1))"
| "taskPriceBranches ctx _ budget = (None, budget - 1)"

section \<open>Rows\<close>

text \<open>The usage fields an expression reads, in postorder, and whether all of them are declared.\<close>

definition usage_visitor ::
  "usage_schema \<Rightarrow> expr \<Rightarrow> jstring list \<times> bool \<Rightarrow> thrown + (jstring list \<times> bool)" where
  "usage_visitor schema node s =
     (case node of
        Call f args a b \<Rightarrow>
          if f \<noteq> js ''u'' then Inr s
          else (case args of
                  [] \<Rightarrow> Inl missing_argument
                | Literal (LStr key) i k l # rest \<Rightarrow>
                    if key \<in> fst ` set schema then Inr (if key \<in> set (fst s) then fst s else fst s @ [key], snd s)
                    else Inr (fst s, False)
                | _ \<Rightarrow> Inr (fst s, False))
      | _ \<Rightarrow> Inr s)"

definition fact_values :: "usage_field \<Rightarrow> jsval list" where
  "fact_values def =
     (if uf_type def = Some (js ''boolean'') then [JBool False, JBool True]
      else map JStr (case uf_enum def of Some xs \<Rightarrow> xs | None \<Rightarrow> []))"

fun fact_combinations :: "usage_schema \<Rightarrow> jstring list \<Rightarrow> js_object list \<Rightarrow> js_object list option" where
  "fact_combinations schema [] combinations = Some combinations"
| "fact_combinations schema (field # fs) combinations =
     (case map_of schema field of
        None \<Rightarrow> None
      | Some def \<Rightarrow>
          if uf_type def = Some (js ''number'') then fact_combinations schema fs combinations
          else if fact_values def = [] \<or> MAX_DISPLAY_ROWS < length combinations * length (fact_values def)
          then None
          else fact_combinations schema fs
                 (concat (map (\<lambda>facts. map (\<lambda>v. set_entry field v facts) (fact_values def)) combinations)))"

record task_display_tier = task_tier +
  tk_condition_text :: "jstring option"

definition unit_prices ::
  "usage_schema \<Rightarrow> jstring list \<Rightarrow> price_branch \<Rightarrow> (jstring \<times> jsnum) list" where
  "unit_prices schema fs branch =
     concat (map (\<lambda>field.
       case map_of schema field of
         Some def \<Rightarrow>
           if uf_type def \<noteq> Some (js ''number'') \<or> \<not> text_truthy (uf_unit def) then []
           else [(field, js_mul (price_or_zero (pb_prices branch) field)
                    (if uf_unit def = Some (js ''token'') then Fin 1000000 else Fin 1))]
       | None \<Rightarrow> []) fs)"

definition times_text :: "(jstring \<times> bool) list \<Rightarrow> jstring" where
  "times_text ts =
     join (js '' && '') (map (\<lambda>(condition, matches).
       (if matches then js ''('' else js ''!('') @ condition @ js '')'') ts)"

definition fact_text :: "jsval \<Rightarrow> jstring" where
  "fact_text v = (case js_to_string v of Some s \<Rightarrow> s | None \<Rightarrow> [])"

definition branch_row ::
  "usage_schema \<Rightarrow> jstring list \<Rightarrow> js_object \<Rightarrow> price_branch \<Rightarrow> task_display_tier option" where
  "branch_row schema fs facts branch =
     (case pb_label branch of
        None \<Rightarrow> None
      | Some l \<Rightarrow>
          let unitPrices = unit_prices schema fs branch;
              conditionText = times_text (pb_times branch)
          in if unitPrices = [] \<or> \<not> list_all is_finite (map snd unitPrices) then None
             else Some \<lparr>tk_label = l,
                        tk_conditions = map (\<lambda>(f, v). (f, fact_text v)) (object_entries facts),
                        tk_constant = pb_constant branch, tk_unit_prices = unitPrices,
                        tk_condition_text = (if conditionText = [] then None else Some conditionText)\<rparr>)"

fun display_rows ::
  "jstring \<Rightarrow> usage_schema \<Rightarrow> jstring list \<Rightarrow> expr \<Rightarrow> js_object list \<Rightarrow> int \<Rightarrow> task_display_tier list
   \<Rightarrow> task_display_tier list option" where
  "display_rows source schema fs ast [] budget tiers = Some tiers"
| "display_rows source schema fs ast (facts # combinations) budget tiers =
     (case taskPriceBranches \<lparr>dc_source = source, dc_schema = schema, dc_facts = facts\<rparr> ast budget of
        (None, n) \<Rightarrow> None
      | (Some branches, n) \<Rightarrow>
          if MAX_DISPLAY_ROWS < length tiers + length branches then None
          else (case map_opt (branch_row schema fs facts) branches of
                  None \<Rightarrow> None
                | Some rows \<Rightarrow> display_rows source schema fs ast combinations n (tiers @ rows)))"

definition readConditionalTaskPricing ::
  "compiled_cache \<Rightarrow> jstring \<Rightarrow> usage_schema
   \<Rightarrow> (thrown + task_display_tier list option) \<times> compiled_cache" where
  "readConditionalTaskPricing cache source schema =
     (case compileBillingExpression cache source of
        (Failure f, cache') \<Rightarrow> (Inr None, cache')
      | (Ready compiled, cache') \<Rightarrow>
          (bnd (visitExpression (cb_ast compiled) (usage_visitor schema) ([], True)) (\<lambda>(fs, valid).
             if \<not> valid then Inr None
             else (case fact_combinations schema fs [[]] of
                     None \<Rightarrow> Inr None
                   | Some combinations \<Rightarrow>
                       Inr (display_rows source schema fs (cb_ast compiled) combinations 20000 []))), cache'))"

end
