(* ===== verification/Display_Correct.thy ===== *)
theory Display_Correct
  imports Expr_Display
begin

text \<open>
  What the display adapters show agrees with what the evaluator does.

  The two readers of tier chains, for tokens and for tasks, share the contract \<open>tier_reader\<close>: the
  conditions they read are the condition of the branch, and the tier they read is the one the
  evaluator records.  \<open>chain_selects\<close>, proved once from the contract, says that the tier the
  evaluator ends in is the first tier of the chain whose conditions hold.
\<close>

section \<open>Inverting the evaluator\<close>

lemma checked_value_Inr: "checked_value p r = Inr r' \<Longrightarrow> r' = r"
  by (auto simp: checked_value_def split: jsval.splits if_splits)

lemma evaluate_Inr:
  "evaluate env d node st = Inr r \<Longrightarrow> evaluateNode (evaluate env (d + 1)) env node st = Inr r"
  by (subst (asm) evaluate.simps) (auto split: if_splits dest!: checked_value_Inr)

lemma evaluate_Literal:
  "evaluate env d (Literal l i a b) st = Inr (v, st') \<Longrightarrow> v = \<lparr>rv_value = literal_value l, rv_integer = i\<rparr> \<and> st' = st"
  by (drule evaluate_Inr) (auto simp: evaluateNode_def)

lemma evaluate_Variable:
  "evaluate env d (Variable x a b) st = Inr (v, st') \<Longrightarrow>
   \<exists>n. variable_value (env_context env) x a = Inr n \<and> v = \<lparr>rv_value = JNum n, rv_integer = None\<rparr> \<and> st' = st"
  by (drule evaluate_Inr) (auto simp: evaluateNode_def)

lemma evaluate_Conditional:
  assumes "evaluate env d (Conditional c x y a b) st = Inr (v, st')"
  obtains t st1 where "boolean (evaluate env (d + 1)) c st = Inr (t, st1)"
    "evaluate env (d + 1) (if t then x else y)
       (mark_rule (env_rules env) (Conditional c x y a b) t st1) = Inr (v, st')"
  using evaluate_Inr [OF assms] by (auto simp: evaluateNode_def)

lemma evaluate_Binary:
  "evaluate env d (Binary f x y a b) st = Inr (v, st') \<Longrightarrow>
   binary (evaluate env (d + 1)) f x y a st = Inr (v, st')"
  by (drule evaluate_Inr) (simp add: evaluateNode_def)

lemma boolean_Inr:
  "boolean ev c st = Inr (t, st') \<longleftrightarrow> (\<exists>i. ev c st = Inr (\<lparr>rv_value = JBool t, rv_integer = i\<rparr>, st'))"
  by (cases "ev c st") (auto simp: boolean_def split: jsval.splits, metis runtime_value.surjective old.unit.exhaust)

text \<open>The value of a token count; \<open>0\<close> when the context has none.\<close>

definition token_count :: "runtime_env \<Rightarrow> jstring \<Rightarrow> jsnum" where
  "token_count env x = (case variable_value (env_context env) x 0 of Inr n \<Rightarrow> n | Inl _ \<Rightarrow> Fin 0)"

lemma variable_value_pos:
  "variable_value ctx x p = Inr n \<Longrightarrow> variable_value ctx x q = Inr n"
  by (auto simp: variable_value_def Let_def split: if_splits option.splits jsval.splits)

lemma token_count: "variable_value (env_context env) x p = Inr n \<Longrightarrow> token_count env x = n"
  by (auto simp: token_count_def dest: variable_value_pos [where q = 0])

lemma evaluate_tier:
  assumes "evaluate env d (Call (js ''tier'') (Literal (LStr l) i a b # body # rest) a' b') st = Inr (v, st')"
  obtains w j st1 where "evaluate env (d + 1) body st = Inr (\<lparr>rv_value = JNum w, rv_integer = j\<rparr>, st1)"
    "v = \<lparr>rv_value = JNum w, rv_integer = None\<rparr>" "st' = st1\<lparr>rt_tier := l\<rparr>"
proof -
  from evaluate_Inr [OF assms] obtain n s1 w j s2 where
    n: "string_value (evaluate env (d + 1)) (Literal (LStr l) i a b) st = Inr (n, s1)"
    and w: "numeric (evaluate env (d + 1)) body s1 = Inr ((w, j), s2)"
    and v: "v = \<lparr>rv_value = JNum w, rv_integer = None\<rparr>" "st' = s2\<lparr>rt_tier := n\<rparr>"
    by (auto simp: evaluateNode_def call_def call_tier_def with_arg_def)
  from n have "n = l" "s1 = st"
    by (auto simp: string_value_def dest: evaluate_Literal)
  moreover from w obtain u where "evaluate env (d + 1) body s1 = Inr (u, s2)" "rv_value u = JNum w" "rv_integer u = j"
    by (auto simp: numeric_def split: jsval.splits)
  ultimately show ?thesis using that [of w j s2] v by (cases u) auto
qed

section \<open>The contract of a tier reader\<close>

locale tier_reader =
  fixes conds :: "expr \<Rightarrow> 'c list option option"
    and tier :: "expr \<Rightarrow> 'c list \<Rightarrow> 't option"
    and chain :: "expr \<Rightarrow> 't list \<Rightarrow> 't list option"
    and holds :: "runtime_env \<Rightarrow> 'c \<Rightarrow> bool"
    and label :: "'t \<Rightarrow> jstring"
    and guards :: "'t \<Rightarrow> 'c list"
    and admissible :: "runtime_env \<Rightarrow> bool"
  assumes chain_if: "chain (Conditional c x y a b) ts =
      (case conds c of
         None \<Rightarrow> None
       | Some None \<Rightarrow> chain y ts
       | Some (Some cs) \<Rightarrow> (case tier x cs of None \<Rightarrow> None | Some t \<Rightarrow> chain y (ts @ [t])))"
    and chain_leaf: "(\<And>c x y a b. e \<noteq> Conditional c x y a b) \<Longrightarrow>
      chain e ts = (case tier e [] of None \<Rightarrow> None | Some t \<Rightarrow> Some (ts @ [t]))"
    and conds_sound: "conds c = Some (Some cs) \<Longrightarrow> boolean (evaluate env d) c st = Inr (z, st') \<Longrightarrow>
      z = list_all (holds env) cs"
    and conds_unreachable: "conds c = Some None \<Longrightarrow> admissible env \<Longrightarrow>
      boolean (evaluate env d) c st = Inr (z, st') \<Longrightarrow> \<not> z"
    and tier_sound: "tier e cs = Some t \<Longrightarrow> evaluate env d e st = Inr (v, st') \<Longrightarrow> rt_tier st' = label t"
    and tier_guards: "tier e cs = Some t \<Longrightarrow> guards t = cs"
begin

definition applies :: "runtime_env \<Rightarrow> 't \<Rightarrow> bool" where
  "applies env t \<longleftrightarrow> list_all (holds env) (guards t)"

lemma chain_extends: "chain e ts = Some us \<Longrightarrow> \<exists>vs. us = ts @ vs"
proof (induction e arbitrary: ts)
  case (Conditional c x y a b)
  then show ?case
    by (auto simp: chain_if split: option.splits) (metis append.assoc)
qed (auto simp: chain_leaf split: option.splits)

lemma leaf_selects:
  assumes "\<And>c x y a b. e \<noteq> Conditional c x y a b"
    and "chain e ts = Some us" and "evaluate env d e st = Inr (v, st')"
  shows "\<exists>vs t. us = ts @ vs \<and> find (applies env) vs = Some t \<and> rt_tier st' = label t"
proof -
  from assms(1, 2) obtain t where t: "tier e [] = Some t" "us = ts @ [t]"
    by (auto simp: chain_leaf split: option.splits)
  with tier_guards [OF t(1)] tier_sound [OF t(1) assms(3)] show ?thesis
    by (intro exI [of _ "[t]"] exI [of _ t]) (simp add: applies_def)
qed

lemma chain_selects:
  "chain e ts = Some us \<Longrightarrow> admissible env \<Longrightarrow> evaluate env d e st = Inr (v, st') \<Longrightarrow>
   \<exists>vs t. us = ts @ vs \<and> find (applies env) vs = Some t \<and> rt_tier st' = label t"
proof (induction e arbitrary: ts d st)
  case (Conditional c x y a b)
  from Conditional.prems(3) obtain t st1 where t: "boolean (evaluate env (d + 1)) c st = Inr (t, st1)"
    and run: "evaluate env (d + 1) (if t then x else y)
       (mark_rule (env_rules env) (Conditional c x y a b) t st1) = Inr (v, st')"
    by (rule evaluate_Conditional)
  show ?case
  proof (cases "conds c")
    case (Some r)
    show ?thesis
    proof (cases r)
      case None
      with conds_unreachable [OF _ Conditional.prems(2) t] \<open>conds c = Some r\<close> have "\<not> t" by simp
      with run have y: "evaluate env (d + 1) y
         (mark_rule (env_rules env) (Conditional c x y a b) t st1) = Inr (v, st')" by simp
      from None \<open>conds c = Some r\<close> Conditional.prems(1) have "chain y ts = Some us" by (simp add: chain_if)
      from Conditional.IH(3) [OF this Conditional.prems(2) y] show ?thesis .
    next
      case (Some cs)
      with \<open>conds c = Some r\<close> Conditional.prems(1) obtain u where u: "tier x cs = Some u"
        and us: "chain y (ts @ [u]) = Some us"
        by (auto simp: chain_if split: option.splits)
      have appl: "applies env u \<longleftrightarrow> t"
        using conds_sound [OF _ t] Some \<open>conds c = Some r\<close> tier_guards [OF u] by (simp add: applies_def)
      from chain_extends [OF us] have rest: "\<exists>vs. us = ts @ u # vs" by simp
      show ?thesis
      proof (cases t)
        case True
        with run tier_sound [OF u] have "rt_tier st' = label u" by simp
        with True appl rest show ?thesis by fastforce
      next
        case False
        with run have "\<exists>vs t. us = (ts @ [u]) @ vs \<and> find (applies env) vs = Some t \<and> rt_tier st' = label t"
          by (intro Conditional.IH(3) [OF us Conditional.prems(2)]) simp
        with False appl show ?thesis by fastforce
      qed
    qed
  qed (use Conditional.prems in \<open>simp add: chain_if\<close>)
qed (rule leaf_selects; simp)+

end

section \<open>Token tiers\<close>

definition token_holds :: "runtime_env \<Rightarrow> token_condition \<Rightarrow> bool" where
  "token_holds env c =
     (comparison (tc_op c) (JNum (token_count env (tc_var c))) (JNum (tc_value c)) = Some True)"

lemma token_condition_sound:
  assumes "token_condition_of e = Some c" and "evaluate env d e st = Inr (v, st')"
  shows "rv_value v = JBool (token_holds env c)"
proof -
  from assms(1) obtain f x a b w i a' b' a'' b'' where
    e: "e = Binary f (Variable x a b) (Literal (LNum w) i a' b') a'' b''"
    and f: "f \<in> set relational_operators" and c: "c = \<lparr>tc_var = x, tc_op = f, tc_value = w\<rparr>"
    by (auto elim!: token_condition_of.elims split: if_splits)
  from f have ne: "f \<noteq> js ''&&''" "f \<noteq> js ''||''" "f \<noteq> js ''==''" "f \<noteq> js ''!=''" "f \<noteq> js ''+''"
    by (auto simp: relational_operators_def)
  from evaluate_Binary [OF assms(2) [unfolded e]] ne obtain n where
    n: "variable_value (env_context env) x a = Inr n"
    and r: "binary_values f \<lparr>rv_value = JNum n, rv_integer = None\<rparr> \<lparr>rv_value = JNum w, rv_integer = i\<rparr> a'' = Inr v"
    by (auto simp: binary_def dest!: evaluate_Variable evaluate_Literal)
  have "comparison f (JNum n) (JNum w) \<noteq> None"
    using f by (auto simp: comparison_def relational_operators_def)
  with r ne show ?thesis
    by (auto simp: binary_values_def concatenation_def c token_holds_def token_count [OF n])
qed

text \<open>A conjunction is flattened in the order in which the evaluator tests it.\<close>

lemma map_opt_append:
  "map_opt f (xs @ ys) = Some zs \<Longrightarrow> \<exists>us vs. map_opt f xs = Some us \<and> map_opt f ys = Some vs \<and> zs = us @ vs"
  by (induction xs arbitrary: zs) (force split: option.splits)+

lemma flatten_leaf: "(\<And>l r a b. e \<noteq> Binary f l r a b) \<Longrightarrow> flattenBinary e f = [e]"
  by (cases e) auto

text \<open>A conjunction is true when all of its parts hold; \<open>I\<close> is what the parts rely on in the state.\<close>

lemma conjunction_sound_under:
  assumes leaf: "\<And>e c d st v st'. read e = Some c \<Longrightarrow> I st \<Longrightarrow> evaluate env d e st = Inr (v, st') \<Longrightarrow>
      rv_value v = JBool (h c)"
    and keep: "\<And>e d st v st'. I st \<Longrightarrow> evaluate env d e st = Inr (v, st') \<Longrightarrow> I st'"
  shows "map_opt read (flattenBinary e (js ''&&'')) = Some cs \<Longrightarrow> I st \<Longrightarrow>
    boolean (evaluate env d) e st = Inr (t, st') \<Longrightarrow> t = list_all h cs"
proof (induction e arbitrary: cs d st t st')
  case (Binary f l r a b)
  show ?case
  proof (cases "f = js ''&&''")
    case True
    from Binary.prems(1) True obtain us vs where us: "map_opt read (flattenBinary l (js ''&&'')) = Some us"
      and vs: "map_opt read (flattenBinary r (js ''&&'')) = Some vs" and cs: "cs = us @ vs"
      by (auto dest!: map_opt_append)
    from Binary.prems(3) obtain i where
      "evaluate env d (Binary f l r a b) st = Inr (\<lparr>rv_value = JBool t, rv_integer = i\<rparr>, st')"
      by (auto simp: boolean_Inr)
    from evaluate_Binary [OF this] True obtain u s1 where
      u: "boolean (evaluate env (d + 1)) l st = Inr (u, s1)"
      and rest: "if u then boolean (evaluate env (d + 1)) r s1 = Inr (t, st') else \<not> t"
      by (auto simp: binary_def split: if_splits)
    from u have "I s1" using keep [OF Binary.prems(2)] by (auto simp: boolean_Inr)
    with Binary.IH(1) [OF us Binary.prems(2) u] Binary.IH(2) [OF vs] rest show ?thesis
      by (auto simp: cs split: if_splits)
  next
    case False
    with Binary.prems show ?thesis
      by (auto simp: boolean_Inr split: option.splits dest!: leaf)
  qed
qed (auto simp: boolean_Inr split: option.splits dest!: leaf)

lemma conjunction_sound:
  assumes leaf: "\<And>e c d st v st'. read e = Some c \<Longrightarrow> evaluate env d e st = Inr (v, st') \<Longrightarrow>
      rv_value v = JBool (h c)"
  shows "map_opt read (flattenBinary e (js ''&&'')) = Some cs \<Longrightarrow>
    boolean (evaluate env d) e st = Inr (t, st') \<Longrightarrow> t = list_all h cs"
  by (rule conjunction_sound_under [where I = "\<lambda>_. True"]) (auto dest: leaf)

lemma tokenTier_shape:
  assumes "tokenTier e cs = Some t"
  obtains l i a b body rest a' b' where "e = Call (js ''tier'') (Literal (LStr l) i a b # body # rest) a' b'"
    "tt_label t = l" "tt_conditions t = cs" "tt_condition_text t = None"
    "tt_fixed t = fixed_price_of body"
    "fixed_price_of body = None \<Longrightarrow> price_terms (flattenBinary body (js ''+'')) [] = Some (tt_prices t)"
proof (cases "(e, cs)" rule: tokenTier.cases)
  case (1 f l i a b body rest a' b' conditions)
  with assms show ?thesis
    by (intro that [of l i a b body rest a' b'])
      (auto simp: plain_tier_def split: if_splits option.splits)
qed (use assms in simp_all)

interpretation token_chain: tier_reader "\<lambda>e. map_option Some (tokenConditions e)" tokenTier tier_chain
  token_holds tt_label tt_conditions "\<lambda>env. True"
proof
  fix c cs env d st z st'
  assume "map_option Some (tokenConditions c) = Some (Some cs)"
    and "boolean (evaluate env d) c st = Inr (z, st')"
  then show "z = list_all (token_holds env) cs"
    using conjunction_sound [of token_condition_of env "token_holds env"] token_condition_sound
    by (auto simp: tokenConditions_def)
next
  fix e cs t env d st v st'
  assume "tokenTier e cs = Some t" and "evaluate env d e st = Inr (v, st')"
  then show "rt_tier st' = tt_label t" by (auto elim!: tokenTier_shape evaluate_tier)
next
  fix e cs t
  assume "tokenTier e cs = Some t"
  then show "tt_conditions t = cs" by (rule tokenTier_shape)
next
  fix e ts
  assume "\<And>c x y a b. e \<noteq> Conditional c x y a b"
  then show "tier_chain e ts = (case tokenTier e [] of None \<Rightarrow> None | Some t \<Rightarrow> Some (ts @ [t]))"
    by (cases e) (simp_all del: expr.inject, blast)
qed (auto split: option.splits)

text \<open>A factor \<open>image_count\<close> does not change the tier.\<close>

lemma evaluate_image_factor:
  assumes "image_pricing e = Some x" and "evaluate env d e st = Inr (v, st')"
  shows "\<exists>w. evaluate env (d + 1) x st = Inr (w, st')"
proof -
  have var: "evaluate env (d + 1) y st = Inr (w, s) \<Longrightarrow> s = st" if "is_variable n y" for n y st w s
    using that by (cases y) (auto dest: evaluate_Variable)
  from assms(1) obtain l r a b where e: "e = Binary (js ''*'') l r a b"
    and side: "is_variable ''image_count'' l \<and> x = r \<or> is_variable ''image_count'' r \<and> x = l"
    by (cases e) (auto split: if_splits)
  from evaluate_Binary [OF assms(2) [unfolded e]] side show ?thesis
    by (auto simp: binary_def dest: var)
qed

lemma find_map_label:
  "find P (map f xs) = Some t \<longleftrightarrow> (\<exists>u. find (\<lambda>x. P (f x)) xs = Some u \<and> t = f u)"
  by (induction xs) auto

lemma chain_evaluates:
  "readTokenTierChain e = Some tiers \<Longrightarrow> \<forall>t \<in> set tiers. tt_condition_text t = None \<Longrightarrow>
   evaluate env d e st = Inr (v, st') \<Longrightarrow>
   \<exists>t. find (\<lambda>t. list_all (token_holds env) (tt_conditions t)) tiers = Some t \<and> rt_tier st' = tt_label t"
proof (induction e arbitrary: tiers d v rule: readTokenTierChain.induct)
  case (1 e)
  show ?case
  proof (cases "audio_tiers e")
    case (Some ts)
    then have "\<exists>t \<in> set ts. tt_condition_text t \<noteq> None"
      by (cases e) (auto split: if_splits option.splits)
    with Some "1.prems" show ?thesis by (simp add: readTokenTierChain.simps [of e])
  next
    case None
    show ?thesis
    proof (cases "image_pricing e")
      case (Some x)
      with None "1.prems"(1) obtain us where us: "readTokenTierChain x = Some us"
        and tiers: "tiers = map (\<lambda>t. t\<lparr>tt_image_count := True\<rparr>) us"
        by (auto simp: readTokenTierChain.simps [of e])
      from evaluate_image_factor [OF Some "1.prems"(3)] obtain w where
        w: "evaluate env (d + 1) x st = Inr (w, st')" by blast
      have "\<forall>t \<in> set us. tt_condition_text t = None" using "1.prems"(2) tiers by simp
      from "1.IH" [OF None Some us this w] show ?thesis
        by (auto simp: tiers find_map_label)
    next
      case no_image: None
      with None "1.prems"(1) have "tier_chain e [] = Some tiers" by (simp add: readTokenTierChain.simps [of e])
      from token_chain.chain_selects [OF this _ "1.prems"(3)] show ?thesis
        by (simp add: token_chain.applies_def [abs_def])
    qed
  qed
qed


definition two_tiers :: expr where
  "two_tiers = projr (parse (js ''p<=2?tier(\"a\",p*2):tier(\"b\",p*4)''))"

definition four_tokens :: runtime_env where
  "four_tokens = plain_env\<lparr>env_context := tokens_context [(''p'', 4)]\<rparr>"


section \<open>No price is left out\<close>

lemma price_terms_spec:
  "price_terms ts ps = Some qs \<Longrightarrow> distinct (map fst ps) \<Longrightarrow>
   \<exists>rs. qs = ps @ rs \<and> map price_term ts = map Some rs \<and> distinct (map fst qs)"
proof (induction ts arbitrary: ps)
  case (Cons t ts)
  then show ?case by (fastforce split: option.splits if_splits)
qed simp

lemma nonnegativePriceLiteral_nonneg: "nonnegativePriceLiteral e = Some x \<Longrightarrow> js_le (Fin 0) x"
  by (cases e rule: nonnegativePriceLiteral.cases) (auto split: if_splits simp: js_le_def js_eq_def is_finite_def fval_def)

lemma price_term_nonneg: "price_term e = Some (v, x) \<Longrightarrow> js_le (Fin 0) x"
  by (cases e) (auto split: if_splits option.splits dest: nonnegativePriceLiteral_nonneg)

lemma tokenTier_complete:
  assumes "tokenTier (Call f [Literal (LStr l) i a b, body] a' b') cs = Some t"
  shows "(case fixed_price_of body of
       Some x \<Rightarrow> tt_fixed t = Some x \<and> tt_unit t = Some Unit_request \<and> tt_prices t = []
     | None \<Rightarrow> map price_term (flattenBinary body (js ''+'')) = map Some (tt_prices t)
         \<and> distinct (map fst (tt_prices t)) \<and> (\<forall>(v, x) \<in> set (tt_prices t). js_le (Fin 0) x))"
proof (cases "fixed_price_of body")
  case None
  with assms have "price_terms (flattenBinary body (js ''+'')) [] = Some (tt_prices t)"
    by (auto simp: plain_tier_def split: if_splits option.splits)
  from price_terms_spec [OF this] have m: "map price_term (flattenBinary body (js ''+'')) = map Some (tt_prices t)"
    "distinct (map fst (tt_prices t))" by auto
  have "js_le (Fin 0) x" if "(v, x) \<in> set (tt_prices t)" for v x
  proof -
    from that have "Some (v, x) \<in> set (map Some (tt_prices t))" by simp
    then have "Some (v, x) \<in> price_term ` set (flattenBinary body (js ''+''))" by (simp flip: m(1) del: set_map add: image_set)
    then show ?thesis by (auto dest!: sym [of "Some _"] price_term_nonneg)
  qed
  with m None show ?thesis by auto
qed (use assms in \<open>auto simp: plain_tier_def split: if_splits\<close>)

text \<open>
  C19. The prices of a token tier are all there: either the tier is a fixed price, or every term of the
  sum is one displayed price, in order, every variable is priced once and no price is negative.
  Nothing is dropped from the sum.
\<close>

theorem tokenTier_prices:
  "tokenTier (Call f [Literal (LStr l) i a b, body] a' b') cs = Some t \<Longrightarrow>
   (case fixed_price_of body of
      Some x \<Rightarrow> tt_fixed t = Some x \<and> tt_unit t = Some Unit_request \<and> tt_prices t = []
    | None \<Rightarrow> map price_term (flattenBinary body (js ''+'')) = map Some (tt_prices t)
        \<and> distinct (map fst (tt_prices t)) \<and> (\<forall>(v, x) \<in> set (tt_prices t). js_le (Fin 0) x))"
  by (rule tokenTier_complete)

theorem tokenTier_prices_witness:
  "let body = projr (parse (js ''p*2+c*4''))
   in \<exists>t. tokenTier (Call (js ''tier'') [Literal (LStr (js ''a'')) None 0 0, body] 0 0) [] = Some t
        \<and> map price_term (flattenBinary body (js ''+'')) = map Some (tt_prices t)
        \<and> distinct (map fst (tt_prices t))"
proof -
  let ?body = "projr (parse (js ''p*2+c*4''))"
  let ?e = "Call (js ''tier'') [Literal (LStr (js ''a'')) None 0 0, ?body] 0 0"
  have "tokenTier ?e [] \<noteq> None \<and> fixed_price_of ?body = None" by code_simp
  then obtain t where t: "tokenTier ?e [] = Some t" and f: "fixed_price_of ?body = None" by auto
  from tokenTier_prices [OF t] f t show ?thesis by (simp add: Let_def)
qed

section \<open>Task tiers\<close>

definition usage_of :: "runtime_env \<Rightarrow> jstring \<Rightarrow> jsval" where
  "usage_of env field =
     (case ctx_usage (env_context env) of
        None \<Rightarrow> JNull
      | Some usage \<Rightarrow> (case map_of usage field of Some v \<Rightarrow> v | None \<Rightarrow> JNull))"

definition boolean_field :: "usage_schema \<Rightarrow> jstring \<Rightarrow> bool" where
  "boolean_field schema field =
     (case map_of schema field of Some def \<Rightarrow> uf_type def = Some (js ''boolean'') | None \<Rightarrow> False)"

definition task_holds :: "usage_schema \<Rightarrow> runtime_env \<Rightarrow> jstring \<times> jstring \<Rightarrow> bool" where
  "task_holds schema env c =
     (usage_of env (fst c) =
        (if boolean_field schema (fst c) then JBool (snd c = js ''true'') else JStr (snd c)))"

text \<open>Usage that the schema allows: an enumerated field has one of the declared values.\<close>

definition usage_conforms :: "usage_schema \<Rightarrow> runtime_env \<Rightarrow> bool" where
  "usage_conforms schema env =
     list_all (\<lambda>(field, def). case (uf_enum def, usage_of env field) of
        (Some xs, JStr x) \<Rightarrow> x \<in> set xs | _ \<Rightarrow> True) schema"

lemma evaluate_usage:
  assumes "evaluate env d (Call (js ''u'') (Literal (LStr field) i a b # rest) a' b') st = Inr (v, st')"
  shows "v = \<lparr>rv_value = usage_of env field, rv_integer = None\<rparr>"
  using evaluate_Inr [OF assms]
  by (auto simp: evaluateNode_def call_def call_u_def with_arg_def string_value_def usage_of_def
      split: option.splits dest!: evaluate_Literal)

lemma task_condition_shape:
  assumes "task_condition_of schema ib e \<noteq> Task_reject"
  obtains f i a b rest a' b' w j c d c' d' where
    "e = Binary (js ''=='') (Call (js ''u'') (Literal (LStr f) i a b # rest) a' b') (Literal w j c d) c' d'"
    "if boolean_field schema f
     then \<exists>x. w = LBool x \<and> task_condition_of schema ib e = Task_ok (f, boolean_text x)
     else \<exists>x def xs. w = LStr x \<and> map_of schema f = Some def \<and> uf_enum def = Some xs
       \<and> task_condition_of schema ib e = (if x \<in> set xs then Task_ok (f, x) else Task_unreachable (f, x))"
proof (cases "(schema, ib, e)" rule: task_condition_of.cases)
  case (1 schema' ib' f g field i a b rest a' b' v j c d c' d')
  with assms show ?thesis
    by (intro that [of field i a b rest a' b' v j c d c' d'])
      (auto simp: boolean_field_def split: if_splits lit_value.splits option.splits)
qed (use assms in simp_all)

lemma strict_equal_literal:
  "strict_equal u (JStr x) \<longleftrightarrow> u = JStr x" "strict_equal u (JBool y) \<longleftrightarrow> u = JBool y"
  by (cases u; auto)+

text \<open>A term of a task condition, with the flag whether the schema still declares its value.\<close>

definition read_task :: "usage_schema \<Rightarrow> bool \<Rightarrow> expr \<Rightarrow> ((jstring \<times> jstring) \<times> bool) option" where
  "read_task schema ib e =
     (case task_condition_of schema ib e of
        Task_reject \<Rightarrow> None | Task_ok c \<Rightarrow> Some (c, True) | Task_unreachable c \<Rightarrow> Some (c, False))"

lemma task_loop:
  "task_condition_loop schema ib ts cs reachable =
     map_option (\<lambda>rs. if reachable \<and> list_all snd rs then Some (cs @ map fst rs) else None)
       (map_opt (read_task schema ib) ts)"
  by (induction ts arbitrary: cs reachable)
    (auto simp: read_task_def option.map_comp comp_def split: task_condition.splits option.splits intro!: option.map_cong)

lemma read_task_sound:
  assumes "read_task schema ib e = Some (c, ok)" and "evaluate env d e st = Inr (v, st')"
  shows "rv_value v = JBool (task_holds schema env c)"
proof -
  from assms(1) have "task_condition_of schema ib e \<noteq> Task_reject" by (auto simp: read_task_def)
  then obtain f i a b rest a' b' w j p q p' q' where
    e: "e = Binary (js ''=='') (Call (js ''u'') (Literal (LStr f) i a b # rest) a' b') (Literal w j p q) p' q'"
    and w: "if boolean_field schema f
     then \<exists>x. w = LBool x \<and> task_condition_of schema ib e = Task_ok (f, boolean_text x)
     else \<exists>x def xs. w = LStr x \<and> map_of schema f = Some def \<and> uf_enum def = Some xs
       \<and> task_condition_of schema ib e = (if x \<in> set xs then Task_ok (f, x) else Task_unreachable (f, x))"
    by (rule task_condition_shape)
  from evaluate_Binary [OF assms(2) [unfolded e]] have
    "equality (js ''=='') (usage_of env f) (literal_value w) p' = Inr v"
    by (auto simp: binary_def binary_values_def dest!: evaluate_usage evaluate_Literal)
  then have v: "rv_value v = JBool (strict_equal (usage_of env f) (literal_value w))"
    by (auto simp: equality_def split: if_splits)
  show ?thesis
    using w assms(1) v
    by (auto simp: read_task_def task_holds_def strict_equal_literal boolean_text_def split: if_splits)
qed

lemma task_conjunction:
  assumes "map_opt (read_task schema ib) (flattenBinary e (js ''&&'')) = Some rs"
    and "boolean (evaluate env d) e st = Inr (z, st')"
  shows "z = list_all (\<lambda>r. task_holds schema env (fst r)) rs"
proof (rule conjunction_sound [OF _ assms])
  fix e c d st v st'
  assume "read_task schema ib e = Some c" and "evaluate env d e st = Inr (v, st')"
  then show "rv_value v = JBool (task_holds schema env (fst c))"
    by (cases c) (auto dest: read_task_sound)
qed

lemma read_task_unreachable:
  assumes "read_task schema ib e = Some (c, False)" and "usage_conforms schema env"
  shows "\<not> task_holds schema env c"
proof -
  from assms(1) have "task_condition_of schema ib e \<noteq> Task_reject" by (auto simp: read_task_def)
  then show ?thesis
  proof (rule task_condition_shape, goal_cases)
    case (1 f i a b rest a' b' w j p q p' q')
    then obtain def xs where "map_of schema f = Some def" "uf_enum def = Some xs" "c = (f, snd c)"
      "snd c \<notin> set xs" "\<not> boolean_field schema f"
      using assms(1) by (auto simp: read_task_def split: if_splits)
    moreover from this(1) assms(2) have "case (uf_enum def, usage_of env f) of (Some xs, JStr x) \<Rightarrow> x \<in> set xs | _ \<Rightarrow> True"
      by (auto simp: usage_conforms_def list_all_iff dest: map_of_SomeD)
    ultimately show ?thesis by (metis (no_types, lifting) fst_conv jsval.simps option.simps(5) case_prod_conv task_holds_def)
  qed
qed

lemma taskTier_shape:
  assumes "taskTier e cs schema = Some t"
  obtains l i a b body rest a' b' where "e = Call (js ''tier'') (Literal (LStr l) i a b # body # rest) a' b'"
    "tk_label t = l" "tk_conditions t = cs"
proof (cases "(e, cs, schema)" rule: taskTier.cases)
  case (1 f l i a b body rest a' b' conditions)
  with assms show ?thesis
    by (intro that [of l i a b body rest a' b']) (auto split: if_splits option.splits)
qed (use assms in simp_all)

lemma map_opt_set: "map_opt f xs = Some ys \<Longrightarrow> y \<in> set ys \<Longrightarrow> \<exists>x. f x = Some y"
  by (induction xs arbitrary: ys) (auto split: option.splits)

interpretation task_chain_reader: tier_reader "\<lambda>e. taskConditions e schema ib" "\<lambda>e cs. taskTier e cs schema"
  "task_chain schema ib" "task_holds schema" tk_label tk_conditions "usage_conforms schema" for schema ib
proof
  fix c cs env d st z st'
  assume c: "taskConditions c schema ib = Some (Some cs)"
    and run: "boolean (evaluate env d) c st = Inr (z, st')"
  from c obtain rs where rs: "map_opt (read_task schema ib) (flattenBinary c (js ''&&'')) = Some rs"
    and cs: "cs = map fst rs"
    by (auto simp: taskConditions_def task_loop split: if_splits)
  from task_conjunction [OF rs run] show "z = list_all (task_holds schema env) cs"
    by (simp add: cs list_all_iff)
next
  fix c env d st z st'
  assume c: "taskConditions c schema ib = Some None" and ok: "usage_conforms schema env"
    and run: "boolean (evaluate env d) c st = Inr (z, st')"
  from c obtain rs where rs: "map_opt (read_task schema ib) (flattenBinary c (js ''&&'')) = Some rs"
    and bad: "\<not> list_all snd rs"
    by (auto simp: taskConditions_def task_loop split: if_splits)
  from bad obtain r where r: "(r, False) \<in> set rs" by (auto simp: list_all_iff)
  with map_opt_set [OF rs] read_task_unreachable ok have "\<not> task_holds schema env r" by blast
  with task_conjunction [OF rs run] r show "\<not> z"
    by (force simp: list_all_iff)
next
  fix e cs t env d st v st'
  assume "taskTier e cs schema = Some t" and "evaluate env d e st = Inr (v, st')"
  then show "rt_tier st' = tk_label t" by (auto elim!: taskTier_shape evaluate_tier)
next
  fix e cs t
  assume "taskTier e cs schema = Some t"
  then show "tk_conditions t = cs" by (rule taskTier_shape)
next
  fix e ts
  assume "\<And>c x y a b. e \<noteq> Conditional c x y a b"
  then show "task_chain schema ib e ts = (case taskTier e [] schema of None \<Rightarrow> None | Some t \<Rightarrow> Some (ts @ [t]))"
    by (cases e) (simp_all del: expr.inject, blast)
qed simp

text \<open>
  C20. The task tiers shown are the tiers charged, also after the schema was narrowed: a branch on an
  enum value that the schema no longer declares is left out of the chain, and for usage that the
  schema allows the tier the evaluator reports is the first shown tier whose conditions hold.
\<close>

theorem readTaskTierChain_selects:
  "readTaskTierChain e schema ib = Some tiers \<Longrightarrow> usage_conforms schema env \<Longrightarrow>
   evaluate env d e st = Inr (v, st') \<Longrightarrow>
   \<exists>t. find (\<lambda>t. list_all (task_holds schema env) (tk_conditions t)) tiers = Some t \<and> rt_tier st' = tk_label t"
  using task_chain_reader.chain_selects [of schema ib e "[]" tiers env d st v st']
  by (simp add: readTaskTierChain_def task_chain_reader.applies_def [abs_def])

definition size_schema :: usage_schema where
  "size_schema =
     [(js ''size'', \<lparr>uf_type = None, uf_unit = None, uf_enum = Some [js ''hd'']\<rparr>),
      (js ''sec'', \<lparr>uf_type = Some (js ''number''), uf_unit = Some (js ''second''), uf_enum = None\<rparr>)]"

definition sized_task :: expr where
  "sized_task = projr (parse (js ''u(\"size\")==\"sd\"?tier(\"s\",u(\"sec\")*1):tier(\"h\",u(\"sec\")*2)''))"

definition hd_env :: runtime_env where
  "hd_env = plain_env\<lparr>env_context := (tokens_context [])\<lparr>ctx_usage :=
     Some [(js ''size'', JStr (js ''hd'')), (js ''sec'', JNum (Fin 4))]\<rparr>\<rparr>"

theorem readTaskTierChain_selects_witness:
  "\<exists>v st' tiers t. evaluate hd_env 0 sized_task (initial_state []) = Inr (v, st')
     \<and> readTaskTierChain sized_task size_schema False = Some tiers \<and> length tiers = 1
     \<and> find (\<lambda>t. list_all (task_holds size_schema hd_env) (tk_conditions t)) tiers = Some t
     \<and> rt_tier st' = tk_label t"
proof -
  have "\<not> isl (evaluate hd_env 0 sized_task (initial_state []))" by code_simp
  then obtain v st' where r: "evaluate hd_env 0 sized_task (initial_state []) = Inr (v, st')"
    by (cases "evaluate hd_env 0 sized_task (initial_state [])") auto
  have "case readTaskTierChain sized_task size_schema False of None \<Rightarrow> False | Some tiers \<Rightarrow> length tiers = 1"
    by code_simp
  then obtain tiers where t: "readTaskTierChain sized_task size_schema False = Some tiers" "length tiers = 1"
    by (auto split: option.splits)
  have c: "usage_conforms size_schema hd_env" by code_simp
  from readTaskTierChain_selects [OF t(1) c r] t r show ?thesis by blast
qed

section \<open>Prices by time\<close>

definition on_path :: "host \<Rightarrow> compiled_expression \<Rightarrow> date \<Rightarrow> (expr \<times> bool) list \<Rightarrow> bool" where
  "on_path h c now path = list_all (\<lambda>(e, m). evaluateBillingCondition h c e now = Some m) path"

lemma current_tiers_on_path: "current_tiers h c now ts = filter (\<lambda>t. on_path h c now (tm_path t)) ts"
  by (simp add: current_tiers_def on_path_def)

lemma on_path_snoc: "on_path h c now (p @ [(e, m)]) \<longleftrightarrow> on_path h c now p \<and> evaluateBillingCondition h c e now = Some m"
  by (simp add: on_path_def)

lemma chain_nonempty: "readTokenTierChain e = Some ts \<Longrightarrow> ts \<noteq> []"
proof (induction e arbitrary: ts rule: readTokenTierChain.induct)
  case (1 e)
  have "audio_tiers e = Some us \<Longrightarrow> us \<noteq> []" for us
    by (cases e) (auto split: if_splits option.splits)
  moreover have "tier_chain e us = Some vs \<Longrightarrow> vs \<noteq> []" for e us vs
    by (induction e us rule: tier_chain.induct) (auto split: option.splits)
  ultimately show ?case
    using 1 by (fastforce simp: readTokenTierChain.simps [of e] split: option.splits)
qed

text \<open>The tiers below a node: they continue the path, and they are current on at most one branch.\<close>

definition decided :: "host \<Rightarrow> compiled_expression \<Rightarrow> date \<Rightarrow> time_token_tier list \<Rightarrow> bool" where
  "decided h c now ts \<longleftrightarrow>
     list_all (\<lambda>t. list_all (\<lambda>(e, m). evaluateBillingCondition h c e now \<noteq> None) (tm_path t)) ts"

lemma decidedD:
  "decided h c now ts \<Longrightarrow> t \<in> set ts \<Longrightarrow> (e, m) \<in> set (tm_path t) \<Longrightarrow>
   evaluateBillingCondition h c e now \<noteq> None"
  by (fastforce simp: decided_def list_all_iff)

lemma time_leaf_tiers:
  "time_leaf src e path = Some ts \<Longrightarrow> ts \<noteq> [] \<and> (\<forall>t \<in> set ts. tm_path t = path)"
  by (auto simp: time_leaf_def time_tier_def split: option.splits if_splits dest: chain_nonempty)

lemma time_leaf_current:
  assumes "time_leaf src e path = Some ts" and "on_path h c now path"
  shows "current_tiers h c now ts \<noteq> [] \<and> (\<exists>q. \<forall>t \<in> set (current_tiers h c now ts). tm_path t = q)"
  using time_leaf_tiers [OF assms(1)] assms(2)
  by (auto simp: current_tiers_on_path filter_empty_conv intro!: exI [of _ path])

lemma branches_continue:
  "timeTierBranches c e path = Inr (Some ts) \<Longrightarrow> ts \<noteq> [] \<and> (\<forall>t \<in> set ts. \<exists>q. tm_path t = path @ q)"
proof (induction e arbitrary: path ts)
  case (Conditional x y z a b)
  show ?case
  proof (cases "isTimeCondition x = Inr True")
    case True
    with Conditional.prems obtain us vs where
      "timeTierBranches c y (path @ [(x, True)]) = Inr (Some us)"
      "timeTierBranches c z (path @ [(x, False)]) = Inr (Some vs)" "ts = us @ vs"
      by (auto split: option.splits)
    with Conditional.IH(2) [of "path @ [(x, True)]" us] Conditional.IH(3) [of "path @ [(x, False)]" vs]
    show ?thesis by fastforce
  next
    case False
    with Conditional.prems have "time_leaf (cb_source c) (Conditional x y z a b) path = Some ts"
      by (auto split: if_splits)
    from time_leaf_tiers [OF this] show ?thesis by auto
  qed
qed (auto dest: time_leaf_tiers)

lemma branches_off_path:
  assumes "timeTierBranches c e path = Inr (Some ts)" and "\<not> on_path h c now path"
  shows "current_tiers h c now ts = []"
  using branches_continue [OF assms(1)] assms(2)
  by (auto simp: current_tiers_on_path filter_empty_conv on_path_def)

lemma branches_select:
  "timeTierBranches c e path = Inr (Some ts) \<Longrightarrow> decided h c now ts \<Longrightarrow> on_path h c now path \<Longrightarrow>
   current_tiers h c now ts \<noteq> [] \<and> (\<exists>q. \<forall>t \<in> set (current_tiers h c now ts). tm_path t = q)"
proof (induction e arbitrary: path ts)
  case (Conditional x y z a b)
  show ?case
  proof (cases "isTimeCondition x = Inr True")
    case True
    with Conditional.prems obtain us vs where
      us: "timeTierBranches c y (path @ [(x, True)]) = Inr (Some us)" and
      vs: "timeTierBranches c z (path @ [(x, False)]) = Inr (Some vs)" and ts: "ts = us @ vs"
      by (auto split: option.splits)
    from branches_continue [OF us] obtain t q where "t \<in> set us" "tm_path t = (path @ [(x, True)]) @ q"
      by (cases us) auto
    with Conditional.prems(2) have "evaluateBillingCondition h c x now \<noteq> None"
      by (intro decidedD [of h c now ts t x True]) (simp_all add: ts)
    then obtain m where m: "evaluateBillingCondition h c x now = Some m" by blast
    have cur: "current_tiers h c now ts = current_tiers h c now us @ current_tiers h c now vs"
      by (simp add: ts current_tiers_def)
    have dec: "decided h c now us" "decided h c now vs"
      using Conditional.prems(2) by (auto simp: ts decided_def)
    show ?thesis
    proof (cases m)
      case True
      with branches_off_path [OF vs] Conditional.IH(2) [OF us dec(1)] m cur Conditional.prems(3)
      show ?thesis by (simp add: on_path_snoc)
    next
      case False
      with branches_off_path [OF us] Conditional.IH(3) [OF vs dec(2)] m cur Conditional.prems(3)
      show ?thesis by (simp add: on_path_snoc)
    qed
  next
    case False
    with Conditional.prems have "time_leaf (cb_source c) (Conditional x y z a b) path = Some ts"
      by (auto split: if_splits)
    with Conditional.prems show ?thesis by (intro time_leaf_current)
  qed
qed (simp_all add: time_leaf_current)

text \<open>
  C21. At any moment one time window is current: when an expression is read as prices by time and
  every time condition has a value now, then the current tiers are not empty and they all belong to
  one branch of the conditions, so no two windows are shown at once.
\<close>

theorem readTimeTokenPricing_current:
  assumes "readTimeTokenPricing h cache source (Some now) = (Inr (Some (tiers, current)), cache')"
    and "compileBillingExpression cache source = (Ready c, cache')" and "decided h c now tiers"
  shows "current \<noteq> [] \<and> set current \<subseteq> set tiers \<and> (\<exists>q. \<forall>t \<in> set current. tm_path t = q)"
proof -
  from assms(1, 2) have t: "timeTierBranches c (cb_ast c) [] = Inr (Some tiers)"
    and cur: "current = current_tiers h c now tiers"
    by (auto simp: readTimeTokenPricing_def)
  from branches_select [OF t assms(3)] show ?thesis
    by (auto simp: cur on_path_def current_tiers_on_path)
qed

definition hour_price :: jstring where
  "hour_price = js ''hour(\"UTC\")<12?tier(\"a\",p*2):tier(\"b\",p*4)''"

theorem readTimeTokenPricing_current_witness:
  "\<exists>tiers current cache'. readTimeTokenPricing plain_host [] hour_price (Some (Some 0)) = (Inr (Some (tiers, current)), cache')
     \<and> length tiers = 2 \<and> current \<noteq> [] \<and> (\<exists>q. \<forall>t \<in> set current. tm_path t = q)"
proof -
  have "case fst (compileBillingExpression [] hour_price) of
      Ready c \<Rightarrow> (case fst (readTimeTokenPricing plain_host [] hour_price (Some (Some 0))) of
        Inr (Some (tiers, current)) \<Rightarrow> decided plain_host c (Some 0) tiers \<and> length tiers = 2
      | _ \<Rightarrow> False)
    | _ \<Rightarrow> False"
    by code_simp
  then obtain c tiers current where c: "fst (compileBillingExpression [] hour_price) = Ready c"
    and r: "fst (readTimeTokenPricing plain_host [] hour_price (Some (Some 0))) = Inr (Some (tiers, current))"
    and d: "decided plain_host c (Some 0) tiers" and n: "length tiers = 2"
    by (auto split: compilation_result.splits sum.splits option.splits)
  from c obtain cache' where c': "compileBillingExpression [] hour_price = (Ready c, cache')"
    by (metis prod.collapse)
  with r have r': "readTimeTokenPricing plain_host [] hour_price (Some (Some 0)) = (Inr (Some (tiers, current)), cache')"
    by (simp add: readTimeTokenPricing_def)
  from readTimeTokenPricing_current [OF r' c' d] r' n show ?thesis by blast
qed

end
