(* ===== verification/Task_Display_Correct.thy ===== *)
theory Task_Display_Correct
  imports Task_Display Display_Correct
begin

text \<open>
  The expansion of a task expression into rows (\<open>Task_Display\<close>) against the evaluator: what a
  displayed condition says, which branch a request falls into, and what the branch costs.
\<close>

section \<open>The expansion without the budget\<close>

fun shown :: "task_display_context \<Rightarrow> expr \<Rightarrow> display_condition option" where
  "shown ctx (Literal v i a b) = (case v of LBool x \<Rightarrow> Some (Known x) | _ \<Rightarrow> None)"
| "shown ctx (Unary operator x a b) =
     (if operator = js ''!'' then map_option negate_condition (shown ctx x) else None)"
| "shown ctx (Binary operator l r a b) =
     (if is_logical operator then join_conditions operator (shown ctx l) (shown ctx r)
      else display_comparison ctx operator l r a b)"
| "shown ctx _ = None"

fun branches :: "task_display_context \<Rightarrow> expr \<Rightarrow> price_branch list option" where
  "branches ctx (Literal v i a b) =
     (case v of
        LNum x \<Rightarrow>
          if js_le (Fin 0) x
          then Some [\<lparr>pb_label = None, pb_constant = x, pb_prices = [], pb_times = []\<rparr>] else None
      | _ \<Rightarrow> None)"
| "branches ctx (Call f (Literal (LStr s) i a b # args) a' b') =
     (if f = js ''u'' then unit_branch ctx s
      else if f = js ''tier''
      then (case args of body # _ \<Rightarrow> label_branches s (branches ctx body) | [] \<Rightarrow> None)
      else None)"
| "branches ctx (Conditional c yes no a b) =
     (case shown ctx c of
        None \<Rightarrow> None
      | Some (Known condition) \<Rightarrow> branches ctx (if condition then yes else no)
      | Some (Open condition) \<Rightarrow>
          (case (branches ctx yes, branches ctx no) of
             (Some ys, Some ns) \<Rightarrow> split_branches condition ys ns
           | _ \<Rightarrow> None))"
| "branches ctx (Binary operator l r a b) =
     (if is_linear operator then combine_branches operator (branches ctx l) (branches ctx r) else None)"
| "branches ctx _ = None"

lemma join_conditions_None [simp]:
  "join_conditions f None y = None" "join_conditions f x None = None"
  by (auto simp: join_conditions_def split: option.splits)

lemma combine_branches_None [simp]:
  "combine_branches f None y = None" "combine_branches f x None = None"
  by (auto simp: combine_branches_def split: option.splits)

text \<open>The budget can only turn an answer into none, and a visit of every node is enough.\<close>

lemma nodes_positive [simp]: "0 < nodes e"
  by (cases e) auto

lemma condition_budget:
  "taskDisplayCondition ctx e n = (r, m) \<Longrightarrow>
   (r = shown ctx e \<or> r = None) \<and> (int (nodes e) \<le> n \<longrightarrow> r = shown ctx e \<and> n - int (nodes e) \<le> m)"
proof (induction e arbitrary: n r m)
  case (Unary f x a b)
  obtain r1 n1 where x: "taskDisplayCondition ctx x (n - 1) = (r1, n1)" by fastforce
  from Unary.IH [OF x] Unary.prems show ?case by (auto simp: x split: if_splits)
next
  case (Binary f x y a b)
  show ?case
  proof (cases "is_logical f \<and> 0 \<le> n - 1")
    case True
    obtain r1 n1 where x: "taskDisplayCondition ctx x (n - 1) = (r1, n1)" by fastforce
    obtain r2 n2 where y: "taskDisplayCondition ctx y n1 = (r2, n2)" by fastforce
    from Binary.IH(1) [OF x] Binary.IH(2) [OF y] Binary.prems True show ?thesis
      by (auto simp: x y)
  qed (use Binary.prems in \<open>auto split: if_splits\<close>)
qed (auto split: if_splits)

lemma branches_budget:
  "taskPriceBranches ctx e n = (r, m) \<Longrightarrow>
   (r = branches ctx e \<or> r = None) \<and> (int (nodes e) \<le> n \<longrightarrow> r = branches ctx e \<and> n - int (nodes e) \<le> m)"
proof (induction ctx e n arbitrary: r m rule: taskPriceBranches.induct)
  case (2 ctx f s i a b args a' b' n)
  show ?case
  proof (cases "f = js ''tier'' \<and> args \<noteq> [] \<and> 0 \<le> n - 1")
    case True
    then obtain body rest where args: "args = body # rest" by (cases args) auto
    obtain bs k where body: "taskPriceBranches ctx body (n - 1) = (bs, k)" by fastforce
    have "label_branches s None = None" by (simp add: label_branches_def)
    with 2 True args body show ?thesis by fastforce
  qed (use 2 in \<open>auto split: if_splits list.splits\<close>)
next
  case (3 ctx c yes no a b n)
  obtain cr k where c: "taskDisplayCondition ctx c (n - 1) = (cr, k)" by fastforce
  note budget = condition_budget [OF c]
  consider "n - 1 < 0" | "0 \<le> n - 1" "cr = None" | t where "0 \<le> n - 1" "cr = Some (Known t)"
    | t where "0 \<le> n - 1" "cr = Some (Open t)"
    by (metis display_condition.exhaust not_le option.exhaust)
  then show ?case
  proof cases
    case (3 t)
    with "3.prems" c have run: "taskPriceBranches ctx (if t then yes else no) k = (r, m)" by simp
    from 3 budget have sc: "shown ctx c = Some (Known t)" by auto
    from "3.IH"(1) [OF _ c [symmetric] 3(2) refl run] 3 budget show ?thesis
      by (cases t) (auto simp: sc)
  next
    case (4 t)
    obtain ys j where y: "taskPriceBranches ctx yes k = (ys, j)" by fastforce
    obtain ns l where l: "taskPriceBranches ctx no j = (ns, l)" by fastforce
    note Y = "3.IH"(2) [OF _ c [symmetric] 4(2) refl y]
    from 4 budget have sc: "shown ctx c = Some (Open t)" by auto
    show ?thesis
    proof (cases ys)
      case (Some us)
      from "3.IH"(3) [OF _ c [symmetric] 4(2) refl y [symmetric] Some l] Y 4 budget "3.prems" c y l Some
      show ?thesis by (auto simp: sc split: option.splits)
    qed (use Y 4 budget "3.prems" c y in \<open>auto simp: sc split: option.splits\<close>)
  qed (use "3.prems" c budget in auto)
next
  case (4 ctx f l r' a b n)
  show ?case
  proof (cases "is_linear f \<and> 0 \<le> n - 1")
    case True
    obtain r1 n1 where x: "taskPriceBranches ctx l (n - 1) = (r1, n1)" by fastforce
    obtain r2 n2 where y: "taskPriceBranches ctx r' n1 = (r2, n2)" by fastforce
    from True have t: "\<not> n - 1 < 0" "is_linear f" by auto
    from "4.IH"(1) [OF t x] "4.IH"(2) [OF t x [symmetric] y] "4.prems" True show ?thesis
      by (auto simp: x y)
  qed (use 4 in \<open>auto split: if_splits\<close>)
qed (auto split: if_splits)

section \<open>What a displayed condition says\<close>

definition facts_hold :: "runtime_env \<Rightarrow> js_object \<Rightarrow> bool" where
  "facts_hold env facts = list_all (\<lambda>(k, v). usage_of env k = v) facts"

definition facts_declared :: "usage_schema \<Rightarrow> js_object \<Rightarrow> bool" where
  "facts_declared schema facts =
     list_all (\<lambda>(k, v). case map_of schema k of Some def \<Rightarrow> v \<in> set (fact_values def) | None \<Rightarrow> False) facts"

text \<open>The value of a side of a time comparison and the truth of the comparison at this moment.\<close>

fun time_value :: "runtime_env \<Rightarrow> expr \<Rightarrow> jsnum option" where
  "time_value env (Literal (LNum x) i a b) = Some x"
| "time_value env (Call f (Literal (LStr z) i a b # rest) a' b') =
     (case timeInBillingZone (env_host env) (env_now env) (trim z) of
        Inr tv \<Rightarrow> Some (time_field f tv)
      | Inl _ \<Rightarrow> None)"
| "time_value env _ = None"

definition compare_numbers :: "jstring \<Rightarrow> jsnum \<Rightarrow> jsnum \<Rightarrow> bool" where
  "compare_numbers f x y =
     (if f = js ''=='' then js_eq x y else if f = js ''!='' then \<not> js_eq x y
      else comparison f (JNum x) (JNum y) = Some True)"

definition comparison_truth :: "runtime_env \<Rightarrow> jstring \<Rightarrow> expr \<Rightarrow> expr \<Rightarrow> bool option" where
  "comparison_truth env f l r =
     (case (time_value env l, time_value env r) of
        (Some x, Some y) \<Rightarrow> Some (compare_numbers f x y)
      | _ \<Rightarrow> None)"

text \<open>
  A reading \<open>\<tau>\<close> of condition texts as truth values: the text of a time comparison is read as its
  truth, and the texts built with \<open>!\<close>, \<open>&&\<close> and \<open>||\<close> are read as the connectives.
\<close>

fun reads :: "(jstring \<Rightarrow> bool) \<Rightarrow> task_display_context \<Rightarrow> runtime_env \<Rightarrow> expr \<Rightarrow> bool" where
  "reads \<tau> ctx env (Unary f x a b) =
     (reads \<tau> ctx env x \<and>
      (case shown ctx x of Some (Open s) \<Rightarrow> \<tau> (js ''!('' @ s @ js '')'') = (\<not> \<tau> s) | _ \<Rightarrow> True))"
| "reads \<tau> ctx env (Binary f l r a b) =
     (reads \<tau> ctx env l \<and> reads \<tau> ctx env r \<and>
      (if is_logical f
       then (case (shown ctx l, shown ctx r) of
               (Some (Open s), Some (Open t)) \<Rightarrow>
                 \<tau> (js ''('' @ s @ js '') '' @ f @ js '' ('' @ t @ js '')'') =
                   (if f = js ''&&'' then \<tau> s \<and> \<tau> t else \<tau> s \<or> \<tau> t)
             | _ \<Rightarrow> True)
       else time_comparison f l r \<longrightarrow> comparison_truth env f l r \<in> {None, Some (\<tau> (slice a b (dc_source ctx)))}))"
| "reads \<tau> ctx env (Conditional c x y a b) = (reads \<tau> ctx env c \<and> reads \<tau> ctx env x \<and> reads \<tau> ctx env y)"
| "reads \<tau> ctx env (Call f es a b) = list_all (reads \<tau> ctx env) es"
| "reads \<tau> ctx env _ = True"

fun truth :: "(jstring \<Rightarrow> bool) \<Rightarrow> display_condition \<Rightarrow> bool" where
  "truth \<tau> (Known b) = b"
| "truth \<tau> (Open s) = \<tau> s"

lemma join_conditions_truth:
  assumes "join_conditions f (Some l) (Some r) = Some c" and "is_logical f"
    and "\<And>s t. l = Open s \<Longrightarrow> r = Open t \<Longrightarrow> \<tau> (js ''('' @ s @ js '') '' @ f @ js '' ('' @ t @ js '')'') =
           (if f = js ''&&'' then \<tau> s \<and> \<tau> t else \<tau> s \<or> \<tau> t)"
  shows "truth \<tau> c = (if f = js ''&&'' then truth \<tau> l \<and> truth \<tau> r else truth \<tau> l \<or> truth \<tau> r)"
  using assms by (cases l; cases r) (auto simp: join_conditions_def is_logical_def Let_def split: if_splits)

lemma strict_equal_sym: "strict_equal a b = strict_equal b a"
  by (cases a; cases b) (auto simp: js_eq_def)

lemma usage_state:
  assumes "evaluate env d (Call (js ''u'') (Literal (LStr field) i a b # rest) a' b') st = Inr (v, st')"
  shows "rv_value v = usage_of env field \<and> st' = st"
  using evaluate_Inr [OF assms] evaluate_usage [OF assms]
  by (auto simp: evaluateNode_def call_def call_u_def with_arg_def string_value_def
      split: option.splits jsval.splits dest!: evaluate_Literal)

lemma time_names:
  "f \<in> set TIME_FUNCTIONS \<Longrightarrow> f \<notin> {js ''fixed'', js ''tier'', js ''param'', js ''header'', js ''u'', js ''has'', js ''min'',
     js ''max'', js ''abs'', js ''floor'', js ''ceil''}"
  by (auto simp: TIME_FUNCTIONS_def)

lemma time_call_sound:
  assumes f: "f \<in> set TIME_FUNCTIONS" and "state_ok env st"
    and run: "evaluate env d (Call f (Literal (LStr z) i a b # rest) a' b') st = Inr (v, st')"
  shows "\<exists>tv. timeInBillingZone (env_host env) (env_now env) (trim z) = Inr tv
    \<and> rv_value v = JNum (time_field f tv) \<and> rt_tier st' = rt_tier st"
proof -
  have lit: "string_value (evaluate env (d + 1)) (Literal (LStr z) i a b) st = Inr (t, s) \<Longrightarrow> t = z \<and> s = st" for t s
    by (auto simp: string_value_def split: jsval.splits dest!: evaluate_Literal)
  from evaluate_Inr [OF run] time_names [OF f] f lit
  obtain tv k where z: "zone_time (env_host env) (env_now env) (rt_times st) (trim z) = Inr (tv, k)"
    and v: "rv_value v = JNum (time_field f tv)" "st' = st\<lparr>rt_times := k\<rparr>"
    by (auto simp: evaluateNode_def call_def call_time_def with_arg_def)
  from zone_memo.ask_value [OF assms(2) z] v show ?thesis by simp
qed

lemma time_operand_sound:
  assumes "time_operand e" and "state_ok env st" and run: "evaluate env d e st = Inr (v, st')"
  shows "\<exists>x. rv_value v = JNum x \<and> time_value env e = Some x \<and> rt_tier st' = rt_tier st"
proof (cases e rule: time_operand.cases)
  case (1 x i a b)
  with run show ?thesis by (auto dest!: evaluate_Literal)
next
  case (2 f z i a b rest a' b')
  with assms(1) have "f \<in> set TIME_FUNCTIONS" by simp
  from time_call_sound [OF this assms(2) run [unfolded 2]] show ?thesis by (auto simp: 2)
qed (use assms(1) in auto)

lemma comparison_sound:
  assumes f: "f \<in> set comparison_operators" "\<not> is_logical f"
    and run: "evaluate env d (Binary f l r a b) st = Inr (v, st')" and ok: "state_ok env st"
    and "time_operand l" and "time_operand r"
  shows "comparison_truth env f l r = Some (rv_value v = JBool True) \<and> (\<exists>t. rv_value v = JBool t)
    \<and> rt_tier st' = rt_tier st"
proof -
  from evaluate_Binary [OF run] f obtain x s1 y where
    x: "evaluate env (d + 1) l st = Inr (x, s1)" and y: "evaluate env (d + 1) r s1 = Inr (y, st')"
    and v: "binary_values f x y a = Inr v"
    by (auto simp: binary_def is_logical_def)
  from time_steps.evaluate_related [OF x] ok have ok1: "state_ok env s1" by simp
  from time_operand_sound [OF assms(5) ok x] time_operand_sound [OF assms(6) ok1 y] v f
  show ?thesis
    by (auto simp: binary_values_def equality_def comparison_truth_def compare_numbers_def comparison_operators_def
        concatenation_def comparison_def split: if_splits)
qed

lemma usage_probe_shape:
  assumes "usage_probe ctx f p q = Some c"
  obtains key i a b rest a' b' v j k l where
    "p = Call (js ''u'') (Literal (LStr key) i a b # rest) a' b'" "q = Literal v j k l" "c = decide_usage ctx f key v"
  using assms by (cases "(ctx, f, p, q)" rule: usage_probe.cases) (auto split: if_splits)

lemma declared_fact:
  "facts_declared schema facts \<Longrightarrow> map_of facts key = Some v \<Longrightarrow>
   \<exists>def. map_of schema key = Some def \<and> v \<in> set (fact_values def)"
proof -
  assume "facts_declared schema facts" and "map_of facts key = Some v"
  then have "case map_of schema key of Some def \<Rightarrow> v \<in> set (fact_values def) | None \<Rightarrow> False"
    unfolding facts_declared_def list_all_iff by (blast dest: map_of_SomeD)
  then show ?thesis by (simp split: option.splits)
qed

lemma decide_usage_sound:
  assumes "decide_usage ctx f key v = Some c" and "f = js ''=='' \<or> f = js ''!=''"
    and "facts_hold env (dc_facts ctx)" and "facts_declared (dc_schema ctx) (dc_facts ctx)"
  shows "c = Known (if f = js ''=='' then strict_equal (usage_of env key) (literal_value v)
                    else \<not> strict_equal (usage_of env key) (literal_value v))
    \<and> \<not> is_object (usage_of env key)"
proof -
  from assms(1) obtain given def where g: "map_of (dc_facts ctx) key = Some given"
    and def: "map_of (dc_schema ctx) key = Some def"
    by (auto simp: decide_usage_def split: option.splits)
  from g assms(3) have "usage_of env key = given"
    by (auto simp: facts_hold_def list_all_iff dest!: map_of_SomeD)
  moreover from declared_fact [OF assms(4) g] def have "given \<in> set (fact_values def)" by simp
  ultimately show ?thesis
    using assms(1,2) g def
    by (auto simp: decide_usage_def fact_values_def Let_def split: if_splits lit_value.splits)
qed

lemma probe_sound:
  assumes "usage_probe ctx f p q = Some (Some c)" and f: "f = js ''=='' \<or> f = js ''!=''"
    and "facts_hold env (dc_facts ctx)" and "facts_declared (dc_schema ctx) (dc_facts ctx)"
    and run: "evaluate env d (Binary f l r a b) st = Inr (v, st')" and side: "l = p \<and> r = q \<or> l = q \<and> r = p"
  shows "rv_value v = JBool (truth \<tau> c) \<and> rt_tier st' = rt_tier st"
proof -
  from assms(1) obtain key i k b' rest k' b'' w j m n where
    p: "p = Call (js ''u'') (Literal (LStr key) i k b' # rest) k' b''" and q: "q = Literal w j m n"
    and c: "decide_usage ctx f key w = Some c"
    by (auto elim: usage_probe_shape)
  note D = decide_usage_sound [OF c f assms(3,4)]
  from f have nl: "f \<noteq> js ''&&''" "f \<noteq> js ''||''" by auto
  from evaluate_Binary [OF run] nl obtain x s1 y where
    x: "evaluate env (d + 1) l st = Inr (x, s1)" and y: "evaluate env (d + 1) r s1 = Inr (y, st')"
    and v: "binary_values f x y a = Inr v"
    by (auto simp: binary_def)
  from side show ?thesis
  proof
    assume "l = p \<and> r = q"
    with x y p q have "rv_value x = usage_of env key" "rv_value y = literal_value w" "st' = st"
      by (auto dest!: usage_state evaluate_Literal)
    with v f D show ?thesis by (auto simp: binary_values_def equality_def split: if_splits)
  next
    assume "l = q \<and> r = p"
    with x y p q have "rv_value y = usage_of env key" "rv_value x = literal_value w" "st' = st"
      by (auto dest!: usage_state evaluate_Literal)
    with v f D show ?thesis
      by (auto simp: binary_values_def equality_def strict_equal_sym [of "literal_value w"] split: if_splits)
  qed
qed

lemma display_comparison_cases:
  assumes "display_comparison ctx f l r a b = Some c"
  obtains p q where "f = js ''=='' \<or> f = js ''!=''" "usage_probe ctx f p q = Some (Some c)" "l = p \<and> r = q \<or> l = q \<and> r = p"
  | "time_comparison f l r" "c = Open (slice a b (dc_source ctx))"
proof -
  from assms have "(f = js ''=='' \<or> f = js ''!='') \<and>
      (usage_probe ctx f l r = Some (Some c) \<or> usage_probe ctx f r l = Some (Some c))
    \<or> time_comparison f l r \<and> c = Open (slice a b (dc_source ctx))"
    by (simp add: display_comparison_def Let_def split: if_splits option.splits)
  then show thesis
    using that(1) [of l r] that(1) [of r l] that(2) by argo
qed

lemma condition_sound:
  "shown ctx e = Some c \<Longrightarrow> reads \<tau> ctx env e \<Longrightarrow> facts_hold env (dc_facts ctx) \<Longrightarrow>
   facts_declared (dc_schema ctx) (dc_facts ctx) \<Longrightarrow> state_ok env st \<Longrightarrow> evaluate env d e st = Inr (v, st') \<Longrightarrow>
   rv_value v = JBool (truth \<tau> c) \<and> rt_tier st' = rt_tier st"
proof (induction e arbitrary: c d st v st')
  case (Literal w i a b)
  then show ?case by (auto dest!: evaluate_Literal split: lit_value.splits)
next
  case (Unary f x a b)
  from Unary.prems(1) obtain c' where f: "f = js ''!''" and c': "shown ctx x = Some c'" "c = negate_condition c'"
    by (auto split: if_splits)
  from evaluate_Inr [OF Unary.prems(6)] f obtain t where
    "boolean (evaluate env (d + 1)) x st = Inr (t, st')" and v: "rv_value v = JBool (\<not> t)"
    by (auto simp: evaluateNode_def)
  then obtain i where "evaluate env (d + 1) x st = Inr (\<lparr>rv_value = JBool t, rv_integer = i\<rparr>, st')"
    by (auto simp: boolean_Inr)
  from Unary.IH [OF c'(1) _ Unary.prems(3-5) this] Unary.prems(2) v c' show ?case
    by (cases c') auto
next
  case (Binary f l r a b)
  show ?case
  proof (cases "is_logical f")
    case False
    with Binary.prems(1) have "display_comparison ctx f l r a b = Some c" by simp
    then show ?thesis
    proof (cases rule: display_comparison_cases)
      case (1 p q)
      from probe_sound [OF 1(2,1) Binary.prems(3,4,6) 1(3)] show ?thesis .
    next
      case 2
      with comparison_sound [OF _ False Binary.prems(6,5)] Binary.prems(2) False show ?thesis
        by (auto simp: time_comparison_def)
    qed
  next
    case True
    with Binary.prems(1) obtain cl cr where cl: "shown ctx l = Some cl" and cr: "shown ctx r = Some cr"
      and j: "join_conditions f (Some cl) (Some cr) = Some c"
      by (cases "shown ctx l"; cases "shown ctx r") auto
    have t: "truth \<tau> c = (if f = js ''&&'' then truth \<tau> cl \<and> truth \<tau> cr else truth \<tau> cl \<or> truth \<tau> cr)"
      by (rule join_conditions_truth [OF j True]) (use Binary.prems(2) True cl cr in simp)
    have run: "boolean (evaluate env (d + 1)) x s = Inr (z, s') \<Longrightarrow> state_ok env s \<Longrightarrow>
        shown ctx x = Some k \<Longrightarrow> x = l \<or> x = r \<Longrightarrow>
        z = truth \<tau> k \<and> rt_tier s' = rt_tier s \<and> state_ok env s'" for x s z s' k
    proof -
      assume z: "boolean (evaluate env (d + 1)) x s = Inr (z, s')" and ok: "state_ok env s"
        and k: "shown ctx x = Some k" and x: "x = l \<or> x = r"
      from z obtain i where e: "evaluate env (d + 1) x s = Inr (\<lparr>rv_value = JBool z, rv_integer = i\<rparr>, s')"
        by (auto simp: boolean_Inr)
      from x have "JBool z = JBool (truth \<tau> k) \<and> rt_tier s' = rt_tier s"
      proof
        assume "x = l"
        with Binary.IH(1) [OF _ _ Binary.prems(3,4) ok] e k Binary.prems(2) show ?thesis by fastforce
      next
        assume "x = r"
        with Binary.IH(2) [OF _ _ Binary.prems(3,4) ok] e k Binary.prems(2) show ?thesis by fastforce
      qed
      with time_steps.evaluate_related [OF e] ok show ?thesis by simp
    qed
    from evaluate_Binary [OF Binary.prems(6)] True obtain z s1 where
      z: "boolean (evaluate env (d + 1)) l st = Inr (z, s1)"
      and rest: "if f = js ''&&'' \<longleftrightarrow> z then \<exists>y. boolean (evaluate env (d + 1)) r s1 = Inr (y, st') \<and> rv_value v = JBool y
        else rv_value v = JBool z \<and> st' = s1"
      by (auto simp: binary_def is_logical_def split: if_splits)
    from run [OF z Binary.prems(5) cl] rest run [OF _ _ cr, of s1 _ st'] t show ?thesis
      by (auto split: if_splits)
  qed
qed auto

end
