(* ===== verification/Task_Rows_Correct.thy ===== *)
theory Task_Rows_Correct
  imports Task_Display_Correct
begin

text \<open>
  The branches of a task expression: for every reading of the time conditions exactly one branch
  applies, its label is the tier the evaluator reports, and its constant and unit prices add up to the
  cost when no operation rounds.
\<close>

section \<open>Ordered maps\<close>

lemma map_of_set_entry [simp]: "map_of (set_entry k v es) = (map_of es)(k \<mapsto> v)"
  by (induction es) (auto simp: fun_eq_iff)

lemma set_entry_keys [simp]: "fst ` set (set_entry k v es) = insert k (fst ` set es)"
  by (induction k v es rule: set_entry.induct) auto

lemma set_entry_distinct [simp]: "distinct (map fst es) \<Longrightarrow> distinct (map fst (set_entry k v es))"
  by (induction k v es rule: set_entry.induct) auto

lemma fold_set_entry:
  "map_of (fold (\<lambda>e. set_entry (g e) (h e)) es ms) = map_of ms ++ map_of (rev (map (\<lambda>e. (g e, h e)) es))"
  "fst ` set (fold (\<lambda>e. set_entry (g e) (h e)) es ms) = fst ` set ms \<union> g ` set es"
  "distinct (map fst ms) \<Longrightarrow> distinct (map fst (fold (\<lambda>e. set_entry (g e) (h e)) es ms))"
  by (induction es arbitrary: ms) (auto simp: fun_eq_iff map_add_def split: option.splits)

lemma new_map_fold: "new_map es = fold (\<lambda>e. set_entry (fst e) (snd e)) es []"
  by (simp add: new_map_def case_prod_unfold)

lemma map_of_new_map: "map_of (new_map es) = map_of (rev es)"
  by (simp add: new_map_fold fold_set_entry(1))

lemma new_map_distinct [simp]: "distinct (map fst (new_map es))"
  by (simp add: new_map_fold fold_set_entry(3))

definition consistent :: "('k \<times> 'v) list \<Rightarrow> bool" where
  "consistent es \<longleftrightarrow> (\<forall>k v w. (k, v) \<in> set es \<longrightarrow> (k, w) \<in> set es \<longrightarrow> v = w)"

lemma consistent_distinct: "distinct (map fst es) \<Longrightarrow> consistent es"
  by (auto simp: consistent_def dest: eq_key_imp_eq_value)

lemma consistent_map_of: "consistent es \<Longrightarrow> map_of es k = Some v \<longleftrightarrow> (k, v) \<in> set es"
proof
  assume "consistent es" "(k, v) \<in> set es"
  then obtain w where "map_of es k = Some w" by (metis image_eqI fst_conv map_of_eq_None_iff not_None_eq)
  with \<open>consistent es\<close> \<open>(k, v) \<in> set es\<close> show "map_of es k = Some v"
    by (auto simp: consistent_def dest: map_of_SomeD)
qed (rule map_of_SomeD)

lemma set_new_map: "consistent es \<Longrightarrow> set (new_map es) = set es"
proof -
  assume c: "consistent es"
  then have r: "consistent (rev es)" by (simp add: consistent_def)
  have "(k, v) \<in> set (new_map es) \<longleftrightarrow> (k, v) \<in> set es" for k v
    using consistent_map_of [OF consistent_distinct [OF new_map_distinct], of es k v]
      consistent_map_of [OF r, of k v] by (simp add: map_of_new_map)
  then show ?thesis by auto
qed

section \<open>Exactly one branch applies\<close>

definition agrees :: "(jstring \<Rightarrow> bool) \<Rightarrow> price_branch \<Rightarrow> bool" where
  "agrees \<tau> b = list_all (\<lambda>(s, m). \<tau> s = m) (pb_times b)"

definition branch_maps :: "price_branch \<Rightarrow> bool" where
  "branch_maps b \<longleftrightarrow> distinct (map fst (pb_times b)) \<and> distinct (map fst (pb_prices b))"

lemma agrees_under:
  assumes "distinct (map fst (pb_times b))" and "map_of (pb_times b) t \<noteq> Some (\<not> m)"
  shows "agrees \<tau> (b\<lparr>pb_times := new_map ((t, m) # pb_times b)\<rparr>) \<longleftrightarrow> \<tau> t = m \<and> agrees \<tau> b"
proof -
  have "v = m" if "(t, v) \<in> set (pb_times b)" for v
    using that assms(2) consistent_map_of [OF consistent_distinct [OF assms(1)], of t v]
    by (cases "v = m") auto
  then have "consistent ((t, m) # pb_times b)"
    using consistent_distinct [OF assms(1)] by (auto simp: consistent_def)
  from set_new_map [OF this] show ?thesis by (auto simp: agrees_def list_all_iff)
qed

lemma filter_under:
  assumes "\<forall>b \<in> set bs. distinct (map fst (pb_times b))"
  shows "filter (agrees \<tau>) (under_condition t m bs) =
    (if \<tau> t = m then map (\<lambda>b. b\<lparr>pb_times := new_map ((t, m) # pb_times b)\<rparr>) (filter (agrees \<tau>) bs) else [])"
  using assms
proof (induction bs)
  case (Cons b bs)
  have "\<not> (\<tau> t = m \<and> agrees \<tau> b)" if "map_of (pb_times b) t = Some (\<not> m)"
    using that by (auto simp: agrees_def list_all_iff dest!: map_of_SomeD)
  with Cons agrees_under [of b t m \<tau>] show ?case by (auto simp: under_condition_def)
qed (simp add: under_condition_def)

lemma agrees_pair:
  assumes "combine_pair f a b = Some c" and "\<not> times_clash a b"
    and "distinct (map fst (pb_times a))" and "distinct (map fst (pb_times b))"
  shows "agrees \<tau> c \<longleftrightarrow> agrees \<tau> a \<and> agrees \<tau> b"
proof -
  from assms(1) have c: "pb_times c = new_map (pb_times a @ pb_times b)"
    by (auto simp: combine_pair_def split: option.splits if_splits)
  have ab: "v = w" if "(k, v) \<in> set (pb_times a)" "(k, w) \<in> set (pb_times b)" for k v w
  proof -
    from that(2) have "map_of (pb_times b) k = Some w"
      by (simp add: consistent_map_of [OF consistent_distinct [OF assms(4)]])
    with that(1) assms(2) show ?thesis by (auto simp: times_clash_def list_ex_iff)
  qed
  have "consistent (pb_times a @ pb_times b)"
    using consistent_distinct [OF assms(3)] consistent_distinct [OF assms(4)] ab
    by (auto simp: consistent_def) blast+
  from set_new_map [OF this] c show ?thesis by (auto simp: agrees_def list_all_iff)
qed

lemma clash_disagrees: "times_clash a b \<Longrightarrow> \<not> (agrees \<tau> a \<and> agrees \<tau> b)"
proof
  assume "times_clash a b" and ag: "agrees \<tau> a \<and> agrees \<tau> b"
  then obtain k v where a: "(k, v) \<in> set (pb_times a)" and b: "map_of (pb_times b) k = Some (\<not> v)"
    by (auto simp: times_clash_def list_ex_iff)
  from ag a have "\<tau> k = v" by (auto simp: agrees_def list_all_iff)
  moreover from ag map_of_SomeD [OF b] have "\<tau> k = (\<not> v)" by (auto simp: agrees_def list_all_iff)
  ultimately show False by simp
qed

definition pair_result :: "jstring \<Rightarrow> price_branch \<times> price_branch \<Rightarrow> price_branch" where
  "pair_result f p = the (combine_pair f (fst p) (snd p))"

lemma product_loop_spec:
  "product_loop f ps acc = Some bs \<Longrightarrow>
   bs = acc @ map (pair_result f) (filter (\<lambda>(a, b). \<not> times_clash a b) ps)
   \<and> (\<forall>(a, b) \<in> set ps. (pb_label a = None \<or> pb_label b = None)
        \<and> (\<not> times_clash a b \<longrightarrow> combine_pair f a b = Some (pair_result f (a, b))))"
proof (induction ps arbitrary: acc)
  case (Cons p ps)
  obtain a b where p: "p = (a, b)" by (cases p)
  show ?case
  proof (cases "times_clash a b")
    case True
    with Cons.prems p have "product_loop f ps acc = Some bs" "pb_label a = None \<or> pb_label b = None"
      by (auto split: if_splits)
    with Cons.IH [of acc] True p show ?thesis by simp
  next
    case False
    with Cons.prems p obtain c where c: "combine_pair f a b = Some c" "pb_label a = None \<or> pb_label b = None"
      and "product_loop f ps (acc @ [c]) = Some bs"
      by (auto split: if_splits option.splits)
    moreover from c have "pair_result f (a, b) = c" by (simp add: pair_result_def)
    ultimately show ?thesis using Cons.IH [of "acc @ [c]"] False p by simp
  qed
qed simp

lemma product_loop_members:
  assumes "product_loop f ps [] = Some bs" and "c \<in> set bs"
  shows "\<exists>(a, b) \<in> set ps. combine_pair f a b = Some c"
  using product_loop_spec [OF assms(1)] assms(2) by fastforce

lemma filter_product:
  "filter (\<lambda>(a, b). P a \<and> Q b) (List.product xs ys) = List.product (filter P xs) (filter Q ys)"
  by (induction xs) (auto simp: filter_map comp_def)

lemma filter_pairs:
  assumes "product_loop f (List.product ls rs) [] = Some bs"
    and "\<forall>b \<in> set ls \<union> set rs. distinct (map fst (pb_times b))"
  shows "filter (agrees \<tau>) bs = map (pair_result f) (List.product (filter (agrees \<tau>) ls) (filter (agrees \<tau>) rs))"
proof -
  note spec = product_loop_spec [OF assms(1)]
  have "((case p of (a, b) \<Rightarrow> \<not> times_clash a b) \<and> agrees \<tau> (pair_result f p))
      = (case p of (a, b) \<Rightarrow> agrees \<tau> a \<and> agrees \<tau> b)"
    if p: "p \<in> set (List.product ls rs)" for p
  proof (cases p)
    case (Pair a b)
    with spec p assms(2) show ?thesis
      using agrees_pair [of f a b "pair_result f (a, b)" \<tau>] clash_disagrees [of a b \<tau>] by auto
  qed
  then have "filter (\<lambda>p. (case p of (a, b) \<Rightarrow> \<not> times_clash a b) \<and> agrees \<tau> (pair_result f p)) (List.product ls rs)
      = filter (\<lambda>(a, b). agrees \<tau> a \<and> agrees \<tau> b) (List.product ls rs)"
    by (rule filter_cong [OF refl])
  with spec show ?thesis by (simp add: filter_map comp_def filter_product)
qed

lemma branches_cases:
  assumes "branches ctx e = Some bs"
  obtains x i a b where "e = Literal (LNum x) i a b" "js_le (Fin 0) x"
      "bs = [\<lparr>pb_label = None, pb_constant = x, pb_prices = [], pb_times = []\<rparr>]"
  | field i a b rest a' b' where "e = Call (js ''u'') (Literal (LStr field) i a b # rest) a' b'"
      "bs = [\<lparr>pb_label = None, pb_constant = Fin 0, pb_prices = [(field, Fin 1)], pb_times = []\<rparr>]"
  | l i a b body rest a' b' us where "e = Call (js ''tier'') (Literal (LStr l) i a b # body # rest) a' b'"
      "branches ctx body = Some us" "\<forall>u \<in> set us. pb_label u = None" "bs = map (\<lambda>u. u\<lparr>pb_label := Some l\<rparr>) us"
  | c yes no a b t where "e = Conditional c yes no a b" "shown ctx c = Some (Known t)"
      "branches ctx (if t then yes else no) = Some bs"
  | c yes no a b t ys ns where "e = Conditional c yes no a b" "shown ctx c = Some (Open t)"
      "branches ctx yes = Some ys" "branches ctx no = Some ns"
      "bs = under_condition t True ys @ under_condition t False ns" "length bs \<le> MAX_DISPLAY_ROWS"
  | f l r a b ls rs where "e = Binary f l r a b" "is_linear f" "branches ctx l = Some ls" "branches ctx r = Some rs"
      "length ls * length rs \<le> MAX_DISPLAY_ROWS" "product_loop f (List.product ls rs) [] = Some bs"
proof (cases "(ctx, e)" rule: branches.cases)
  case (1 _ v i a b)
  with assms that(1) show ?thesis by (auto split: lit_value.splits if_splits)
next
  case (2 _ f s i a b args a' b')
  with assms that(2) [of s i a b args a' b'] that(3) [of s i a b _ _ a' b'] show ?thesis
    by (auto simp: unit_branch_def label_branches_def list_ex_iff split: if_splits option.splits list.splits)
next
  case (3 _ c yes no a b)
  with assms that(4) [of c yes no a b] that(5) [of c yes no a b] show ?thesis
    by (auto simp: split_branches_def Let_def split: option.splits display_condition.splits if_splits)
next
  case (4 _ f l r a b)
  with assms that(6) [of f l r a b] show ?thesis
    by (auto simp: combine_branches_def not_less split: if_splits option.splits)
qed (use assms in auto)

lemma pair_maps:
  assumes "combine_pair f a b = Some c"
  shows "branch_maps c"
proof -
  from assms obtain k ps where p: "pair_amounts f a b = Some (k, ps)" and c: "pb_prices c = ps"
    "pb_times c = new_map (pb_times a @ pb_times b)"
    by (auto simp: combine_pair_def split: option.splits if_splits)
  have "distinct (map fst (add_prices p q))" "distinct (map fst (scale_prices p z))" for p q z
    by (simp_all add: add_prices_def scale_prices_def case_prod_unfold fold_set_entry(3)
        fold_set_entry(3) [of _ "\<lambda>x. x"])
  with p have "distinct (map fst ps)" by (auto simp: pair_amounts_def Let_def split: if_splits)
  with c show ?thesis by (simp add: branch_maps_def)
qed

lemma branches_maps: "branches ctx e = Some bs \<Longrightarrow> \<forall>b \<in> set bs. branch_maps b"
proof (induction e arbitrary: bs rule: measure_induct_rule [of size])
  case (less e)
  from less.prems show ?case
  proof (cases rule: branches_cases)
    case (3 l i a b body rest a' b' us)
    with less.IH [of body us] show ?thesis by (auto simp: branch_maps_def)
  next
    case (4 c yes no a b t)
    with less.IH [of yes bs] less.IH [of no bs] show ?thesis by (cases t) auto
  next
    case (5 c yes no a b t ys ns)
    with less.IH [of yes ys] less.IH [of no ns] show ?thesis
      by (auto simp: under_condition_def branch_maps_def)
  next
    case (6 f l r a b ls rs)
    from product_loop_members [OF 6(6)] show ?thesis by (auto intro: pair_maps)
  qed (auto simp: branch_maps_def)
qed

lemma filter_binary:
  assumes "branches ctx l = Some ls" and "branches ctx r = Some rs"
    and "product_loop f (List.product ls rs) [] = Some bs"
  shows "filter (agrees \<tau>) bs = map (pair_result f) (List.product (filter (agrees \<tau>) ls) (filter (agrees \<tau>) rs))"
  by (rule filter_pairs [OF assms(3)])
    (use branches_maps [OF assms(1)] branches_maps [OF assms(2)] in \<open>auto simp: branch_maps_def\<close>)

lemma filter_split:
  assumes "branches ctx yes = Some ys" and "branches ctx no = Some ns"
  shows "filter (agrees \<tau>) (under_condition t True ys @ under_condition t False ns) =
    map (\<lambda>b. b\<lparr>pb_times := new_map ((t, \<tau> t) # pb_times b)\<rparr>) (filter (agrees \<tau>) (if \<tau> t then ys else ns))"
  using branches_maps [OF assms(1)] branches_maps [OF assms(2)]
  by (cases "\<tau> t") (simp_all add: filter_under branch_maps_def)

lemma one_branch: "branches ctx e = Some bs \<Longrightarrow> \<exists>b. filter (agrees \<tau>) bs = [b]"
proof (induction e arbitrary: bs rule: measure_induct_rule [of size])
  case (less e)
  from less.prems show ?case
  proof (cases rule: branches_cases)
    case (3 l i a b body rest a' b' us)
    from less.IH [of body us] 3 obtain u where "filter (agrees \<tau>) us = [u]" by auto
    with 3 show ?thesis by (simp add: filter_map comp_def agrees_def [abs_def])
  next
    case (4 c yes no a b t)
    with less.IH [of yes bs] less.IH [of no bs] show ?thesis by (cases t) auto
  next
    case (5 c yes no a b t ys ns)
    with less.IH [of yes ys] less.IH [of no ns] filter_split [OF 5(3,4), of \<tau> t]
    show ?thesis by (cases "\<tau> t") auto
  next
    case (6 f l r a b ls rs)
    with less.IH [of l ls] less.IH [of r rs] filter_binary [OF 6(3,4,6), of \<tau>] show ?thesis by auto
  qed (simp_all add: agrees_def)
qed

section \<open>Arithmetic that does not round\<close>

definition exactly :: "jsnum \<Rightarrow> rat \<Rightarrow> bool" where
  "exactly x q \<longleftrightarrow> is_finite x \<and> fval x = q"

definition representable :: "rat \<Rightarrow> bool" where
  "representable q = exactly (round_double q) q"

lemma exactly_add: "exactly x p \<Longrightarrow> exactly y q \<Longrightarrow> representable (p + q) \<Longrightarrow> exactly (js_add x y) (p + q)"
  by (auto simp: exactly_def representable_def js_add_def is_finite_def fval_def split: jsnum.splits)

lemma exactly_mul: "exactly x p \<Longrightarrow> exactly y q \<Longrightarrow> representable (p * q) \<Longrightarrow> exactly (js_mul x y) (p * q)"
  by (auto simp: exactly_def representable_def js_mul_def Let_def is_finite_def fval_def signed_zero_def split: jsnum.splits)

lemma exactly_div:
  "exactly x p \<Longrightarrow> exactly y q \<Longrightarrow> q \<noteq> 0 \<Longrightarrow> representable (p / q) \<Longrightarrow> exactly (js_div x y) (p / q)"
  by (auto simp: exactly_def representable_def js_div_def Let_def is_finite_def fval_def signed_zero_def split: jsnum.splits)

definition quantity :: "runtime_env \<Rightarrow> jstring \<Rightarrow> rat" where
  "quantity env field = (case usage_of env field of JNum x \<Rightarrow> fval x | _ \<Rightarrow> 0)"

definition price_sum :: "runtime_env \<Rightarrow> (jstring \<times> jsnum) list \<Rightarrow> rat" where
  "price_sum env ps = (\<Sum>(f, p)\<leftarrow>ps. fval p * quantity env f)"

text \<open>The cost a branch states: the constant and the unit prices times the quantities.\<close>

definition linear_cost :: "runtime_env \<Rightarrow> price_branch \<Rightarrow> rat" where
  "linear_cost env b = fval (pb_constant b) + price_sum env (pb_prices b)"

lemma price_or_zero_entry: "distinct (map fst ps) \<Longrightarrow> (k, p) \<in> set ps \<Longrightarrow> price_or_zero ps k = p"
  by (simp add: price_or_zero_def)

lemma price_sum_set:
  assumes "distinct (map fst ps)"
  shows "price_sum env ps = (\<Sum>k \<in> fst ` set ps. fval (price_or_zero ps k) * quantity env k)"
proof -
  have "price_sum env ps = (\<Sum>(f, p) \<in> set ps. fval p * quantity env f)"
    using assms by (simp add: price_sum_def sum_list_distinct_conv_sum_set distinct_map)
  also have "\<dots> = (\<Sum>e \<in> set ps. fval (price_or_zero ps (fst e)) * quantity env (fst e))"
    by (rule sum.cong) (auto simp: price_or_zero_entry [OF assms])
  also have "\<dots> = (\<Sum>k \<in> fst ` set ps. fval (price_or_zero ps k) * quantity env k)"
    using assms by (simp add: sum.reindex distinct_map)
  finally show ?thesis .
qed

lemma map_of_keys: "map_of (rev (map (\<lambda>k. (k, g k)) ks)) k = (if k \<in> set ks then Some (g k) else None)"
  by (induction ks) (auto simp: map_add_def split: option.splits)

lemma price_sum_superset:
  assumes "distinct (map fst ps)" and "finite K" and "fst ` set ps \<subseteq> K"
  shows "(\<Sum>k \<in> K. fval (price_or_zero ps k) * quantity env k) = price_sum env ps"
  unfolding price_sum_set [OF assms(1)]
proof (rule sum.mono_neutral_right [OF assms(2,3)], rule ballI)
  fix k
  assume "k \<in> K - fst ` set ps"
  then have "map_of ps k = None" by (simp add: map_of_eq_None_iff)
  then show "fval (price_or_zero ps k) * quantity env k = 0" by (simp add: price_or_zero_def)
qed

lemma price_sum_add:
  assumes "distinct (map fst p)" and "distinct (map fst q)"
    and "\<forall>k \<in> set (map fst p @ map fst q).
      exactly (js_add (price_or_zero p k) (price_or_zero q k)) (fval (price_or_zero p k) + fval (price_or_zero q k))"
  shows "price_sum env (add_prices p q) = price_sum env p + price_sum env q"
proof -
  let ?ks = "map fst p @ map fst q" let ?K = "set ?ks"
  note a = add_prices_def [of p q]
  have keys: "fst ` set (add_prices p q) = ?K" and d: "distinct (map fst (add_prices p q))"
    unfolding a using fold_set_entry(2,3) [where g = "\<lambda>k. k" and es = ?ks and ms = "[]"] by simp_all
  have "map_of (add_prices p q) =
      map_of (rev (map (\<lambda>k. (k, js_add (price_or_zero p k) (price_or_zero q k))) ?ks))"
    unfolding a fold_set_entry(1) by (simp only: map_of.simps empty_map_add)
  then have v: "price_or_zero (add_prices p q) k = js_add (price_or_zero p k) (price_or_zero q k)" if "k \<in> ?K" for k
    using that by (simp only: price_or_zero_def [of "add_prices p q"] map_of_keys) simp
  have "price_sum env (add_prices p q) =
      (\<Sum>k \<in> ?K. fval (price_or_zero p k) * quantity env k + fval (price_or_zero q k) * quantity env k)"
    unfolding price_sum_set [OF d] keys
    by (rule sum.cong [OF refl]) (use assms(3) v in \<open>simp add: exactly_def algebra_simps\<close>)
  also have "\<dots> = price_sum env p + price_sum env q"
    unfolding sum.distrib
    using price_sum_superset [OF assms(1), of ?K env] price_sum_superset [OF assms(2), of ?K env] by simp
  finally show ?thesis .
qed

lemma set_entry_new: "k \<notin> fst ` set ms \<Longrightarrow> set_entry k v ms = ms @ [(k, v)]"
  by (induction ms) auto

lemma fold_set_entry_new:
  "distinct (map g es) \<Longrightarrow> g ` set es \<inter> fst ` set ms = {} \<Longrightarrow>
   fold (\<lambda>e. set_entry (g e) (h e)) es ms = ms @ map (\<lambda>e. (g e, h e)) es"
proof (induction es arbitrary: ms)
  case (Cons e es)
  then show ?case by (auto simp: set_entry_new)
qed simp

lemma price_sum_scale:
  assumes "distinct (map fst ps)" and "\<forall>(k, p) \<in> set ps. exactly (js_mul p z) (fval p * w)"
  shows "price_sum env (scale_prices ps z) = price_sum env ps * w"
proof -
  have "scale_prices ps z = map (\<lambda>e. (fst e, js_mul (snd e) z)) ps"
    using fold_set_entry_new [of fst ps "[]"] assms(1) by (simp add: scale_prices_def case_prod_unfold)
  then have "price_sum env (scale_prices ps z) = (\<Sum>e\<leftarrow>ps. fval (js_mul (snd e) z) * quantity env (fst e))"
    by (simp add: price_sum_def comp_def)
  also have "\<dots> = (\<Sum>e\<leftarrow>ps. fval (snd e) * quantity env (fst e) * w)"
    using assms(2) by (intro arg_cong [of _ _ sum_list] map_cong) (auto simp: exactly_def dest!: bspec)
  also have "\<dots> = price_sum env ps * w"
    by (simp add: price_sum_def case_prod_unfold sum_list_mult_const)
  finally show ?thesis .
qed

section \<open>The cost of a pair of branches\<close>

definition rat_op :: "jstring \<Rightarrow> rat \<Rightarrow> rat \<Rightarrow> rat" where
  "rat_op f p q = (if f = js ''+'' then p + q else if f = js ''*'' then p * q else p / q)"

definition pair_price :: "jstring \<Rightarrow> price_branch \<Rightarrow> price_branch \<Rightarrow> jstring \<Rightarrow> rat" where
  "pair_price f a b k =
     (let p = fval (price_or_zero (pb_prices a) k); q = fval (price_or_zero (pb_prices b) k)
      in if f = js ''+'' then p + q
         else if f = js ''*'' then (if pb_prices a \<noteq> [] then p * fval (pb_constant b) else q * fval (pb_constant a))
         else p * (1 / fval (pb_constant b)))"

text \<open>No operation rounds, neither in the prices of the pair nor in the cost.\<close>

definition pair_exact :: "runtime_env \<Rightarrow> jstring \<Rightarrow> price_branch \<Rightarrow> price_branch \<Rightarrow> bool" where
  "pair_exact env f a b \<longleftrightarrow>
     representable (rat_op f (fval (pb_constant a)) (fval (pb_constant b)))
     \<and> (f = js ''/'' \<longrightarrow> representable (1 / fval (pb_constant b)))
     \<and> list_all (\<lambda>k. representable (pair_price f a b k)) (map fst (pb_prices a) @ map fst (pb_prices b))
     \<and> representable (rat_op f (linear_cost env a) (linear_cost env b))"

definition finite_amounts :: "price_branch \<Rightarrow> bool" where
  "finite_amounts b \<longleftrightarrow> is_finite (pb_constant b) \<and> list_all is_finite (map snd (pb_prices b))"

lemma exactly_fval: "is_finite x \<Longrightarrow> exactly x (fval x)"
  by (simp add: exactly_def)

lemma finite_price: "finite_amounts b \<Longrightarrow> is_finite (price_or_zero (pb_prices b) k)"
  by (auto simp: finite_amounts_def price_or_zero_def list_all_iff is_finite_def [of "Fin 0"]
      split: option.splits dest!: map_of_SomeD)

lemma pair_amounts_ok: "combine_pair f a b = Some c \<Longrightarrow> list_all amount_ok (pb_constant c # map snd (pb_prices c))"
  by (auto simp: combine_pair_def split: option.splits if_splits)

lemma pair_finite: "combine_pair f a b = Some c \<Longrightarrow> finite_amounts c"
  using pair_amounts_ok [of f a b c] by (simp add: finite_amounts_def amount_ok_def list_all_iff)

lemma pair_cost_add:
  assumes "combine_pair (js ''+'') a b = Some c" and "branch_maps a" and "branch_maps b"
    and "finite_amounts a" and "finite_amounts b" and "pair_exact env (js ''+'') a b"
  shows "linear_cost env c = linear_cost env a + linear_cost env b"
proof -
  from assms(1) have c: "pb_constant c = js_add (pb_constant a) (pb_constant b)"
    "pb_prices c = add_prices (pb_prices a) (pb_prices b)"
    by (auto simp: combine_pair_def pair_amounts_def split: if_splits)
  have "exactly (js_add (pb_constant a) (pb_constant b)) (fval (pb_constant a) + fval (pb_constant b))"
    using assms(4-6) by (intro exactly_add) (auto simp: pair_exact_def rat_op_def finite_amounts_def exactly_def)
  moreover have "price_sum env (add_prices (pb_prices a) (pb_prices b)) = price_sum env (pb_prices a) + price_sum env (pb_prices b)"
  proof (rule price_sum_add)
    show "\<forall>k \<in> set (map fst (pb_prices a) @ map fst (pb_prices b)).
        exactly (js_add (price_or_zero (pb_prices a) k) (price_or_zero (pb_prices b) k))
          (fval (price_or_zero (pb_prices a) k) + fval (price_or_zero (pb_prices b) k))"
      using assms(6) finite_price [OF assms(4)] finite_price [OF assms(5)]
      by (intro ballI exactly_add exactly_fval) (auto simp: pair_exact_def pair_price_def list_all_iff)
  qed (use assms(2,3) in \<open>auto simp: branch_maps_def\<close>)
  ultimately show ?thesis by (simp add: linear_cost_def c exactly_def)
qed

lemma scaled_cost:
  assumes "branch_maps b" and "finite_amounts b" and "exactly z w"
    and "\<forall>(k, p) \<in> set (pb_prices b). representable (fval p * w)"
  shows "price_sum env (scale_prices (pb_prices b) z) = price_sum env (pb_prices b) * w"
proof (rule price_sum_scale)
  show "\<forall>(k, p) \<in> set (pb_prices b). exactly (js_mul p z) (fval p * w)"
    using assms(2-4) by (fastforce simp: finite_amounts_def list_all_iff intro!: exactly_mul exactly_fval)
qed (use assms(1) in \<open>simp add: branch_maps_def\<close>)

lemma entry_representable:
  assumes "pair_exact env f a b" and "(k, p) \<in> set (pb_prices a) \<or> (k, p) \<in> set (pb_prices b)"
  shows "representable (pair_price f a b k)"
  using assms by (force simp: pair_exact_def list_all_iff)

lemma pair_cost_mul:
  assumes "combine_pair (js ''*'') a b = Some c" and "branch_maps a" and "branch_maps b"
    and "finite_amounts a" and "finite_amounts b" and "pair_exact env (js ''*'') a b"
  shows "linear_cost env c = linear_cost env a * linear_cost env b"
proof -
  have k: "exactly (js_mul (pb_constant a) (pb_constant b)) (fval (pb_constant a) * fval (pb_constant b))"
    using assms(4-6) by (intro exactly_mul) (auto simp: pair_exact_def rat_op_def finite_amounts_def exactly_def)
  have z: "exactly (pb_constant a) (fval (pb_constant a))" "exactly (pb_constant b) (fval (pb_constant b))"
    using assms(4,5) by (auto simp: finite_amounts_def exactly_def)
  show ?thesis
  proof (cases "pb_prices a = []")
    case True
    with assms(1) have c: "pb_constant c = js_mul (pb_constant a) (pb_constant b)"
      "pb_prices c = scale_prices (pb_prices b) (pb_constant a)"
      by (auto simp: combine_pair_def pair_amounts_def split: if_splits)
    have "\<forall>(k, p) \<in> set (pb_prices b). representable (fval p * fval (pb_constant a))"
      using entry_representable [OF assms(6)] assms(3) True
      by (force simp: pair_price_def price_or_zero_entry branch_maps_def)
    from scaled_cost [OF assms(3,5) z(1) this, of env] k show ?thesis
      by (simp add: linear_cost_def c exactly_def True price_sum_def [of env "[]"] algebra_simps)
  next
    case False
    with assms(1) have c: "pb_constant c = js_mul (pb_constant a) (pb_constant b)"
      "pb_prices c = scale_prices (pb_prices a) (pb_constant b)" "pb_prices b = []"
      by (auto simp: combine_pair_def pair_amounts_def split: if_splits)
    have "\<forall>(k, p) \<in> set (pb_prices a). representable (fval p * fval (pb_constant b))"
      using entry_representable [OF assms(6)] assms(2) False
      by (force simp: pair_price_def price_or_zero_entry branch_maps_def)
    from scaled_cost [OF assms(2,4) z(2) this, of env] k show ?thesis
      by (simp add: linear_cost_def c exactly_def price_sum_def [of env "[]"] algebra_simps)
  qed
qed

lemma pair_cost_div:
  assumes "combine_pair (js ''/'') a b = Some c" and "branch_maps a" and "branch_maps b"
    and "finite_amounts a" and "finite_amounts b" and "pair_exact env (js ''/'') a b"
  shows "linear_cost env c = linear_cost env a / linear_cost env b \<and> linear_cost env b \<noteq> 0"
proof -
  from assms(1) have b: "pb_prices b = []" "\<not> js_le (pb_constant b) (Fin 0)"
    and c: "pb_constant c = js_div (pb_constant a) (pb_constant b)"
      "pb_prices c = scale_prices (pb_prices a) (js_div (Fin 1) (pb_constant b))"
    by (cases "pb_prices a = []"; force simp: combine_pair_def pair_amounts_def Let_def split: if_splits)+
  from b(2) assms(5) have nz: "fval (pb_constant b) \<noteq> 0"
    by (auto simp: finite_amounts_def js_le_def js_eq_def js_lt_def is_finite_def fval_def split: jsnum.splits)
  have k: "exactly (js_div (pb_constant a) (pb_constant b)) (fval (pb_constant a) / fval (pb_constant b))"
    using assms(4-6) nz by (intro exactly_div) (auto simp: pair_exact_def rat_op_def finite_amounts_def exactly_def)
  have z: "exactly (js_div (Fin 1) (pb_constant b)) (1 / fval (pb_constant b))"
    using assms(5,6) nz
    by (intro exactly_div) (auto simp: pair_exact_def finite_amounts_def exactly_def is_finite_def [of "Fin 1"])
  have "\<forall>(k, p) \<in> set (pb_prices a). representable (fval p * (1 / fval (pb_constant b)))"
    using entry_representable [OF assms(6)] assms(2)
    by (force simp: pair_price_def price_or_zero_entry branch_maps_def)
  from scaled_cost [OF assms(2,4) z this, of env] k b nz show ?thesis
    by (simp add: linear_cost_def c exactly_def price_sum_def [of env "[]"] add_divide_distrib)
qed

lemma pair_cost:
  assumes "combine_pair f a b = Some c" and "is_linear f" and "branch_maps a" and "branch_maps b"
    and "finite_amounts a" and "finite_amounts b" and "pair_exact env f a b"
  shows "linear_cost env c = rat_op f (linear_cost env a) (linear_cost env b)
    \<and> (f = js ''/'' \<longrightarrow> linear_cost env b \<noteq> 0)"
  using assms(2) pair_cost_add [of a b c env] pair_cost_mul [of a b c env] pair_cost_div [of a b c env] assms
  by (auto simp: is_linear_def rat_op_def)

section \<open>The branch that applies is the one evaluated\<close>

fun exact_on :: "(jstring \<Rightarrow> bool) \<Rightarrow> task_display_context \<Rightarrow> runtime_env \<Rightarrow> expr \<Rightarrow> bool" where
  "exact_on \<tau> ctx env (Binary f l r a b) =
     (exact_on \<tau> ctx env l \<and> exact_on \<tau> ctx env r \<and>
      (case (branches ctx l, branches ctx r) of
         (Some ls, Some rs) \<Rightarrow>
           list_all (\<lambda>(a, b). pair_exact env f a b)
             (List.product (filter (agrees \<tau>) ls) (filter (agrees \<tau>) rs))
       | _ \<Rightarrow> True))"
| "exact_on \<tau> ctx env (Conditional c x y a b) = (exact_on \<tau> ctx env x \<and> exact_on \<tau> ctx env y)"
| "exact_on \<tau> ctx env (Call f es a b) =
     (list_all (exact_on \<tau> ctx env) es \<and>
      (case es of Literal (LStr field) _ _ _ # _ \<Rightarrow> f = js ''u'' \<longrightarrow> is_number (usage_of env field) | _ \<Rightarrow> True))"
| "exact_on \<tau> ctx env _ = True"

lemma evaluate_finite: "evaluate env d e st = Inr (v, st') \<Longrightarrow> rv_value v = JNum x \<Longrightarrow> is_finite x"
  by (subst (asm) evaluate.simps) (auto simp: checked_value_def split: if_splits jsval.splits)

lemma evaluate_linear:
  assumes "evaluate env d (Binary f l r a b) st = Inr (v, st')" and "is_linear f"
  obtains x s1 y where "evaluate env (d + 1) l st = Inr (x, s1)" "evaluate env (d + 1) r s1 = Inr (y, st')"
    "binary_values f x y a = Inr v"
  using evaluate_Binary [OF assms(1)] assms(2) by (auto simp: binary_def is_linear_def)

lemma linear_exact:
  assumes "binary_values f x y a = Inr v" and "is_linear f" and "rv_value x = JNum m" and "rv_value y = JNum n"
    and "exactly m p" and "exactly n q" and "representable (rat_op f p q)" and "f = js ''/'' \<longrightarrow> q \<noteq> 0"
  shows "\<exists>z. rv_value v = JNum z \<and> exactly z (rat_op f p q)"
  using assms exactly_add [OF assms(5,6)] exactly_mul [OF assms(5,6)] exactly_div [OF assms(5,6)]
  by (auto simp: is_linear_def binary_values_def concatenation_def comparison_def arithmetic_def rat_op_def)

definition described_by ::
  "(jstring \<Rightarrow> bool) \<Rightarrow> task_display_context \<Rightarrow> runtime_env \<Rightarrow> expr \<Rightarrow> price_branch \<Rightarrow> runtime_state
   \<Rightarrow> runtime_value \<Rightarrow> runtime_state \<Rightarrow> bool" where
  "described_by \<tau> ctx env e b st v st' \<longleftrightarrow>
     rt_tier st' = (case pb_label b of Some l \<Rightarrow> l | None \<Rightarrow> rt_tier st)
     \<and> (exact_on \<tau> ctx env e \<longrightarrow>
          finite_amounts b \<and> (\<exists>x. rv_value v = JNum x \<and> exactly x (linear_cost env b)))"

lemma described_usage:
  assumes "evaluate env d e st = Inr (v, st')" and "e = Call (js ''u'') (Literal (LStr field) i a b # rest) a' b'"
  shows "described_by \<tau> ctx env e \<lparr>pb_label = None, pb_constant = Fin 0, pb_prices = [(field, Fin 1)], pb_times = []\<rparr> st v st'"
proof -
  note u = usage_state [OF assms(1) [unfolded assms(2)]]
  have "\<exists>x. usage_of env field = JNum x" if "exact_on \<tau> ctx env e"
    using that assms(2) by (cases "usage_of env field") auto
  with u evaluate_finite [OF assms(1)] show ?thesis
    by (auto simp: described_by_def finite_amounts_def is_finite_def [of "Fin _"] exactly_def linear_cost_def
        price_sum_def quantity_def)
qed

lemma described_pair:
  assumes l: "described_by \<tau> ctx env l a st x s1" and r: "described_by \<tau> ctx env r b s1 y st'"
    and v: "binary_values f x y p = Inr v" and f: "is_linear f"
    and ls: "branches ctx l = Some ls" and rs: "branches ctx r = Some rs"
    and a: "filter (agrees \<tau>) ls = [a]" and b: "filter (agrees \<tau>) rs = [b]"
    and c: "combine_pair f a b = Some c" and lab: "pb_label a = None \<or> pb_label b = None"
  shows "described_by \<tau> ctx env (Binary f l r m n) c st v st'"
proof -
  from c have "pb_label c = (case pb_label a of Some l \<Rightarrow> Some l | None \<Rightarrow> pb_label b)"
    by (auto simp: combine_pair_def split: option.splits if_splits)
  with l r lab have tier: "rt_tier st' = (case pb_label c of Some l \<Rightarrow> l | None \<Rightarrow> rt_tier st)"
    by (auto simp: described_by_def split: option.splits)
  have "a \<in> set (filter (agrees \<tau>) ls)" "b \<in> set (filter (agrees \<tau>) rs)" by (simp_all only: a b list.set_intros)
  then have "a \<in> set ls" "b \<in> set rs" by simp_all
  with branches_maps [OF ls] branches_maps [OF rs] have maps: "branch_maps a" "branch_maps b" by auto
  have "finite_amounts c \<and> (\<exists>x. rv_value v = JNum x \<and> exactly x (linear_cost env c))"
    if ex: "exact_on \<tau> ctx env (Binary f l r m n)"
  proof -
    from ex have e: "exact_on \<tau> ctx env l" "exact_on \<tau> ctx env r" "pair_exact env f a b"
      by (simp_all add: ls rs a b)
    from l r e obtain i j where fin: "finite_amounts a" "finite_amounts b"
      and ij: "rv_value x = JNum i" "exactly i (linear_cost env a)" "rv_value y = JNum j" "exactly j (linear_cost env b)"
      by (auto simp: described_by_def)
    note cost = pair_cost [OF c f maps fin e(3)]
    have "representable (rat_op f (linear_cost env a) (linear_cost env b))" using e(3) by (simp add: pair_exact_def)
    from linear_exact [OF v f ij(1,3,2,4) this cost [THEN conjunct2]] cost pair_finite [OF c] show ?thesis by simp
  qed
  with tier show ?thesis by (simp add: described_by_def)
qed

lemma described_branch:
  assumes "described_by \<tau> ctx env x b s v st'" and "rt_tier s = rt_tier st" and "exact_on \<tau> ctx env e \<longrightarrow> exact_on \<tau> ctx env x"
  shows "described_by \<tau> ctx env e b st v st'" and "described_by \<tau> ctx env e (b\<lparr>pb_times := ts\<rparr>) st v st'"
  using assms by (cases "pb_label b"; auto simp: described_by_def linear_cost_def finite_amounts_def)+

lemma evaluated_condition:
  assumes "shown ctx c = Some k" and "reads \<tau> ctx env c" and "facts_hold env (dc_facts ctx)"
    and "facts_declared (dc_schema ctx) (dc_facts ctx)" and "state_ok env st"
    and "evaluate env d (Conditional c x y m n) st = Inr (v, st')"
  obtains s where "evaluate env (d + 1) (if truth \<tau> k then x else y) s = Inr (v, st')"
    "rt_tier s = rt_tier st" "state_ok env s"
proof -
  from assms(6) obtain t s1 where t: "boolean (evaluate env (d + 1)) c st = Inr (t, s1)"
    and run: "evaluate env (d + 1) (if t then x else y)
       (mark_rule (env_rules env) (Conditional c x y m n) t s1) = Inr (v, st')"
    by (rule evaluate_Conditional)
  from t obtain i where e: "evaluate env (d + 1) c st = Inr (\<lparr>rv_value = JBool t, rv_integer = i\<rparr>, s1)"
    by (auto simp: boolean_Inr)
  from condition_sound [OF assms(1-5) e] time_steps.evaluate_related [OF e] assms(5) run
  show thesis
    by (intro that [of "mark_rule (env_rules env) (Conditional c x y m n) t s1"])
      (auto simp: mark_rule_def split: option.splits)
qed

lemma branch_evaluated:
  "branches ctx e = Some bs \<Longrightarrow> reads \<tau> ctx env e \<Longrightarrow> facts_hold env (dc_facts ctx) \<Longrightarrow>
   facts_declared (dc_schema ctx) (dc_facts ctx) \<Longrightarrow> state_ok env st \<Longrightarrow> evaluate env d e st = Inr (v, st') \<Longrightarrow>
   filter (agrees \<tau>) bs = [b] \<Longrightarrow> described_by \<tau> ctx env e b st v st'"
proof (induction e arbitrary: bs b d st v st' rule: measure_induct_rule [of size])
  case (less e)
  note hyps = less.prems(3,4)
  from less.prems(1) show ?case
  proof (cases rule: branches_cases)
    case (1 x i m n)
    with less.prems(7) have b: "b = \<lparr>pb_label = None, pb_constant = x, pb_prices = [], pb_times = []\<rparr>"
      by (simp add: agrees_def)
    from 1 less.prems(6) have "rv_value v = JNum x \<and> st' = st" by (auto dest!: evaluate_Literal)
    with evaluate_finite [OF less.prems(6)] show ?thesis
      by (simp add: described_by_def b finite_amounts_def exactly_def linear_cost_def price_sum_def)
  next
    case (2 field i m n rest m' n')
    with less.prems(7) have "b = \<lparr>pb_label = None, pb_constant = Fin 0, pb_prices = [(field, Fin 1)], pb_times = []\<rparr>"
      by (simp add: agrees_def)
    with described_usage [OF less.prems(6) 2(1)] show ?thesis by simp
  next
    case (3 l i m n body rest m' n' us)
    obtain u where u: "filter (agrees \<tau>) us = [u]" using one_branch [OF 3(2)] by blast
    with 3(4) less.prems(7) have b: "b = u\<lparr>pb_label := Some l\<rparr>"
      by (simp add: filter_map comp_def agrees_def [abs_def])
    have "u \<in> set (filter (agrees \<tau>) us)" by (simp only: u list.set_intros)
    with 3(3) have lab: "pb_label u = None" by simp
    from less.prems(6) [unfolded 3(1)] obtain w j s1 where
      w: "evaluate env (d + 1) body st = Inr (\<lparr>rv_value = JNum w, rv_integer = j\<rparr>, s1)"
      "v = \<lparr>rv_value = JNum w, rv_integer = None\<rparr>" "st' = s1\<lparr>rt_tier := l\<rparr>"
      by (rule evaluate_tier)
    have "described_by \<tau> ctx env body u st \<lparr>rv_value = JNum w, rv_integer = j\<rparr> s1"
      by (rule less.IH [OF _ 3(2) _ hyps less.prems(5) w(1) u]) (use 3(1) less.prems(2) in auto)
    then show ?thesis by (auto simp: described_by_def b w 3(1) linear_cost_def finite_amounts_def)
  next
    case (4 c yes no m n t)
    from less.prems(2) 4(1) have r: "reads \<tau> ctx env c" "reads \<tau> ctx env (if t then yes else no)" by auto
    from evaluated_condition [OF 4(2) r(1) hyps less.prems(5) less.prems(6) [unfolded 4(1)]] obtain s where
      s: "evaluate env (d + 1) (if t then yes else no) s = Inr (v, st')" "rt_tier s = rt_tier st" "state_ok env s"
      by auto
    have "described_by \<tau> ctx env (if t then yes else no) b s v st'"
      by (rule less.IH [OF _ 4(3) r(2) hyps s(3,1) less.prems(7)]) (simp add: 4(1))
    from described_branch(1) [OF this s(2)] show ?thesis by (simp add: 4(1))
  next
    case (5 c yes no m n t ys ns)
    let ?x = "if \<tau> t then yes else no" let ?us = "if \<tau> t then ys else ns"
    from less.prems(2) 5(1) have r: "reads \<tau> ctx env c" "reads \<tau> ctx env ?x" by auto
    have us: "branches ctx ?x = Some ?us" using 5(3,4) by simp
    then obtain u where u: "filter (agrees \<tau>) ?us = [u]" using one_branch by blast
    with filter_split [OF 5(3,4), of \<tau> t] less.prems(7) 5(5)
    have b: "b = u\<lparr>pb_times := new_map ((t, \<tau> t) # pb_times u)\<rparr>" by simp
    from evaluated_condition [OF 5(2) r(1) hyps less.prems(5) less.prems(6) [unfolded 5(1)]] obtain s where
      s: "evaluate env (d + 1) ?x s = Inr (v, st')" "rt_tier s = rt_tier st" "state_ok env s"
      by auto
    have "described_by \<tau> ctx env ?x u s v st'"
      by (rule less.IH [OF _ us r(2) hyps s(3,1) u]) (simp add: 5(1))
    from described_branch(2) [OF this s(2)] show ?thesis by (simp add: 5(1) b)
  next
    case (6 f l r m n ls rs)
    from less.prems(6) [unfolded 6(1)] 6(2) obtain x s1 y where
      x: "evaluate env (d + 1) l st = Inr (x, s1)" and y: "evaluate env (d + 1) r s1 = Inr (y, st')"
      and v: "binary_values f x y m = Inr v"
      by (rule evaluate_linear)
    from time_steps.evaluate_related [OF x] less.prems(5) have ok: "state_ok env s1" by simp
    from less.prems(2) 6(1) have rd: "reads \<tau> ctx env l" "reads \<tau> ctx env r" by auto
    obtain a where a: "filter (agrees \<tau>) ls = [a]" using one_branch [OF 6(3)] by blast
    obtain b' where b': "filter (agrees \<tau>) rs = [b']" using one_branch [OF 6(4)] by blast
    from filter_binary [OF 6(3,4,6), of \<tau>] less.prems(7) a b' have b: "b = pair_result f (a, b')" by simp
    have mem: "a \<in> set (filter (agrees \<tau>) ls)" "b' \<in> set (filter (agrees \<tau>) rs)" by (simp_all only: a b' list.set_intros)
    with clash_disagrees [of a b' \<tau>] have "\<not> times_clash a b'" by auto
    with product_loop_spec [OF 6(6)] mem have c: "combine_pair f a b' = Some b" "pb_label a = None \<or> pb_label b' = None"
      by (auto simp: b)
    have "described_by \<tau> ctx env l a st x s1"
      by (rule less.IH [OF _ 6(3) rd(1) hyps less.prems(5) x a]) (simp add: 6(1))
    moreover have "described_by \<tau> ctx env r b' s1 y st'"
      by (rule less.IH [OF _ 6(4) rd(2) hyps ok y b']) (simp add: 6(1))
    ultimately show ?thesis unfolding 6(1) by (rule described_pair [OF _ _ v 6(2-4) a b' c])
  qed
qed

end
