(* ===== verification/Task_Pricing_Correct.thy ===== *)
theory Task_Pricing_Correct
  imports Task_Rows_Correct
begin

text \<open>
  The rows of \<open>readConditionalTaskPricing\<close>: which row a request falls into and what it costs, and
  the bounds that every row keeps.
\<close>

section \<open>The combinations of facts\<close>

definition facts_of :: "usage_schema \<Rightarrow> jstring list \<Rightarrow> runtime_env \<Rightarrow> js_object" where
  "facts_of schema fs env =
     concat (map (\<lambda>f. case map_of schema f of
       Some def \<Rightarrow> if uf_type def = Some (js ''number'') then [] else [(f, usage_of env f)]
     | None \<Rightarrow> []) fs)"

text \<open>The categorical fields have one of their declared values, each declared once.\<close>

definition usage_fits :: "usage_schema \<Rightarrow> jstring list \<Rightarrow> runtime_env \<Rightarrow> bool" where
  "usage_fits schema fs env =
     list_all (\<lambda>f. case map_of schema f of
       Some def \<Rightarrow>
         uf_type def = Some (js ''number'')
         \<or> usage_of env f \<in> set (fact_values def) \<and> distinct (fact_values def)
     | None \<Rightarrow> False) fs"

lemma facts_hold_snoc: "facts_hold env (c @ [(f, v)]) \<longleftrightarrow> facts_hold env c \<and> usage_of env f = v"
  by (simp add: facts_hold_def)

lemma filter_single: "distinct vs \<Longrightarrow> u \<in> set vs \<Longrightarrow> filter (\<lambda>v. u = v) vs = [u]"
  by (induction vs) (auto simp: filter_empty_conv)

lemma filter_extended:
  assumes "distinct vs" and "usage_of env f \<in> set vs"
  shows "filter (facts_hold env) (concat (map (\<lambda>c. map (\<lambda>v. c @ [(f, v)]) vs) cs))
    = map (\<lambda>c. c @ [(f, usage_of env f)]) (filter (facts_hold env) cs)"
proof (induction cs)
  case (Cons c cs)
  have "filter (facts_hold env) (map (\<lambda>v. c @ [(f, v)]) vs)
      = (if facts_hold env c then [c @ [(f, usage_of env f)]] else [])"
    using filter_single [OF assms] by (simp add: filter_map comp_def facts_hold_snoc)
  with Cons show ?case by simp
qed simp

lemma fresh_extension:
  assumes "\<forall>c \<in> set cs. f \<notin> fst ` set c"
  shows "concat (map (\<lambda>c. map (\<lambda>v. set_entry f v c) vs) cs) = concat (map (\<lambda>c. map (\<lambda>v. c @ [(f, v)]) vs) cs)"
  using assms by (auto simp: set_entry_new cong: map_cong)

lemma combinations_select:
  "fact_combinations schema fs cs = Some cs' \<Longrightarrow> distinct fs \<Longrightarrow> usage_fits schema fs env \<Longrightarrow>
   \<forall>c \<in> set cs. facts_declared schema c \<and> fst ` set c \<inter> set fs = {} \<Longrightarrow> filter (facts_hold env) cs = [c] \<Longrightarrow>
   filter (facts_hold env) cs' = [c @ facts_of schema fs env] \<and> (\<forall>c \<in> set cs'. facts_declared schema c)"
proof (induction fs arbitrary: cs c)
  case (Cons f fs)
  from Cons.prems(1) obtain def where def: "map_of schema f = Some def" by (auto split: option.splits)
  show ?case
  proof (cases "uf_type def = Some (js ''number'')")
    case True
    with Cons.prems def have "fact_combinations schema fs cs = Some cs'" by simp
    from Cons.IH [OF this _ _ _ Cons.prems(5)] Cons.prems def True show ?thesis
      by (simp add: usage_fits_def facts_of_def)
  next
    case False
    let ?vs = "fact_values def"
    let ?next = "concat (map (\<lambda>c. map (\<lambda>v. c @ [(f, v)]) ?vs) cs)"
    have fresh: "\<forall>c \<in> set cs. f \<notin> fst ` set c" using Cons.prems(4) by auto
    from Cons.prems(1) def False fresh_extension [OF fresh, of ?vs]
    have run: "fact_combinations schema fs ?next = Some cs'" by (simp split: if_splits)
    from Cons.prems(3) def False have u: "usage_of env f \<in> set ?vs" "distinct ?vs" "usage_fits schema fs env"
      by (auto simp: usage_fits_def)
    have "\<forall>c \<in> set ?next. facts_declared schema c \<and> fst ` set c \<inter> set fs = {}"
      using Cons.prems(2,4) def by (fastforce simp: facts_declared_def)
    from Cons.IH [OF run _ u(3) this] Cons.prems(2,5) filter_extended [OF u(2,1), of cs] show ?thesis
      by (simp add: facts_of_def def False)
  qed
qed (simp add: facts_of_def)

section \<open>The rows are the branches\<close>

abbreviation display_context :: "jstring \<Rightarrow> usage_schema \<Rightarrow> js_object \<Rightarrow> task_display_context" where
  "display_context source schema facts \<equiv> \<lparr>dc_source = source, dc_schema = schema, dc_facts = facts\<rparr>"

definition branch_table ::
  "jstring \<Rightarrow> usage_schema \<Rightarrow> expr \<Rightarrow> js_object list \<Rightarrow> (js_object \<times> price_branch) list" where
  "branch_table source schema ast cs =
     concat (map (\<lambda>facts. map (Pair facts) (the (branches (display_context source schema facts) ast))) cs)"

lemma map_opt_list_all2: "map_opt f xs = Some ys \<longleftrightarrow> list_all2 (\<lambda>x y. f x = Some y) xs ys"
  by (induction xs arbitrary: ys) (auto simp: list_all2_Cons1 split: option.splits)

lemma display_rows_table:
  "display_rows source schema fs ast cs n tiers = Some rows \<Longrightarrow>
   \<exists>rest. rows = tiers @ rest
     \<and> list_all2 (\<lambda>(facts, b) row. branch_row schema fs facts b = Some row) (branch_table source schema ast cs) rest
     \<and> (\<forall>facts \<in> set cs. branches (display_context source schema facts) ast \<noteq> None)
     \<and> (length tiers \<le> MAX_DISPLAY_ROWS \<longrightarrow> length rows \<le> MAX_DISPLAY_ROWS)"
proof (induction cs arbitrary: n tiers)
  case (Cons facts cs)
  from Cons.prems obtain bs m new where
    run: "taskPriceBranches (display_context source schema facts) ast n = (Some bs, m)"
    and small: "length tiers + length bs \<le> MAX_DISPLAY_ROWS"
    and new: "map_opt (branch_row schema fs facts) bs = Some new"
    and more: "display_rows source schema fs ast cs m (tiers @ new) = Some rows"
    by (auto simp: not_less split: prod.splits option.splits if_splits)
  from branches_budget [OF run] have bs: "branches (display_context source schema facts) ast = Some bs" by simp
  from new have l: "list_all2 (\<lambda>b row. branch_row schema fs facts b = Some row) bs new"
    by (simp add: map_opt_list_all2)
  from Cons.IH [OF more] obtain rest where
    rest: "rows = tiers @ new @ rest"
      "list_all2 (\<lambda>(facts, b) row. branch_row schema fs facts b = Some row) (branch_table source schema ast cs) rest"
      "\<forall>facts \<in> set cs. branches (display_context source schema facts) ast \<noteq> None"
      "length (tiers @ new) \<le> MAX_DISPLAY_ROWS \<longrightarrow> length rows \<le> MAX_DISPLAY_ROWS"
    by auto
  with l bs small list_all2_lengthD [OF l] show ?case
    by (intro exI [of _ "new @ rest"])
      (auto simp: branch_table_def list_all2_map1 intro: list_all2_appendI)
qed (simp add: branch_table_def)

lemma filter_table:
  assumes "\<forall>facts \<in> set cs. branches (display_context source schema facts) ast \<noteq> None"
    and "filter (facts_hold env) cs = [facts]"
    and "filter (agrees \<tau>) (the (branches (display_context source schema facts) ast)) = [b]"
  shows "filter (\<lambda>(facts, b). facts_hold env facts \<and> agrees \<tau> b) (branch_table source schema ast cs) = [(facts, b)]"
proof -
  let ?bs = "\<lambda>facts. the (branches (display_context source schema facts) ast)"
  have "filter (\<lambda>(facts, b). facts_hold env facts \<and> agrees \<tau> b) (branch_table source schema ast cs)
      = concat (map (\<lambda>facts. map (Pair facts) (filter (agrees \<tau>) (?bs facts))) (filter (facts_hold env) cs))" for cs
    unfolding branch_table_def
    by (induction cs) (auto simp: filter_map comp_def)
  with assms(2,3) show ?thesis by simp
qed

section \<open>The reader\<close>

lemma usage_visitor_distinct:
  assumes "visitExpression e (usage_visitor schema) ([], True) = Inr (fs, valid)" and "height e \<le> 256"
  shows "distinct fs"
proof -
  have run: "fold_m (usage_visitor schema) (subnodes e) ([], True) = Inr (fs, valid)"
    using assms by (simp add: visitExpression_rec visit_rec_fold)
  have step: "usage_visitor schema x s = Inr s' \<Longrightarrow> distinct (fst s) \<Longrightarrow> distinct (fst s')" for x s s'
    by (auto simp: usage_visitor_def split: expr.splits if_splits list.splits lit_value.splits)
  have "distinct (fst (fs, valid))"
    by (rule fold_m_invariant [where P = "\<lambda>s. distinct (fst s)", OF run]) (auto dest: step)
  then show ?thesis by simp
qed

lemma reader_cases:
  assumes "cache_ok cache" and "readConditionalTaskPricing cache source schema = (Inr (Some rows), cache')"
    and "compile_result source = Ready c"
    and "visitExpression (cb_ast c) (usage_visitor schema) ([], True) = Inr (fs, True)"
  obtains cs where "fact_combinations schema fs [[]] = Some cs"
    "display_rows source schema fs (cb_ast c) cs 20000 [] = Some rows"
proof -
  obtain r cache1 where r: "compileBillingExpression cache source = (r, cache1)" by fastforce
  with compile_cache_ok(2) [OF assms(1) r] assms(3) have "r = Ready c" by simp
  with assms r that show thesis
    by (auto simp: readConditionalTaskPricing_def split: option.splits)
qed

lemma compiled_height: "compile_result source = Ready c \<Longrightarrow> height (cb_ast c) \<le> 256"
  by (auto simp: compile_result_def compile_try_def checkExpressionTypes_iff split: sum.splits)

lemma table_facts:
  assumes "compile_result source = Ready c" and "fact_combinations schema fs [[]] = Some cs"
    and "visitExpression (cb_ast c) (usage_visitor schema) ([], True) = Inr (fs, True)" and "usage_fits schema fs env"
  shows "filter (facts_hold env) cs = [facts_of schema fs env]" and "facts_of schema fs env \<in> set cs"
    and "facts_hold env (facts_of schema fs env)" and "facts_declared schema (facts_of schema fs env)"
proof -
  from usage_visitor_distinct [OF assms(3) compiled_height [OF assms(1)]] combinations_select [OF assms(2) _ assms(4)]
  show held: "filter (facts_hold env) cs = [facts_of schema fs env]"
    by (simp add: facts_hold_def facts_declared_def)
  have "facts_of schema fs env \<in> set (filter (facts_hold env) cs)" by (simp only: held list.set_intros)
  then show "facts_of schema fs env \<in> set cs" "facts_hold env (facts_of schema fs env)" by auto
  with usage_visitor_distinct [OF assms(3) compiled_height [OF assms(1)]] combinations_select [OF assms(2) _ assms(4)]
  show "facts_declared schema (facts_of schema fs env)" by (simp add: facts_hold_def facts_declared_def)
qed


definition day_source :: jstring where
  "day_source = js ''u(\"q\")==\"h\"&&day(\"\")<9?tier(\"a\",u(\"s\")*2+1):tier(\"b\",4)''"

definition day_schema :: usage_schema where
  "day_schema =
     [(js ''s'', \<lparr>uf_type = Some (js ''number''), uf_unit = Some (js ''second''), uf_enum = None\<rparr>),
      (js ''q'', \<lparr>uf_type = None, uf_unit = None, uf_enum = Some [js ''h'', js ''l'']\<rparr>)]"

definition day_env :: runtime_env where
  "day_env = plain_env\<lparr>env_context := (tokens_context [])\<lparr>ctx_usage :=
     Some [(js ''q'', JStr (js ''h'')), (js ''s'', JNum (Fin 4))]\<rparr>\<rparr>"

definition early :: "jstring \<Rightarrow> bool" where
  "early s \<longleftrightarrow> s = js ''day(\"\")<9''"

abbreviation day_facts :: js_object where
  "day_facts \<equiv> facts_of day_schema [js ''q'', js ''s''] day_env"

lemma day_compiled:
  "case compile_result day_source of
     Ready c \<Rightarrow>
       (case fst (readConditionalTaskPricing [(day_source, Ready c)] day_source day_schema) of
          Inr (Some rows) \<Rightarrow> length rows = 3 | _ \<Rightarrow> False)
       \<and> visitExpression (cb_ast c) (usage_visitor day_schema) ([], True) = Inr ([js ''q'', js ''s''], True)
       \<and> reads early (display_context day_source day_schema day_facts) day_env (cb_ast c)
       \<and> \<not> isl (evaluate day_env 0 (cb_ast c) (initial_state []))
       \<and> exact_on early (display_context day_source day_schema day_facts) day_env (cb_ast c)
   | Failure f \<Rightarrow> False"
  by code_simp


section \<open>The bounds of the rows\<close>

lemma js_mul_nonneg:
  assumes "js_le (Fin 0) x" and "is_finite x" and "0 < k"
  shows "js_le (Fin 0) (js_mul x (Fin k))"
proof (cases "fval x = 0")
  case True
  with assms show ?thesis
    by (auto simp: js_mul_def Let_def is_finite_def fval_def signed_zero_def js_le_def js_eq_def split: jsnum.splits)
next
  case False
  with assms have pos: "0 < fval x * k"
    by (auto simp: js_le_def js_eq_def js_lt_def is_finite_def fval_def split: jsnum.splits)
  with False assms have "js_mul x (Fin k) = round_double (fval x * k)"
    by (auto simp: js_mul_def Let_def is_finite_def)
  with pos round_mag_nonneg [OF pos] show ?thesis
    by (auto simp: round_double_def Let_def js_le_def js_eq_def js_lt_def is_finite_def fval_def)
qed

lemma branches_amounts:
  "ast_ok e \<Longrightarrow> branches ctx e = Some bs \<Longrightarrow> \<forall>b \<in> set bs. list_all amount_ok (pb_constant b # map snd (pb_prices b))"
proof (induction e arbitrary: bs rule: measure_induct_rule [of size])
  case (less e)
  from less.prems(2) show ?case
  proof (cases rule: branches_cases)
    case (1 x i a b)
    with less.prems(1) show ?thesis by (simp add: lit_ok_def amount_ok_def)
  next
    case (2 field i a b rest a' b')
    then show ?thesis by (simp add: amount_ok_def is_finite_def js_le_def js_eq_def js_lt_def fval_def)
  next
    case (3 l i a b body rest a' b' us)
    with less.IH [of body us] less.prems(1) show ?thesis by auto
  next
    case (4 c yes no a b t)
    with less.IH [of yes bs] less.IH [of no bs] less.prems(1) show ?thesis by (cases t) auto
  next
    case (5 c yes no a b t ys ns)
    with less.IH [of yes ys] less.IH [of no ns] less.prems(1) show ?thesis
      by (auto simp: under_condition_def)
  next
    case (6 f l r a b ls rs)
    from product_loop_members [OF 6(6)] show ?thesis by (fast dest: pair_amounts_ok)
  qed
qed

definition row_ok :: "task_display_tier \<Rightarrow> bool" where
  "row_ok row \<longleftrightarrow> amount_ok (tk_constant row) \<and> tk_unit_prices row \<noteq> []
     \<and> distinct (map fst (tk_unit_prices row)) \<and> list_all amount_ok (map snd (tk_unit_prices row))"

lemma unit_prices_fields: "fst ` set (unit_prices schema fs b) \<subseteq> set fs"
  by (induction fs) (auto simp: unit_prices_def split: option.splits)

lemma unit_prices_distinct: "distinct fs \<Longrightarrow> distinct (map fst (unit_prices schema fs b))"
proof (induction fs)
  case (Cons f fs)
  have "f \<notin> fst ` set (unit_prices schema fs b)" using unit_prices_fields [of schema fs b] Cons.prems by auto
  moreover have "unit_prices schema (f # fs) b = unit_prices schema [f] b @ unit_prices schema fs b"
    by (simp add: unit_prices_def)
  moreover have "unit_prices schema [f] b = [] \<or> (\<exists>x. unit_prices schema [f] b = [(f, x)])"
    by (simp add: unit_prices_def split: option.splits)
  ultimately show ?case using Cons by (elim disjE exE) simp_all
qed (simp add: unit_prices_def)

lemma branch_row_ok:
  assumes "branch_row schema fs facts b = Some row" and "distinct fs"
    and "list_all amount_ok (pb_constant b # map snd (pb_prices b))"
  shows "row_ok row"
proof -
  from assms(1) have row: "tk_constant row = pb_constant b" "tk_unit_prices row = unit_prices schema fs b"
      "unit_prices schema fs b \<noteq> []" "list_all is_finite (map snd (unit_prices schema fs b))"
    by (auto simp: branch_row_def Let_def split: option.splits if_splits)
  have "amount_ok (price_or_zero (pb_prices b) f)" for f
    using assms(3)
    by (auto simp: price_or_zero_def list_all_iff amount_ok_def [of "Fin 0"] is_finite_def [of "Fin 0"] js_le_def [of "Fin 0" "Fin 0"]
        js_eq_def [of "Fin 0" "Fin 0"] split: option.splits dest!: map_of_SomeD)
  then have "js_le (Fin 0) (js_mul (price_or_zero (pb_prices b) f) (Fin 1000000))"
    "js_le (Fin 0) (js_mul (price_or_zero (pb_prices b) f) (Fin 1))" for f
    using js_mul_nonneg [of "price_or_zero (pb_prices b) f"] by (simp_all add: amount_ok_def)
  then have "\<forall>e \<in> set (unit_prices schema fs b). js_le (Fin 0) (snd e)"
    by (auto simp: unit_prices_def split: option.splits if_splits)
  with row assms unit_prices_distinct [OF assms(2), of schema b] show ?thesis
    by (auto simp: row_ok_def amount_ok_def list_all_iff)
qed

text \<open>
  C23. The table is bounded and its amounts are prices: an expansion has at most 128 rows, and every
  row has at least one unit price, at most one per field, and only finite amounts that are not
  negative.
\<close>

theorem readConditionalTaskPricing_bounds:
  assumes "cache_ok cache" and "readConditionalTaskPricing cache source schema = (Inr (Some rows), cache')"
  shows "length rows \<le> 128 \<and> list_all row_ok rows"
proof -
  obtain r cache1 where r: "compileBillingExpression cache source = (r, cache1)" by fastforce
  with assms(2) obtain c fs where "r = Ready c"
    and v: "visitExpression (cb_ast c) (usage_visitor schema) ([], True) = Inr (fs, True)"
    by (auto simp: readConditionalTaskPricing_def split: compilation_result.splits if_splits)
  with compile_cache_ok(2) [OF assms(1) r] have c: "compile_result source = Ready c" by simp
  from reader_cases [OF assms c v] obtain cs where
    rows: "display_rows source schema fs (cb_ast c) cs 20000 [] = Some rows" .
  have d: "distinct fs" by (rule usage_visitor_distinct [OF v compiled_height [OF c]])
  note t = display_rows_table [OF rows]
  have "row_ok row" if "row \<in> set rows" for row
  proof -
    from t that obtain facts b where
      b: "(facts, b) \<in> set (branch_table source schema (cb_ast c) cs)" "branch_row schema fs facts b = Some row"
      by (auto simp: list_all2_conv_all_nth in_set_conv_nth split: prod.splits) (metis surj_pair)
    from b(1) t obtain bs where "branches (display_context source schema facts) (cb_ast c) = Some bs" "b \<in> set bs"
      by (auto simp: branch_table_def)
    with branches_amounts [OF compile_validated(2) [OF c]] have "list_all amount_ok (pb_constant b # map snd (pb_prices b))"
      by blast
    from branch_row_ok [OF b(2) d this] show ?thesis .
  qed
  with t show ?thesis by (simp add: list_all_iff MAX_DISPLAY_ROWS_def)
qed

theorem readConditionalTaskPricing_bounds_witness:
  "\<exists>rows cache. fst (readConditionalTaskPricing cache day_source day_schema) = Inr (Some rows)
     \<and> length rows = 3 \<and> list_all row_ok rows"
proof -
  from day_compiled obtain c where c: "compile_result day_source = Ready c"
    and rows: "case fst (readConditionalTaskPricing [(day_source, Ready c)] day_source day_schema) of
          Inr (Some rows) \<Rightarrow> length rows = 3 | _ \<Rightarrow> False"
    by (auto split: compilation_result.splits)
  let ?cache = "[(day_source, Ready c)]"
  from rows obtain rows cache where r: "readConditionalTaskPricing ?cache day_source day_schema = (Inr (Some rows), cache)"
    and n: "length rows = 3"
    by (cases "readConditionalTaskPricing ?cache day_source day_schema") (auto split: sum.splits option.splits)
  have ok: "cache_ok ?cache" using c by (simp add: cache_ok_def)
  from readConditionalTaskPricing_bounds [OF ok r] n r show ?thesis by (intro exI [of _ rows] exI [of _ ?cache]) simp
qed

end
