(* ===== verification/Condition_Display.thy ===== *)
theory Condition_Display
  imports Expr_Display JS_Json
begin

text \<open>
  \<open>condition-display.ts\<close>: a condition in words for the price table.  Comparisons of one time function
  in one zone are merged into a half-open range.

  The translation function \<open>t(key, options)\<close> and the formats of the locale are not part of the
  program: they are the record \<open>wording\<close>, in which the options are the texts to insert.  An integer
  literal is an \<open>int\<close>; where \<open>value + 1\<close> rounds, the value is far outside of every domain and the
  bounds are the same.
\<close>

record wording =
  w_t :: "jstring \<Rightarrow> (jstring \<times> jstring) list \<Rightarrow> jstring"
  w_weekday :: "int \<Rightarrow> jstring"
  w_number :: "jsnum \<Rightarrow> jstring"

definition span_text :: "wording \<Rightarrow> jstring \<Rightarrow> jstring \<Rightarrow> jstring" where
  "span_text w start end0 =
     w_t w (js ''{{start}}'' @ [8211] @ js ''{{end}}'') [(js ''start'', start), (js ''end'', end0)]"

datatype description_kind = Kind_calendar | Kind_clock | Kind_combined

record description =
  ds_text :: jstring
  ds_kind :: description_kind
  ds_timezone :: jstring
  ds_disjunction :: bool

record time_comparison_part =
  tp_name :: jstring
  tp_timezone :: jstring
  tp_operator :: jstring
  tp_value :: int

definition DOMAINS :: "(jstring \<times> int \<times> int) list" where
  "DOMAINS = map (apfst js)
     [(''hour'', 0, 24), (''minute'', 0, 60), (''weekday'', 0, 7), (''month'', 1, 13), (''day'', 1, 32)]"

definition range_operators :: "jstring list" where
  "range_operators = map js [''=='', ''>='', ''>'', ''<='', ''<'']"

definition zone_or_utc :: "jstring \<Rightarrow> jstring" where
  "zone_or_utc z = (if trim z = [] then js ''UTC'' else trim z)"

fun timeComparison :: "expr \<Rightarrow> time_comparison_part option" where
  "timeComparison (Binary f (Call g (Literal (LStr z) i a b # rest) a' b') (Literal (LNum x) j c d) c' d') =
     (if f \<notin> set range_operators \<or> g \<notin> set TIME_FUNCTIONS \<or> \<not> is_integer x then None
      else Some \<lparr>tp_name = g, tp_timezone = zone_or_utc z, tp_operator = f, tp_value = \<lfloor>fval x\<rfloor>\<rparr>)"
| "timeComparison _ = None"

section \<open>Ranges\<close>

definition narrow :: "time_comparison_part \<Rightarrow> int \<times> int \<Rightarrow> int \<times> int" where
  "narrow cmp range0 =
     (case range0 of (start, end0) \<Rightarrow>
        let f = tp_operator cmp; v = tp_value cmp
        in if f = js ''>='' then (max start v, end0)
           else if f = js ''>'' then (max start (v + 1), end0)
           else if f = js ''<'' then (start, min end0 v)
           else if f = js ''<='' then (start, min end0 (v + 1))
           else if f = js ''=='' then (max start v, min end0 (v + 1))
           else (start, end0))"

definition time_range :: "time_comparison_part list \<Rightarrow> int \<times> int" where
  "time_range comparisons =
     fold narrow comparisons (the (map_of DOMAINS (tp_name (hd comparisons))))"

text \<open>\<open>String(n).padStart(2, '0')\<close> with \<open>:00\<close>.\<close>

definition clock_text :: "int \<Rightarrow> jstring" where
  "clock_text n =
     (let s = digits_of_int n in replicate (2 - length s) 48 @ s @ js '':00'')"

definition range_label :: "jstring \<Rightarrow> jstring" where
  "range_label name =
     (if name = js ''minute'' then js ''Minute'' else if name = js ''month'' then js ''Month'' else js ''Day'')"

definition range_text :: "wording \<Rightarrow> jstring \<Rightarrow> int \<Rightarrow> int \<Rightarrow> jstring" where
  "range_text w name start end0 =
     (if name = js ''hour'' then span_text w (clock_text start) (clock_text end0)
      else if name = js ''weekday''
      then (if start = end0 - 1 then w_weekday w start else span_text w (w_weekday w start) (w_weekday w (end0 - 1)))
      else w_t w (range_label name) [] @ js '': '' @
             (if start = end0 - 1 then digits_of_int start
              else span_text w (digits_of_int start) (digits_of_int (end0 - 1))))"

definition describeTimeRange :: "wording \<Rightarrow> time_comparison_part list \<Rightarrow> description option" where
  "describeTimeRange w comparisons =
     (let first = hd comparisons
      in case time_range comparisons of
           (start, end0) \<Rightarrow>
             if end0 \<le> start then None
             else Some \<lparr>ds_text = range_text w (tp_name first) start end0,
                        ds_kind = (if tp_name first = js ''hour'' then Kind_clock else Kind_calendar),
                        ds_timezone = tp_timezone first, ds_disjunction = False\<rparr>)"

section \<open>Conditions\<close>

definition token_label :: "jstring \<Rightarrow> jstring option" where
  "token_label name =
     map_of (map (apfst js) [(''p'', js ''Input''), (''c'', js ''Output''), (''len'', js ''Full input length'')]) name"

text \<open>A comparison of a token count; \<open>None\<close> when the node has another shape.\<close>

fun describe_count :: "wording \<Rightarrow> expr \<Rightarrow> description option option" where
  "describe_count w (Binary f (Variable x a b) (Literal (LNum v) i a' b') a'' b'') =
     (if f \<notin> set comparison_operators then None
      else Some (map_option (\<lambda>l. \<lparr>ds_text = w_t w l [] @ js '' '' @ f @ js '' '' @ w_number w v,
                 ds_kind = Kind_combined, ds_timezone = [], ds_disjunction = False\<rparr>) (token_label x)))"
| "describe_count w _ = None"

definition range_key :: "time_comparison_part \<Rightarrow> jstring" where
  "range_key cmp = tp_name cmp @ js '':'' @ tp_timezone cmp"

definition add_range ::
  "time_comparison_part \<Rightarrow> (jstring \<times> time_comparison_part list) list
   \<Rightarrow> (jstring \<times> time_comparison_part list) list" where
  "add_range cmp ranges =
     set_entry (range_key cmp)
       ((case map_of ranges (range_key cmp) of Some r \<Rightarrow> r | None \<Rightarrow> []) @ [cmp]) ranges"

text \<open>The loop over the operands of \<open>&&\<close>: ranges are collected, other parts are described.\<close>

fun conjunction_parts ::
  "(expr \<Rightarrow> description option) \<Rightarrow> expr list \<Rightarrow> description list
   \<Rightarrow> (jstring \<times> time_comparison_part list) list
   \<Rightarrow> (description list \<times> (jstring \<times> time_comparison_part list) list) option" where
  "conjunction_parts describe [] parts ranges = Some (parts, ranges)"
| "conjunction_parts describe (part # kids) parts ranges =
     (case timeComparison part of
        Some cmp \<Rightarrow> conjunction_parts describe kids parts (add_range cmp ranges)
      | None \<Rightarrow>
          (case describe part of
             None \<Rightarrow> None
           | Some d \<Rightarrow> conjunction_parts describe kids (parts @ [d]) ranges))"

definition all_parts ::
  "wording \<Rightarrow> jstring \<Rightarrow> (expr \<Rightarrow> description option) \<Rightarrow> expr list \<Rightarrow> description list option" where
  "all_parts w operator describe kids =
     (if operator = js ''&&''
      then (case conjunction_parts describe kids [] [] of
              None \<Rightarrow> None
            | Some (parts, ranges) \<Rightarrow>
                map_option (\<lambda>others. parts @ others) (map_opt (describeTimeRange w) (map snd ranges)))
      else map_opt describe kids)"

definition wrap_part :: "jstring \<Rightarrow> description \<Rightarrow> jstring" where
  "wrap_part operator part =
     (if operator = js ''&&'' \<and> ds_disjunction part then js ''('' @ ds_text part @ js '')'' else ds_text part)"

definition separator :: "jstring \<Rightarrow> jstring" where
  "separator operator =
     (if operator = js ''&&'' then js ''{{first}} and {{second}}'' else js ''{{first}} or {{second}}'')"

definition zones_of :: "description list \<Rightarrow> jstring list" where
  "zones_of parts = rev (remdups (rev (filter (\<lambda>z. z \<noteq> []) (map ds_timezone parts))))"

definition join_parts :: "wording \<Rightarrow> jstring \<Rightarrow> description list \<Rightarrow> description option" where
  "join_parts w operator parts =
     (let zones = zones_of parts;
          timezone = (case zones of z # _ \<Rightarrow> z | [] \<Rightarrow> []);
          calendars = filter (\<lambda>p. ds_kind p = Kind_calendar) parts;
          clocks = filter (\<lambda>p. ds_kind p = Kind_clock) parts
      in case parts of
           [] \<Rightarrow> None
         | first # others \<Rightarrow>
             if 1 < length zones then None
             else if others = [] then Some first
             else if operator = js ''&&'' \<and> length parts = 2 \<and> length calendars = 1 \<and> length clocks = 1
             then Some \<lparr>ds_text = ds_text (hd calendars) @ js '' '' @ ds_text (hd clocks),
                        ds_kind = Kind_combined, ds_timezone = ds_timezone first, ds_disjunction = False\<rparr>
             else Some \<lparr>ds_text = fold (\<lambda>part t. w_t w (separator operator) [(js ''first'', t), (js ''second'', wrap_part operator part)])
                                   others (wrap_part operator first),
                        ds_kind = (if length clocks = length parts then Kind_clock else Kind_combined),
                        ds_timezone = timezone, ds_disjunction = (operator = js ''||'')\<rparr>)"

fun junction_operator :: "expr \<Rightarrow> jstring option" where
  "junction_operator (Binary f l r a b) = (if f = js ''&&'' \<or> f = js ''||'' then Some f else None)"
| "junction_operator _ = None"

fun negation_operand :: "expr \<Rightarrow> expr option" where
  "negation_operand (Unary f x a b) = (if f = js ''!'' then Some x else None)"
| "negation_operand _ = None"

lemma negation_operand_smaller: "negation_operand e = Some x \<Longrightarrow> size x < size e"
  by (cases e) (auto split: if_splits)

lemma flatten_size: "x \<in> set (flattenBinary e f) \<Longrightarrow> size x \<le> size e"
  by (induction e) (auto split: if_splits)

lemma junction_part_smaller:
  "junction_operator e = Some f \<Longrightarrow> x \<in> set (flattenBinary e f) \<Longrightarrow> size x < size e"
  by (cases e) (auto split: if_splits dest!: flatten_size)

lemma conjunction_parts_cong [fundef_cong]:
  "kids = kids' \<Longrightarrow> (\<And>x. x \<in> set kids' \<Longrightarrow> f x = g x) \<Longrightarrow> ps = ps' \<Longrightarrow> rs = rs' \<Longrightarrow>
   conjunction_parts f kids ps rs = conjunction_parts g kids' ps' rs'"
  by (induction kids' arbitrary: kids ps rs ps' rs') (auto split: option.splits)

lemma map_opt_same: "(\<And>x. x \<in> set xs \<Longrightarrow> f x = g x) \<Longrightarrow> map_opt f xs = map_opt g xs"
  by (induction xs) (auto split: option.splits)

lemma all_parts_cong [fundef_cong]:
  "w = w' \<Longrightarrow> f = f' \<Longrightarrow> kids = kids' \<Longrightarrow> (\<And>x. x \<in> set kids' \<Longrightarrow> d x = d' x) \<Longrightarrow>
   all_parts w f d kids = all_parts w' f' d' kids'"
  using conjunction_parts_cong [of kids kids' d d' "[]" "[]" "[]" "[]"]
  by (simp add: all_parts_def map_opt_same [of kids' d d'])

function describeBillingCondition :: "wording \<Rightarrow> expr \<Rightarrow> description option" where
  "describeBillingCondition w node =
     (case negation_operand node of
        Some operand \<Rightarrow>
          map_option (\<lambda>d. d\<lparr>ds_text := w_t w (js ''Outside these times: {{condition}}'') [(js ''condition'', ds_text d)], ds_kind := Kind_combined\<rparr>)
            (describeBillingCondition w operand)
      | None \<Rightarrow>
          (case describe_count w node of
             Some result \<Rightarrow> result
           | None \<Rightarrow>
               (case timeComparison node of
                  Some single \<Rightarrow> describeTimeRange w [single]
                | None \<Rightarrow>
                    (case junction_operator node of
                       None \<Rightarrow> None
                     | Some operator \<Rightarrow>
                         (case all_parts w operator (describeBillingCondition w) (flattenBinary node operator) of
                            None \<Rightarrow> None
                          | Some parts \<Rightarrow> join_parts w operator parts)))))"
  by pat_completeness auto
termination
  by (relation "measure (\<lambda>(w, e). size e)") (auto dest: negation_operand_smaller junction_part_smaller)

declare describeBillingCondition.simps [simp del]

definition formatBillingCondition ::
  "wording \<Rightarrow> compiled_cache \<Rightarrow> jstring \<Rightarrow> jstring option \<times> compiled_cache" where
  "formatBillingCondition w cache source =
     (case compileBillingExpression cache source of
        (Failure f, cache') \<Rightarrow> (None, cache')
      | (Ready compiled, cache') \<Rightarrow>
          (map_option (\<lambda>d. if ds_timezone d = [] then ds_text d 
                            else w_t w (js ''{{condition}} ({{timezone}})'')
                                   [(js ''condition'', ds_text d), (js ''timezone'', ds_timezone d)])
             (describeBillingCondition w (cb_ast compiled)), cache'))"

end
