(* ===== verification/Condition_Correct.thy ===== *)
theory Condition_Correct
  imports Condition_Display Task_Display_Correct
begin

text \<open>
  The words for a time condition (\<open>Condition_Display\<close>) against its value: the merged range holds
  exactly the moments at which the condition is true.
\<close>

section \<open>Narrowing\<close>

definition holds_at :: "int \<Rightarrow> time_comparison_part \<Rightarrow> bool" where
  "holds_at t c =
     (let f = tp_operator c; v = tp_value c
      in if f = js ''>='' then v \<le> t else if f = js ''>'' then v < t
         else if f = js ''<'' then t < v else if f = js ''<='' then t \<le> v else t = v)"

definition inside :: "int \<Rightarrow> int \<times> int \<Rightarrow> bool" where
  "inside t r \<longleftrightarrow> fst r \<le> t \<and> t < snd r"

lemma narrow_inside:
  "tp_operator c \<in> set range_operators \<Longrightarrow> inside t (narrow c r) \<longleftrightarrow> inside t r \<and> holds_at t c"
  by (cases r) (auto simp: narrow_def inside_def holds_at_def range_operators_def Let_def)

lemma fold_narrow_inside:
  "\<forall>c \<in> set cs. tp_operator c \<in> set range_operators \<Longrightarrow>
   inside t (fold narrow cs r) \<longleftrightarrow> inside t r \<and> list_all (holds_at t) cs"
  by (induction cs arbitrary: r) (auto simp: narrow_inside)

lemma narrow_bounds: "fst r \<le> fst (narrow c r) \<and> snd (narrow c r) \<le> snd r"
  by (cases r) (auto simp: narrow_def Let_def)

lemma fold_narrow_bounds: "fst r \<le> fst (fold narrow cs r) \<and> snd (fold narrow cs r) \<le> snd r"
proof (induction cs arbitrary: r)
  case (Cons c cs)
  from Cons [of "narrow c r"] narrow_bounds [of r c] show ?case by simp
qed simp

section \<open>One comparison\<close>

lemma timeComparison_shape:
  assumes "timeComparison e = Some c"
  obtains f g z i a b rest a' b' x j p q p' q' where
    "e = Binary f (Call g (Literal (LStr z) i a b # rest) a' b') (Literal (LNum x) j p q) p' q'"
    "f \<in> set range_operators" "g \<in> set TIME_FUNCTIONS" "is_integer x"
    "c = \<lparr>tp_name = g, tp_timezone = zone_or_utc z, tp_operator = f, tp_value = \<lfloor>fval x\<rfloor>\<rparr>"
proof (cases e rule: timeComparison.cases)
  case (1 f g z i a b rest a' b' x j c' d c'' d')
  with assms that [of f g z i a b rest a' b' x j c' d c'' d'] show ?thesis by (auto split: if_splits)
qed (use assms in auto)

lemma parts_operators:
  "map_opt timeComparison es = Some cs \<Longrightarrow> \<forall>c \<in> set cs. tp_operator c \<in> set range_operators"
  by (induction es arbitrary: cs) (auto split: option.splits elim!: timeComparison_shape)

lemma trim_zone_or_utc: "timeInBillingZone h now (trim z) = timeInBillingZone h now (zone_or_utc z)"
proof -
  have "trim (js ''UTC'') = js ''UTC''" by code_simp
  then have "(if trim (zone_or_utc z) = [] then js ''UTC'' else trim (zone_or_utc z)) = zone_or_utc z"
    and "(if trim (trim z) = [] then js ''UTC'' else trim (trim z)) = zone_or_utc z"
    by (simp_all add: zone_or_utc_def)
  then show ?thesis by (simp only: timeInBillingZone_def Let_def)
qed

lemma integer_compare:
  assumes "is_integer x" and "f \<in> set range_operators"
  shows "compare_numbers f (Fin (of_int t)) x
    = holds_at t \<lparr>tp_name = n, tp_timezone = z, tp_operator = f, tp_value = \<lfloor>fval x\<rfloor>\<rparr>"
proof -
  from assms(1) obtain i where i: "fval x = of_int i" and fin: "is_finite x"
    by (auto simp: is_integer_def elim: is_integerE)
  then show ?thesis
    using assms(2)
    by (cases x) (auto simp: compare_numbers_def comparison_def holds_at_def range_operators_def js_eq_def js_le_def
        js_lt_def is_finite_def fval_def)
qed

lemma timeComparison_sound:
  assumes c: "timeComparison e = Some c" and "state_ok env st" and run: "evaluate env d e st = Inr (v, st')"
    and tv: "timeInBillingZone (env_host env) (env_now env) (tp_timezone c) = Inr tv"
    and t: "time_field (tp_name c) tv = Fin (of_int t)"
  shows "rv_value v = JBool (holds_at t c)"
proof -
  from c obtain f g z i a b rest a' b' x j p q p' q' where
    e: "e = Binary f (Call g (Literal (LStr z) i a b # rest) a' b') (Literal (LNum x) j p q) p' q'"
    and f: "f \<in> set range_operators" and g: "g \<in> set TIME_FUNCTIONS" and x: "is_integer x"
    and eq: "c = \<lparr>tp_name = g, tp_timezone = zone_or_utc z, tp_operator = f, tp_value = \<lfloor>fval x\<rfloor>\<rparr>"
    by (rule timeComparison_shape)
  from f have ne: "f \<noteq> js ''&&''" "f \<noteq> js ''||''" "f \<noteq> js ''!=''" "f \<noteq> js ''+''" by (auto simp: range_operators_def)
  from evaluate_Binary [OF run [unfolded e]] ne obtain l s1 r where
    l: "evaluate env (d + 1) (Call g (Literal (LStr z) i a b # rest) a' b') st = Inr (l, s1)"
    and r: "evaluate env (d + 1) (Literal (LNum x) j p q) s1 = Inr (r, st')"
    and v: "binary_values f l r p' = Inr v"
    by (auto simp: binary_def)
  from time_call_sound [OF g assms(2) l] tv t eq have "rv_value l = JNum (Fin (of_int t))"
    by (auto simp: trim_zone_or_utc)
  moreover from r have "rv_value r = JNum x" by (auto dest!: evaluate_Literal)
  ultimately have "rv_value v = JBool (compare_numbers f (Fin (of_int t)) x)"
    using v f ne by (auto simp: binary_values_def equality_def compare_numbers_def concatenation_def comparison_def
        range_operators_def split: if_splits)
  with integer_compare [OF x f] eq show ?thesis by simp
qed

section \<open>A conjunction of comparisons of one time function\<close>

lemma conjunction_one_range:
  assumes "map_opt timeComparison kids = Some cs" and "\<forall>c \<in> set cs. range_key c = k" and "ds \<noteq> []"
  shows "conjunction_parts describe kids parts [(k, ds)] = Some (parts, [(k, ds @ cs)])"
  using assms
proof (induction kids arbitrary: cs ds)
  case (Cons e es)
  then obtain c cs' where c: "timeComparison e = Some c" "map_opt timeComparison es = Some cs'" "cs = c # cs'"
    by (auto split: option.splits)
  with Cons.prems Cons.IH [of cs' "ds @ [c]"] show ?case by (simp add: add_range_def)
qed simp

lemma all_parts_one_range:
  assumes "map_opt timeComparison kids = Some (c # cs)" and "\<forall>c' \<in> set cs. range_key c' = range_key c"
  shows "all_parts w (js ''&&'') describe kids = map_option (\<lambda>d. [d]) (describeTimeRange w (c # cs))"
proof -
  from assms(1) obtain e es where k: "kids = e # es" "timeComparison e = Some c" "map_opt timeComparison es = Some cs"
    by (cases kids) (auto split: option.splits)
  with conjunction_one_range [OF k(3) assms(2), of "[c]" describe "[]"] show ?thesis
    by (auto simp: all_parts_def add_range_def split: option.splits)
qed

lemma not_flat: "timeComparison e = Some c \<Longrightarrow> flattenBinary e (js ''&&'') = [e] \<and> negation_operand e = None
  \<and> describe_count w e = None"
  by (elim timeComparison_shape) (auto simp: range_operators_def)

lemma describe_one_range:
  assumes "map_opt timeComparison (flattenBinary e (js ''&&'')) = Some (c # cs)"
    and "\<forall>c' \<in> set cs. range_key c' = range_key c"
  shows "describeBillingCondition w e = describeTimeRange w (c # cs)"
proof (cases "junction_operator e = Some (js ''&&'')")
  case True
  then obtain l r a b where e: "e = Binary (js ''&&'') l r a b" by (cases e) (auto split: if_splits)
  have "timeComparison e = None"
    by (cases "timeComparison e") (auto elim!: timeComparison_shape simp: e range_operators_def)
  moreover have "describe_count w e = None"
    by (cases "(w, e)" rule: describe_count.cases) (auto simp: e comparison_operators_def)
  moreover have "negation_operand e = None" by (simp add: e)
  ultimately show ?thesis
    using True all_parts_one_range [OF assms, of w "describeBillingCondition w"]
    by (subst describeBillingCondition.simps)
      (auto simp: join_parts_def zones_of_def Let_def split: option.splits)
next
  case False
  then have "flattenBinary e (js ''&&'') = [e]" by (cases e) auto
  with assms(1) have "timeComparison e = Some c" "cs = []" by (auto split: option.splits)
  with not_flat show ?thesis by (subst describeBillingCondition.simps) auto
qed

lemma ranges_sound:
  assumes parts: "map_opt timeComparison (flattenBinary e (js ''&&'')) = Some cs"
    and same: "\<forall>c \<in> set cs. tp_name c = f \<and> tp_timezone c = z"
    and tv: "timeInBillingZone (env_host env) (env_now env) z = Inr tv" and t: "time_field f tv = Fin (of_int t)"
    and "state_ok env st" and "boolean (evaluate env d) e st = Inr (b, st')"
  shows "b = list_all (holds_at t) cs"
proof -
  define read where "read e = (case timeComparison e of
      Some c \<Rightarrow> if tp_name c = f \<and> tp_timezone c = z then Some c else None | None \<Rightarrow> None)" for e
  have "map_opt timeComparison es = Some cs \<Longrightarrow> \<forall>c \<in> set cs. tp_name c = f \<and> tp_timezone c = z \<Longrightarrow>
      map_opt read es = Some cs" for es cs
    by (induction es arbitrary: cs) (auto simp: read_def split: option.splits)
  from this [OF parts same] have reads: "map_opt read (flattenBinary e (js ''&&'')) = Some cs" .
  have leaf: "rv_value v = JBool (holds_at t c)"
    if "read e = Some c" "state_ok env st" "evaluate env d e st = Inr (v, st')" for e c d st v st'
    using that tv t by (auto simp: read_def split: option.splits if_splits dest: timeComparison_sound)
  have keep: "state_ok env st'" if "state_ok env st" "evaluate env d e st = Inr (v, st')" for e d st v st'
    using time_steps.evaluate_related [OF that(2)] that(1) by simp
  show ?thesis by (rule conjunction_sound_under [where I = "state_ok env", OF leaf keep reads assms(5,6)])
qed

text \<open>
  C24. The range shown is the range charged.  Let a condition be a conjunction of comparisons of one
  time function in one zone, and let \<open>t\<close> be the value of that function now, inside of its domain.
  Then the condition is true exactly when \<open>t\<close> lies in the half-open range of the description, and
  there is no description exactly when that range is empty, so that the condition is never true.
\<close>

theorem describeBillingCondition_range:
  assumes parts: "map_opt timeComparison (flattenBinary e (js ''&&'')) = Some (c # cs)"
    and same: "\<forall>c' \<in> set cs. tp_name c' = tp_name c \<and> tp_timezone c' = tp_timezone c"
    and tv: "timeInBillingZone (env_host env) (env_now env) (tp_timezone c) = Inr tv"
    and t: "time_field (tp_name c) tv = Fin (of_int t)"
    and domain: "map_of DOMAINS (tp_name c) = Some (lo, hi)" "lo \<le> t" "t < hi"
    and "state_ok env st" and run: "boolean (evaluate env d) e st = Inr (b, st')"
  shows "\<exists>start end0. time_range (c # cs) = (start, end0) \<and> lo \<le> start \<and> end0 \<le> hi \<and> (b \<longleftrightarrow> start \<le> t \<and> t < end0)
    \<and> describeBillingCondition w e =
        (if end0 \<le> start then None
         else Some \<lparr>ds_text = range_text w (tp_name c) start end0,
                    ds_kind = (if tp_name c = js ''hour'' then Kind_clock else Kind_calendar),
                    ds_timezone = tp_timezone c, ds_disjunction = False\<rparr>)"
proof -
  obtain start end0 where r: "time_range (c # cs) = (start, end0)" by fastforce
  then have f: "fold narrow (c # cs) (lo, hi) = (start, end0)" by (simp add: time_range_def domain)
  from ranges_sound [OF parts _ tv t assms(8) run] same have "b = list_all (holds_at t) (c # cs)" by auto
  with fold_narrow_inside [OF parts_operators [OF parts], of t "(lo, hi)"] f domain
  have "b \<longleftrightarrow> start \<le> t \<and> t < end0" by (simp only: inside_def fst_conv snd_conv simp_thms)
  moreover have "lo \<le> start" "end0 \<le> hi" using fold_narrow_bounds [of "(lo, hi)" "c # cs"] f by simp_all
  moreover have "describeBillingCondition w e = describeTimeRange w (c # cs)"
    by (rule describe_one_range [OF parts]) (use same in \<open>auto simp: range_key_def\<close>)
  ultimately show ?thesis using r by (auto simp: describeTimeRange_def)
qed

abbreviation hour_from :: "jstring \<Rightarrow> rat \<Rightarrow> expr" where
  "hour_from f x \<equiv> Binary f (Call (js ''hour'') [Literal (LStr (js ''UTC'')) None 0 0] 0 0) (Literal (LNum (Fin x)) None 0 0) 0 0"

theorem describeBillingCondition_range_witness:
  "\<exists>w e st st' start end0. boolean (evaluate plain_env 0) e st = Inr (False, st') \<and> \<not> (start \<le> 0 \<and> 0 < end0)
     \<and> map_option ds_text (describeBillingCondition w e) = Some (range_text w (js ''hour'') start end0) \<and> start = 9 \<and> end0 = 18"
proof -
  let ?e = "Binary (js ''&&'') (hour_from (js ''>='') 9) (hour_from (js ''<'') 18) 0 0"
  let ?c = "\<lparr>tp_name = js ''hour'', tp_timezone = js ''UTC'', tp_operator = js ''>='', tp_value = 9\<rparr>"
  let ?d = "\<lparr>tp_name = js ''hour'', tp_timezone = js ''UTC'', tp_operator = js ''<'', tp_value = 18\<rparr>"
  let ?w = "\<lparr>w_t = \<lambda>k os. k, w_weekday = \<lambda>d. [], w_number = \<lambda>x. []\<rparr>"
  have p: "map_opt timeComparison (flattenBinary ?e (js ''&&'')) = Some [?c, ?d]" by code_simp
  have st: "state_ok plain_env (initial_state [])" by (simp add: times_ok_def initial_state_def)
  have v: "\<not> isl (timeInBillingZone (env_host plain_env) (env_now plain_env) (js ''UTC''))
    \<and> time_field (js ''hour'') (projr (timeInBillingZone (env_host plain_env) (env_now plain_env) (js ''UTC''))) = Fin (of_int 0)"
    by code_simp
  then obtain tv where tv: "timeInBillingZone (env_host plain_env) (env_now plain_env) (js ''UTC'') = Inr tv"
      "time_field (js ''hour'') tv = Fin (of_int 0)"
    by (cases "timeInBillingZone (env_host plain_env) (env_now plain_env) (js ''UTC'')") auto
  have "\<not> isl (boolean (evaluate plain_env 0) ?e (initial_state []))" by code_simp
  then obtain b st' where run: "boolean (evaluate plain_env 0) ?e (initial_state []) = Inr (b, st')"
    by (cases "boolean (evaluate plain_env 0) ?e (initial_state [])") auto
  have d: "map_of DOMAINS (js ''hour'') = Some (0, 24)" "time_range [?c, ?d] = (9, 18)" by code_simp+
  from describeBillingCondition_range [OF p _ _ _ _ _ _ st run, where w = ?w and lo = 0 and hi = 24] tv d
  have "\<not> b" "map_option ds_text (describeBillingCondition ?w ?e) = Some (range_text ?w (js ''hour'') 9 18)" by auto
  with run show ?thesis by (intro exI [of _ ?w] exI [of _ ?e] exI [of _ "initial_state []"] exI [of _ st'] exI [of _ 9] exI [of _ 18]) simp
qed

end
