(* ===== verification/Expr_Structure.thy ===== *)
theory Expr_Structure
  imports JS_Value
begin

text \<open>
  The text helpers of \<open>billing-expression/structure.ts\<close>.  They work on the source text outside the
  grammar: split at an operator that is not inside quotes or brackets, and drop outer parentheses.

  The loops over an index become recursions over the text that is left; \<open>cur\<close> is the slice from
  \<open>start\<close> to the index.  A split at an empty operator never ends in the program; its value is \<open>None\<close>.
  The lemmas show that both are lossless: the pieces, joined by the operator, are the text, and
  unwrapping only drops blanks and balanced outer parentheses.
\<close>

section \<open>Splitting\<close>

definition open_bracket :: "nat \<Rightarrow> bool" where
  "open_bracket c = (c \<in> set (js ''([{''))"

definition close_bracket :: "nat \<Rightarrow> bool" where
  "close_bracket c = (c \<in> set (js '')]}''))"

datatype split_result = Split_whole | Split_pieces "jstring list"

function split_loop ::
  "jstring \<Rightarrow> jstring \<Rightarrow> int \<Rightarrow> nat option \<Rightarrow> jstring \<Rightarrow> jstring list \<Rightarrow> split_result option" where
  "split_loop operator [] depth quote cur parts = Some (Split_pieces (parts @ [cur]))"
| "split_loop operator (c # rest) depth quote cur parts =
     (case quote of
        Some q \<Rightarrow>
          if c = 92
          then (case rest of
                  [] \<Rightarrow> split_loop operator [] depth quote (cur @ [c]) parts
                | d # rest' \<Rightarrow> split_loop operator rest' depth quote (cur @ [c, d]) parts)
          else split_loop operator rest depth (if c = q then None else quote) (cur @ [c]) parts
      | None \<Rightarrow>
          if c = 34 \<or> c = 39 then split_loop operator rest depth (Some c) (cur @ [c]) parts
          else let depth' = depth + (if open_bracket c then 1 else 0) - (if close_bracket c then 1 else 0)
               in if depth' \<noteq> 0 then split_loop operator rest depth' None (cur @ [c]) parts
                  else if c = 63 then Some Split_whole
                  else if starts_with operator (c # rest)
                  then (if operator = [] then None
                        else split_loop operator (drop (length operator) (c # rest)) depth' None []
                               (parts @ [cur]))
                  else split_loop operator rest depth' None (cur @ [c]) parts)"
  by pat_completeness auto
termination
  by (relation "measure (\<lambda>(operator, rest, d, q, cur, parts). length rest)") auto

declare split_loop.simps(2) [simp del]

definition splitExpressionAtTopLevel :: "jstring \<Rightarrow> jstring \<Rightarrow> jstring list option" where
  "splitExpressionAtTopLevel source operator =
     map_option (\<lambda>r. case r of
         Split_whole \<Rightarrow> [trim source]
       | Split_pieces ps \<Rightarrow> filter (\<lambda>p. p \<noteq> []) (map trim ps))
       (split_loop operator source 0 None [] [])"

section \<open>Unwrapping\<close>

text \<open>The inner loop: whether the first parenthesis closes at the end of the text.\<close>

function closes_at_end :: "jstring \<Rightarrow> int \<Rightarrow> nat option \<Rightarrow> bool" where
  "closes_at_end [] depth quote = False"
| "closes_at_end (c # rest) depth quote =
     (case quote of
        Some q \<Rightarrow>
          if c = 92 then closes_at_end (drop 1 rest) depth quote
          else closes_at_end rest depth (if c = q then None else quote)
      | None \<Rightarrow>
          if c = 34 \<or> c = 39 then closes_at_end rest depth (Some c)
          else let depth' = depth + (if c = 40 then 1 else 0) - (if c = 41 then 1 else 0)
               in if depth' = 0 then rest = [] else closes_at_end rest depth' None)"
  by pat_completeness auto
termination
  by (relation "measure (\<lambda>(rest, d, q). length rest)") auto

definition wrapped :: "jstring \<Rightarrow> bool" where
  "wrapped e = (e \<noteq> [] \<and> hd e = 40 \<and> last e = 41 \<and> closes_at_end e 0 None)"

lemma length_dropWhile_le': "length (dropWhile P xs) \<le> length xs"
  by (induction xs) auto

lemma length_trim: "length (trim s) \<le> length s"
  unfolding trim_def by (metis length_dropWhile_le' length_rev order_trans)

function unwrap_loop :: "jstring \<Rightarrow> jstring" where
  "unwrap_loop expression =
     (if wrapped expression then unwrap_loop (trim (butlast (tl expression))) else expression)"
  by pat_completeness auto
termination
proof (relation "measure length")
  fix e assume "wrapped e"
  then have "e \<noteq> []" by (simp add: wrapped_def)
  moreover have "length (trim (butlast (tl e))) \<le> length e - 1 - 1"
    using length_trim [of "butlast (tl e)"] by simp
  ultimately show "(trim (butlast (tl e)), e) \<in> measure length"
    by (cases e) auto
qed auto

declare unwrap_loop.simps [simp del]

lemma unwrap_loop_eqs:
  "wrapped e \<Longrightarrow> unwrap_loop e = unwrap_loop (trim (butlast (tl e)))"
  "\<not> wrapped e \<Longrightarrow> unwrap_loop e = e"
  by (subst unwrap_loop.simps; simp)+

definition unwrapExpressionParens :: "jstring \<Rightarrow> jstring" where
  "unwrapExpressionParens source = unwrap_loop (trim source)"

section \<open>Splitting loses nothing\<close>

lemma join_snoc: "join sep (xs @ [x]) = (if xs = [] then x else join sep xs @ sep @ x)"
proof (induction xs)
  case (Cons y ys)
  then show ?case by (cases ys) auto
qed simp

lemma join_snoc_extend: "join sep (xs @ [x]) @ y = join sep (xs @ [x @ y])"
  by (simp add: join_snoc)

lemma join_snoc_new: "join sep (xs @ [x]) @ sep @ y = join sep (xs @ [x, y])"
  using join_snoc [of sep "xs @ [x]" y] by simp

lemma starts_with_drop: "starts_with p s \<Longrightarrow> p @ drop (length p) s = s"
  unfolding starts_with_def by (metis append_take_drop_id)

lemma split_loop_joins:
  "split_loop operator rest depth quote cur parts = Some (Split_pieces ps) \<Longrightarrow>
   join operator ps = join operator (parts @ [cur]) @ rest"
proof (induction "length rest" arbitrary: rest depth quote cur parts rule: less_induct)
  case less
  have IH: "join operator ps = join operator (parts' @ [cur']) @ r"
    if "split_loop operator r d q cur' parts' = Some (Split_pieces ps)" "length r < length rest"
    for r d q cur' parts'
    using less.hyps that by blast
  show ?case
  proof (cases rest)
    case Nil
    with less.prems show ?thesis by simp
  next
    case (Cons c r)
    have step: "join operator ps = join operator (parts @ [cur]) @ rest"
      if "split_loop operator r d q (cur @ [c]) parts = Some (Split_pieces ps)" for d q
      using IH [OF that] by (simp add: Cons join_snoc)
    have skip: "join operator ps = join operator (parts @ [cur]) @ rest"
      if "split_loop operator r' d q (cur @ [c, x]) parts = Some (Split_pieces ps)" "r = x # r'" for d q x r'
      using IH [OF that(1)] that(2) by (simp add: Cons join_snoc)
    have cut: "join operator ps = join operator (parts @ [cur]) @ rest"
      if "split_loop operator (drop (length operator) rest) d None [] (parts @ [cur]) = Some (Split_pieces ps)"
        "starts_with operator rest" "operator \<noteq> []" for d
    proof -
      have "length (drop (length operator) rest) < length rest" using that(3) Cons by simp
      from IH [OF that(1) this] have "join operator ps = join operator (parts @ [cur]) @ (operator @ drop (length operator) rest)"
        using join_snoc_new [of operator parts cur "[]"] by simp
      then show ?thesis using starts_with_drop [OF that(2)] by simp
    qed
    show ?thesis
    proof (cases quote)
      case (Some q)
      have "(\<exists>d q'. split_loop operator r d q' (cur @ [c]) parts = Some (Split_pieces ps)) \<or>
          (\<exists>x r' d q'. r = x # r' \<and> split_loop operator r' d q' (cur @ [c, x]) parts = Some (Split_pieces ps))"
        using less.prems unfolding Cons Some split_loop.simps(2) [of operator c r] option.case
        by (cases r) (auto split: if_splits)
      then show ?thesis using step skip by blast
    next
      case None
      define d' where "d' = depth + (if open_bracket c then 1 else 0) - (if close_bracket c then 1 else 0)"
      note run = less.prems [unfolded Cons None split_loop.simps(2) [of operator c r] option.case Let_def, folded d'_def]
      have "(\<exists>d q. split_loop operator r d q (cur @ [c]) parts = Some (Split_pieces ps)) \<or>
          (starts_with operator (c # r) \<and> operator \<noteq> [] \<and>
            split_loop operator (drop (length operator) (c # r)) d' None [] (parts @ [cur]) = Some (Split_pieces ps))"
        using run by (simp only: split: if_splits) (blast, blast, simp, simp, blast, blast)
      then show ?thesis using step cut [of d'] Cons by blast
    qed
  qed
qed

lemma split_loop_returns: "operator \<noteq> [] \<Longrightarrow> split_loop operator rest depth quote cur parts \<noteq> None"
proof (induction "length rest" arbitrary: rest depth quote cur parts rule: less_induct)
  case less
  have IH: "split_loop operator r d q cur' parts' \<noteq> None" if "length r < length rest" for r d q cur' parts'
    using less.hyps [OF that less.prems] .
  show ?case
  proof (cases rest)
    case (Cons c r)
    have "split_loop operator (drop (length operator) rest) d q cur' parts' \<noteq> None" for d q cur' parts'
      using less.prems Cons by (intro IH) simp
    moreover have "split_loop operator r d q cur' parts' \<noteq> None" for d q cur' parts'
      using Cons by (intro IH) simp
    moreover have "split_loop operator r' d q cur' parts' \<noteq> None" if "r = x # r'" for x r' d q cur' parts'
      using that Cons by (intro IH) simp
    ultimately show ?thesis
      using less.prems unfolding Cons split_loop.simps(2) [of operator c r]
      by (cases quote; cases r) (auto simp: Let_def)
  qed simp
qed

text \<open>
  C16. Splitting terminates at every operator that is not empty and loses nothing: the result is the
  whole text, trimmed, or the trimmed non-empty pieces of a list that joined by the operator is
  exactly the text.
\<close>

theorem split_lossless:
  "operator \<noteq> [] \<Longrightarrow>
   (\<exists>ps. splitExpressionAtTopLevel source operator = Some (filter (\<lambda>p. p \<noteq> []) (map trim ps))
      \<and> join operator ps = source)
   \<or> splitExpressionAtTopLevel source operator = Some [trim source]"
proof -
  assume "operator \<noteq> []"
  then obtain r where r: "split_loop operator source 0 None [] [] = Some r"
    using split_loop_returns by blast
  then show ?thesis
    using split_loop_joins [of operator source 0 None "[]" "[]"]
    by (cases r) (auto simp: splitExpressionAtTopLevel_def)
qed

theorem split_lossless_witness:
  "splitExpressionAtTopLevel (js ''(a * b) * c'') (js ''*'') = Some [js ''(a * b)'', js ''c'']
   \<and> ((\<exists>ps. splitExpressionAtTopLevel (js ''(a * b) * c'') (js ''*'') = Some (filter (\<lambda>p. p \<noteq> []) (map trim ps))
      \<and> join (js ''*'') ps = js ''(a * b) * c'')
   \<or> splitExpressionAtTopLevel (js ''(a * b) * c'') (js ''*'') = Some [trim (js ''(a * b) * c'')])"
proof
  show "splitExpressionAtTopLevel (js ''(a * b) * c'') (js ''*'') = Some [js ''(a * b)'', js ''c'']" by code_simp
qed (rule split_lossless, simp)

section \<open>Unwrapping drops balanced parentheses only\<close>

text \<open>\<open>encloses s r\<close>: \<open>s\<close> is \<open>r\<close> inside blanks and parentheses.\<close>

inductive encloses :: "jstring \<Rightarrow> jstring \<Rightarrow> bool" where
  enc_self: "encloses r r"
| enc_blank: "encloses s r \<Longrightarrow> list_all is_ws a \<Longrightarrow> list_all is_ws b \<Longrightarrow> encloses (a @ s @ b) r"
| enc_paren: "encloses s r \<Longrightarrow> wrapped (40 # s @ [41]) \<Longrightarrow> encloses (40 # s @ [41]) r"

lemma trim_blanks: "\<exists>a b. s = a @ trim s @ b \<and> list_all is_ws a \<and> list_all is_ws b"
proof -
  let ?t = "dropWhile is_ws s"
  have "s = takeWhile is_ws s @ ?t" by simp
  moreover have "?t = trim s @ rev (takeWhile is_ws (rev ?t))"
    unfolding trim_def by (metis rev_append rev_rev_ident takeWhile_dropWhile_id)
  moreover have "list_all is_ws (takeWhile is_ws s)" "list_all is_ws (rev (takeWhile is_ws (rev ?t)))"
    by (auto simp: list_all_iff dest: set_takeWhileD)
  ultimately show ?thesis by (metis append.assoc)
qed

lemma encloses_trim: "encloses (trim s) r \<Longrightarrow> encloses s r"
proof -
  assume r: "encloses (trim s) r"
  obtain a b where s: "s = a @ trim s @ b" and ab: "list_all is_ws a" "list_all is_ws b"
    using trim_blanks by blast
  show ?thesis by (subst s) (rule enc_blank [OF r ab])
qed

lemma unwrap_loop_encloses: "encloses e (unwrap_loop e)"
proof (induction e rule: unwrap_loop.induct)
  case (1 e)
  show ?case
  proof (cases "wrapped e")
    case True
    then have h: "e \<noteq> []" "hd e = 40" "last e = 41" by (auto simp: wrapped_def)
    then obtain t where t: "e = 40 # t" by (cases e) auto
    then have "t \<noteq> []" "last t = 41" using h by (auto split: if_splits)
    then have m: "butlast t @ [41] = t" using append_butlast_last_id by metis
    have "encloses (butlast t) (unwrap_loop e)"
      using encloses_trim [OF 1 [OF True]] unwrap_loop_eqs(1) [OF True] t by simp
    then have "encloses (40 # butlast t @ [41]) (unwrap_loop e)"
      using True by (intro enc_paren) (simp_all add: m t)
    then show ?thesis by (simp add: m t)
  next
    case False
    then show ?thesis by (simp add: unwrap_loop_eqs(2) enc_self)
  qed
qed

lemma unwrap_loop_fixed: "\<not> wrapped (unwrap_loop e)"
proof (induction e rule: unwrap_loop.induct)
  case (1 e)
  then show ?case by (cases "wrapped e") (simp_all add: unwrap_loop_eqs)
qed

lemma trim_unwrap_loop: "trim e = e \<Longrightarrow> trim (unwrap_loop e) = unwrap_loop e"
proof (induction e rule: unwrap_loop.induct)
  case (1 e)
  then show ?case by (cases "wrapped e") (simp_all add: unwrap_loop_eqs)
qed


end
