(* ===== verification/JS_Regex.thy ===== *)
theory JS_Regex
  imports JS_String
begin

text \<open>
  Regular expressions of the source language, as the pricing code uses them: character classes,
  sequences, ordered alternatives, greedy repetition, capture groups, back references and the end
  anchor.  \<open>match_all\<close> lists every way to match a pattern at the front of a text, in the order in
  which the backtracking matcher of the language tries them, so the first element is its answer.

  The lemmas compute the matches of the patterns that occur: literal text has at most one match, and
  a repeated class that is followed by something outside the class has exactly one.
\<close>

datatype regex =
    R_class "nat \<Rightarrow> bool"
  | R_eps
  | R_seq regex regex
  | R_alt regex regex
  | R_star regex
  | R_group nat regex
  | R_back nat
  | R_end

type_synonym captures = "(nat \<times> jstring) list"
type_synonym match_state = "captures \<times> jstring"

text \<open>Greedy repetition; an iteration that consumes nothing is refused.\<close>

function star_all :: "(match_state \<Rightarrow> match_state list) \<Rightarrow> match_state \<Rightarrow> match_state list" where
  "star_all f m =
     concat (map (\<lambda>m'. if length (snd m') < length (snd m) then star_all f m' else []) (f m)) @ [m]"
  by pat_completeness auto
termination
  by (relation "measure (\<lambda>(f, m). length (snd m))") auto

declare star_all.simps [simp del]

definition capture_of :: "nat \<Rightarrow> captures \<Rightarrow> jstring" where
  "capture_of n caps = (case map_of caps n of Some t \<Rightarrow> t | None \<Rightarrow> [])"

primrec match_all :: "regex \<Rightarrow> match_state \<Rightarrow> match_state list" where
  "match_all (R_class P) m =
     (case snd m of c # rest \<Rightarrow> if P c then [(fst m, rest)] else [] | [] \<Rightarrow> [])"
| "match_all R_eps m = [m]"
| "match_all (R_seq r q) m = concat (map (match_all q) (match_all r m))"
| "match_all (R_alt r q) m = match_all r m @ match_all q m"
| "match_all (R_star r) m = star_all (match_all r) m"
| "match_all (R_group n r) m =
     map (\<lambda>(caps, rest). ((n, take (length (snd m) - length rest) (snd m)) # caps, rest)) (match_all r m)"
| "match_all (R_back n) m =
     (let t = capture_of n (fst m)
      in if starts_with t (snd m) then [(fst m, drop (length t) (snd m))] else [])"
| "match_all R_end m = (if snd m = [] then [m] else [])"

text \<open>Matching at the front of a text: the captures and the text after the match.\<close>

definition match_front :: "regex \<Rightarrow> jstring \<Rightarrow> match_state option" where
  "match_front r s = (case match_all r ([], s) of [] \<Rightarrow> None | m # _ \<Rightarrow> Some m)"

definition captures_of :: "regex \<Rightarrow> jstring \<Rightarrow> captures option" where
  "captures_of r s = map_option fst (match_front r s)"

definition test_regex :: "regex \<Rightarrow> jstring \<Rightarrow> bool" where
  "test_regex r s = (match_front r s \<noteq> None)"

text \<open>Replacing every match from left to right; a match of the empty text is not replaced.\<close>

function replace_all :: "regex \<Rightarrow> jstring \<Rightarrow> jstring \<Rightarrow> jstring" where
  "replace_all r new [] = []"
| "replace_all r new (c # s) =
     (case match_front r (c # s) of
        Some (caps, rest) \<Rightarrow>
          if length rest < length (c # s) then new @ replace_all r new rest else c # replace_all r new s
      | None \<Rightarrow> c # replace_all r new s)"
  by pat_completeness auto
termination
  by (relation "measure (\<lambda>(r, new, s). length s)") auto

text \<open>The captures of successive matches of a pattern with the flag \<open>g\<close>.\<close>

function exec_all :: "regex \<Rightarrow> jstring \<Rightarrow> captures list" where
  "exec_all r [] = []"
| "exec_all r (c # s) =
     (case match_front r (c # s) of
        Some (caps, rest) \<Rightarrow>
          if length rest < length (c # s) then caps # exec_all r rest else exec_all r s
      | None \<Rightarrow> exec_all r s)"
  by pat_completeness auto
termination
  by (relation "measure (\<lambda>(r, s). length s)") auto

text \<open>\<open>split\<close> at a pattern that matches no empty text.\<close>

function split_regex :: "regex \<Rightarrow> jstring \<Rightarrow> jstring \<Rightarrow> jstring list" where
  "split_regex r [] cur = [cur]"
| "split_regex r (c # s) cur =
     (case match_front r (c # s) of
        Some (caps, rest) \<Rightarrow>
          if length rest < length (c # s) then cur # split_regex r rest [] else split_regex r s (cur @ [c])
      | None \<Rightarrow> split_regex r s (cur @ [c]))"
  by pat_completeness auto
termination
  by (relation "measure (\<lambda>(r, s, cur). length s)") auto

section \<open>Derived patterns\<close>

definition r_char :: "nat \<Rightarrow> regex" where
  "r_char c = R_class (\<lambda>d. d = c)"

fun r_lit :: "jstring \<Rightarrow> regex" where
  "r_lit [] = R_eps"
| "r_lit (c # s) = R_seq (r_char c) (r_lit s)"

definition r_plus :: "regex \<Rightarrow> regex" where
  "r_plus r = R_seq r (R_star r)"

definition r_opt :: "regex \<Rightarrow> regex" where
  "r_opt r = R_alt r R_eps"

fun r_seqs :: "regex list \<Rightarrow> regex" where
  "r_seqs [] = R_eps"
| "r_seqs [r] = r"
| "r_seqs (r # q # rs) = R_seq r (r_seqs (q # rs))"

fun r_alts :: "regex list \<Rightarrow> regex" where
  "r_alts [] = R_class (\<lambda>c. False)"
| "r_alts [r] = r"
| "r_alts (r # q # rs) = R_alt r (r_alts (q # rs))"

definition r_words :: "string list \<Rightarrow> regex" where
  "r_words ws = r_alts (map (\<lambda>w. r_lit (js w)) ws)"

definition r_spaces :: regex where
  "r_spaces = R_star (R_class is_ws)"

section \<open>Computing matches\<close>

lemma match_char [simp]:
  "match_all (r_char c) (caps, s) = (case s of d # rest \<Rightarrow> if d = c then [(caps, rest)] else [] | [] \<Rightarrow> [])"
  by (simp add: r_char_def split: list.splits)

lemma match_lit [simp]:
  "match_all (r_lit s) (caps, t) = (if starts_with s t then [(caps, drop (length s) t)] else [])"
proof (induction s arbitrary: t)
  case (Cons c s)
  then show ?case by (cases t) (auto simp: starts_with_def)
qed (simp add: starts_with_def)

lemma starts_with_append [simp]: "starts_with s (s @ t)"
  by (simp add: starts_with_def)

lemma star_class:
  "star_all (match_all (R_class P)) (caps, s)
     = map (\<lambda>k. (caps, drop k s)) (rev [0..<Suc (span_len P s)])"
proof (induction s)
  case (Cons c s)
  show ?case
  proof (cases "P c")
    case True
    then have one: "match_all (R_class P) (caps, c # s) = [(caps, s)]" by simp
    have "rev [0..<Suc (Suc n)] = map Suc (rev [0..<Suc n]) @ [0]" for n
      by (simp add: rev_map [symmetric] upt_conv_Cons map_Suc_upt del: upt_Suc)
    with True Cons one show ?thesis
      by (subst star_all.simps) (simp add: o_def del: upt_Suc match_all.simps)
  qed (subst star_all.simps, simp)
qed (subst star_all.simps, simp)

text \<open>A repeated class before a pattern that rejects the class stops at the end of the run.\<close>

definition rejects :: "(nat \<Rightarrow> bool) \<Rightarrow> regex \<Rightarrow> bool" where
  "rejects P r \<longleftrightarrow> (\<forall>caps c s. P c \<longrightarrow> match_all r (caps, c # s) = [])"

lemma rejects_char [simp]: "rejects P (r_char c) \<longleftrightarrow> \<not> P c"
  by (auto simp: rejects_def)

lemma rejects_end [simp]: "rejects P R_end"
  by (simp add: rejects_def)

lemma rejects_seq: "rejects P r \<Longrightarrow> rejects P (R_seq r q)"
  by (simp add: rejects_def)

lemma rejects_group: "rejects P r \<Longrightarrow> rejects P (R_group n r)"
  by (simp add: rejects_def)

lemma rejects_alt: "rejects P r \<Longrightarrow> rejects P q \<Longrightarrow> rejects P (R_alt r q)"
  by (simp add: rejects_def)

lemma rejects_lit: "s \<noteq> [] \<Longrightarrow> \<not> P (hd s) \<Longrightarrow> rejects P (r_lit s)"
  by (cases s) (auto intro: rejects_seq)

lemma rejects_class: "(\<And>c. P c \<Longrightarrow> \<not> Q c) \<Longrightarrow> rejects P (R_class Q)"
  by (auto simp: rejects_def)

lemma run_matches:
  assumes "rejects P r" and "k < span_len P s"
  shows "match_all r (caps, drop k s) = []"
proof -
  have "k < length s" using assms(2) span_len_le [of P s] by linarith
  then have "drop k s = s ! k # drop (Suc k) s" by (rule Cons_nth_drop_Suc [symmetric])
  moreover have "P (s ! k)"
    using assms(2) nth_mem [of k "takeWhile P s"] by (auto simp: span_len_def takeWhile_nth dest: set_takeWhileD)
  ultimately show ?thesis using assms(1) by (simp add: rejects_def)
qed

lemma run_dead:
  assumes "rejects P r"
  shows "concat (map (\<lambda>k. match_all r (f k, drop k s)) (rev [0..<Suc (span_len P s)]))
    = match_all r (f (span_len P s), dropWhile P s)"
  using run_matches [OF assms, of _ s] by (simp add: concat_eq_Nil_conv drop_span_len)

lemma star_then:
  assumes "rejects P r"
  shows "match_all (R_seq (R_star (R_class P)) r) (caps, s) = match_all r (caps, dropWhile P s)"
  using run_dead [OF assms, of "\<lambda>k. caps" s] by (simp add: star_class o_def del: upt_Suc)

lemma plus_group_then:
  assumes "rejects P r"
  shows "match_all (R_seq (R_group n (r_plus (R_class P))) r) (caps, s)
    = (case s of
         c # rest \<Rightarrow> if P c then match_all r ((n, takeWhile P s) # caps, dropWhile P s) else []
       | [] \<Rightarrow> [])"
proof (cases s)
  case (Cons c t)
  show ?thesis
  proof (cases "P c")
    case True
    have e: "match_all (r_plus (R_class P)) (caps, c # t) = map (\<lambda>k. (caps, drop k t)) (rev [0..<Suc (span_len P t)])"
      using True Cons by (simp add: r_plus_def star_class del: upt_Suc)
    have "length s - (length t - span_len P t) = Suc (span_len P t)"
      using Cons span_len_le [of P t] by simp
    with run_dead [OF assms, of "\<lambda>k. (n, take (length s - (length t - k)) s) # caps" t] show ?thesis
      using True Cons by (simp add: e o_def take_span_len del: upt_Suc)
  qed (simp add: Cons r_plus_def)
qed (simp add: r_plus_def)

end
