(* ===== verification/Request_Rules.thy ===== *)
theory Request_Rules
  imports Expr_Display Expr_Structure JS_Regex JS_Json
begin

text \<open>
  The request rules and the tier tables of \<open>billing-expr.ts\<close>: the registry of price variables, the
  tiers read for the price table, the parser and the builder of request rules, and the split of an
  expression into its price and its rules.

  Rules are parsed with regular expressions on the text; each is a pattern of \<open>JS_Regex\<close>.  The
  functions that compile a part pass the cache of compiled expressions along.  \<open>JSON.parse\<close> throws
  on a text that is no JSON; the calls outside a \<open>try\<close> block let the error through.
\<close>

section \<open>The variable registry\<close>

datatype var_side = Side_input | Side_output | Side_condition

record billing_var =
  bv_key :: jstring
  bv_field :: "jstring option"
  bv_tierField :: "jstring option"
  bv_label :: jstring
  bv_shortLabel :: jstring
  bv_side :: var_side
  bv_isBase :: bool
  bv_isConditionOnly :: bool
  bv_group :: "jstring option"

definition base_var :: "string \<Rightarrow> string \<Rightarrow> string \<Rightarrow> string \<Rightarrow> string \<Rightarrow> var_side \<Rightarrow> billing_var" where
  "base_var k f t l s d = \<lparr>bv_key = js k, bv_field = Some (js f), bv_tierField = Some (js t),
     bv_label = js l, bv_shortLabel = js s, bv_side = d, bv_isBase = True, bv_isConditionOnly = False,
     bv_group = None\<rparr>"

definition extra_var ::
  "string \<Rightarrow> string \<Rightarrow> string \<Rightarrow> string \<Rightarrow> string \<Rightarrow> var_side \<Rightarrow> string \<Rightarrow> billing_var" where
  "extra_var k f t l s d g = \<lparr>bv_key = js k, bv_field = Some (js f), bv_tierField = Some (js t),
     bv_label = js l, bv_shortLabel = js s, bv_side = d, bv_isBase = False, bv_isConditionOnly = False,
     bv_group = Some (js g)\<rparr>"

definition BILLING_VARS :: "billing_var list" where
  "BILLING_VARS =
     [base_var ''p'' ''inputPrice'' ''input_unit_cost'' ''Input price'' ''Input'' Side_input,
      base_var ''c'' ''outputPrice'' ''output_unit_cost'' ''Completion price'' ''Output'' Side_output,
      \<lparr>bv_key = js ''len'', bv_field = None, bv_tierField = None, bv_label = js ''Input length'',
       bv_shortLabel = js ''Length'', bv_side = Side_condition, bv_isBase = False,
       bv_isConditionOnly = True, bv_group = None\<rparr>,
      extra_var ''cr'' ''cacheReadPrice'' ''cache_read_unit_cost'' ''Cache read price'' ''Cache Read''
        Side_input ''cache'',
      extra_var ''cc'' ''cacheCreatePrice'' ''cache_create_unit_cost'' ''Cache create price'' ''Cache Write''
        Side_input ''cache'',
      extra_var ''img_cr'' ''imageCachePrice'' ''image_cache_unit_cost'' ''Image cache input price'' ''Image Cache''
        Side_input ''cache'',
      extra_var ''cc1h'' ''cacheCreate1hPrice'' ''cache_create_1h_unit_cost'' ''Cache create (1h) price''
        ''Cache Write (1h)'' Side_input ''cache'',
      extra_var ''img'' ''imagePrice'' ''image_unit_cost'' ''Image input price'' ''Image In''
        Side_input ''media'',
      extra_var ''img_o'' ''imageOutputPrice'' ''image_output_unit_cost'' ''Image output price'' ''Image Out''
        Side_output ''media'',
      extra_var ''ai'' ''audioInputPrice'' ''audio_input_unit_cost'' ''Audio input price'' ''Audio In''
        Side_input ''media'',
      extra_var ''ao'' ''audioOutputPrice'' ''audio_output_unit_cost'' ''Audio output price'' ''Audio Out''
        Side_output ''media'']"

definition BILLING_PRICING_VARS :: "billing_var list" where
  "BILLING_PRICING_VARS = filter (\<lambda>v. \<not> bv_isConditionOnly v) BILLING_VARS"

definition BILLING_CONDITION_VARS :: "jstring list" where
  "BILLING_CONDITION_VARS = map bv_key (filter (\<lambda>v. bv_isBase v \<or> bv_isConditionOnly v) BILLING_VARS)"

definition BILLING_VAR_KEY_TO_FIELD :: "(jstring \<times> jstring) list" where
  "BILLING_VAR_KEY_TO_FIELD = map (\<lambda>v. (bv_key v, the (bv_field v))) BILLING_PRICING_VARS"

definition BILLING_EXTRA_VARS :: "billing_var list" where
  "BILLING_EXTRA_VARS = filter (\<lambda>v. \<not> bv_isBase v \<and> \<not> bv_isConditionOnly v) BILLING_VARS"

text \<open>The fields of a tier and their variables.\<close>

definition BILLING_CACHE_VAR_MAP :: "(jstring \<times> jstring) list" where
  "BILLING_CACHE_VAR_MAP = map (\<lambda>v. (the (bv_tierField v), bv_key v)) BILLING_EXTRA_VARS"

section \<open>Tiers for the price table\<close>

record parsed_tier =
  pt_label :: jstring
  pt_imageCount :: bool
  pt_conditions :: "token_condition list"
  pt_unit :: "billing_unit option"
  pt_fixedPrice :: "jsnum option"
  pt_conditionText :: "jstring option"
  pt_prices :: "(jstring \<times> jsnum) list"

definition price_field :: "jstring \<Rightarrow> jstring" where
  "price_field key =
     (case map_of BILLING_VAR_KEY_TO_FIELD key of Some f \<Rightarrow> f | None \<Rightarrow> js ''undefined'')"

definition mapTokenTier :: "token_tier \<Rightarrow> parsed_tier" where
  "mapTokenTier tier =
     \<lparr>pt_label = tt_label tier, pt_imageCount = tt_image_count tier, pt_conditions = tt_conditions tier,
      pt_unit = (if tt_unit tier = Some Unit_request then Some Unit_request else None),
      pt_fixedPrice = (if tt_unit tier = Some Unit_request then tt_fixed tier else None),
      pt_conditionText = (if text_truthy (tt_condition_text tier) then tt_condition_text tier else None),
      pt_prices = map (\<lambda>(key, price). (price_field key, price)) (tt_prices tier)\<rparr>"

definition parseTiersFromExpr ::
  "host \<Rightarrow> compiled_cache \<Rightarrow> jstring \<Rightarrow> (thrown + parsed_tier list) \<times> compiled_cache" where
  "parseTiersFromExpr h cache exprStr =
     (if exprStr = [] then (Inr [], cache)
      else case compileBillingExpression cache exprStr of
             (Failure f, cache') \<Rightarrow> (Inr [], cache')
           | (Ready compiled, cache') \<Rightarrow>
               (case readTokenTierChain (cb_ast compiled) of
                  Some canonical \<Rightarrow> (Inr (map mapTokenTier canonical), cache')
                | None \<Rightarrow>
                    (case readTimeTokenPricing h cache' exprStr None of
                       (r, cache'') \<Rightarrow>
                         (bnd r (\<lambda>p. Inr (case p of
                            Some (tiers, current) \<Rightarrow> map (\<lambda>t. mapTokenTier (tm_tier t)) tiers
                          | None \<Rightarrow> [])), cache''))))"

definition getCurrentTimePricingTiers ::
  "host \<Rightarrow> compiled_cache \<Rightarrow> jstring \<Rightarrow> date \<Rightarrow> (thrown + parsed_tier list option) \<times> compiled_cache" where
  "getCurrentTimePricingTiers h cache exprStr now =
     (case readTimeTokenPricing h cache exprStr (Some now) of
        (r, cache') \<Rightarrow>
          (bnd r (\<lambda>p. Inr (map_option (\<lambda>(tiers, current). map (\<lambda>t. mapTokenTier (tm_tier t)) current) p)),
           cache'))"

text \<open>Comparison signs, full-width ones included, lose their equality part; blanks go; lower case.\<close>

definition less_sign :: regex where
  "less_sign = r_alts
     [R_seq (r_char 60) (r_opt (R_class (\<lambda>c. c \<in> {61, 65309}))),
      r_char 8804,
      R_seq (r_char 65308) (r_opt (R_class (\<lambda>c. c \<in> {61, 65309})))]"

definition greater_sign :: regex where
  "greater_sign = r_alts
     [R_seq (r_char 62) (r_opt (R_class (\<lambda>c. c \<in> {61, 65309}))),
      r_char 8805,
      R_seq (r_char 65310) (r_opt (R_class (\<lambda>c. c \<in> {61, 65309})))]"

definition normalizeTierLabel :: "host \<Rightarrow> jstring option \<Rightarrow> jstring" where
  "normalizeTierLabel h label =
     (if \<not> text_truthy label then []
      else host_lower h
             (replace_all (r_plus (R_class is_ws)) []
                (replace_all greater_sign (js ''>'')
                   (replace_all less_sign (js ''<'') (the label)))))"

section \<open>Conditions\<close>

definition MATCH_EQ :: jstring where "MATCH_EQ = js ''eq''"
definition MATCH_CONTAINS :: jstring where "MATCH_CONTAINS = js ''contains''"
definition MATCH_GT :: jstring where "MATCH_GT = js ''gt''"
definition MATCH_GTE :: jstring where "MATCH_GTE = js ''gte''"
definition MATCH_LT :: jstring where "MATCH_LT = js ''lt''"
definition MATCH_LTE :: jstring where "MATCH_LTE = js ''lte''"
definition MATCH_EXISTS :: jstring where "MATCH_EXISTS = js ''exists''"
definition MATCH_RANGE :: jstring where "MATCH_RANGE = js ''range''"

lemmas MATCH_defs = MATCH_EQ_def MATCH_CONTAINS_def MATCH_GT_def MATCH_GTE_def MATCH_LT_def
  MATCH_LTE_def MATCH_EXISTS_def MATCH_RANGE_def

datatype rule_source = Source_param | Source_header

record param_header_condition =
  ph_source :: rule_source
  ph_path :: jstring
  ph_mode :: jstring
  ph_value :: jstring

record time_rule_condition =
  tr_func :: jstring
  tr_timezone :: jstring
  tr_mode :: jstring
  tr_value :: jstring
  tr_rangeStart :: jstring
  tr_rangeEnd :: jstring

datatype request_condition = Time_rule time_rule_condition | Value_rule param_header_condition

record rule_group =
  rg_conditions :: "request_condition list"
  rg_multiplier :: jstring
  rg_conditionText :: "jstring option"
  rg_matched :: "bool option"

definition plain_group :: "request_condition list \<Rightarrow> jstring \<Rightarrow> rule_group" where
  "plain_group cs m = \<lparr>rg_conditions = cs, rg_multiplier = m, rg_conditionText = None, rg_matched = None\<rparr>"

definition digit_class :: regex where
  "digit_class = R_class is_digit"

definition NUMERIC_LITERAL_REGEX :: regex where
  "NUMERIC_LITERAL_REGEX = r_seqs
     [r_opt (r_char 45),
      R_alt (r_seqs [r_plus digit_class, r_opt (r_char 46), R_star digit_class])
            (R_seq (r_char 46) (r_plus digit_class)),
      r_opt (r_seqs [R_class (\<lambda>c. c \<in> {101, 69}), r_opt (R_class (\<lambda>c. c \<in> {43, 45})), r_plus digit_class]),
      R_end]"

definition is_numeric :: "jstring \<Rightarrow> bool" where
  "is_numeric s = test_regex NUMERIC_LITERAL_REGEX s"

definition top_level_parts :: "jstring \<Rightarrow> string \<Rightarrow> jstring list" where
  "top_level_parts expr operator =
     (case splitExpressionAtTopLevel expr (js operator) of Some ps \<Rightarrow> ps | None \<Rightarrow> [])"

definition splitTopLevelMultiply :: "jstring \<Rightarrow> jstring list" where
  "splitTopLevelMultiply expr = top_level_parts expr ''*''"

definition splitTopLevelAnd :: "jstring \<Rightarrow> jstring list" where
  "splitTopLevelAnd expr = top_level_parts expr ''&&''"

text \<open>\<open>parseExprLiteral\<close>: the value may be any JSON value; \<open>None\<close> is the \<open>null\<close> of a failed parse.\<close>

definition parseExprLiteral :: "jstring \<Rightarrow> jsval option" where
  "parseExprLiteral raw =
     (let t = trim raw
      in if t = js ''true'' \<or> t = js ''false'' then Some (JStr t)
         else if is_numeric t then Some (JStr t)
         else case json_parse t of
                Some JNull \<Rightarrow> None
              | Some v \<Rightarrow> Some v
              | None \<Rightarrow> None)"

definition TIME_FUNC_RANGES :: "(jstring \<times> rat \<times> rat) list" where
  "TIME_FUNC_RANGES = map (apfst js)
     [(''hour'', 0, 23), (''minute'', 0, 59), (''weekday'', 0, 6), (''month'', 1, 12), (''day'', 1, 31)]"

definition isTimeValueInRange :: "jstring \<Rightarrow> jstring \<Rightarrow> bool" where
  "isTimeValueInRange timeFunc txt =
     (if \<not> is_numeric txt then False
      else let val = js_Number txt
           in if \<not> is_integer val then False
              else case map_of TIME_FUNC_RANGES timeFunc of
                     Some (lo, hi) \<Rightarrow> js_le (Fin lo) val \<and> js_le val (Fin hi)
                   | None \<Rightarrow> False)"

text \<open>The patterns of a time condition.\<close>

definition time_names :: regex where
  "time_names = r_words [''hour'', ''minute'', ''weekday'', ''month'', ''day'']"

definition not_quote :: regex where
  "not_quote = r_plus (R_class (\<lambda>c. c \<noteq> 34))"

definition number_class :: "nat \<Rightarrow> bool" where
  "number_class c = (is_digit c \<or> c \<in> set (js ''.eE+-''))"

definition number_chars :: regex where
  "number_chars = r_plus (R_class number_class)"

definition time_range_body :: "regex list" where
  "time_range_body =
     [R_group 1 time_names, r_lit (js ''(\"''), R_group 2 not_quote, r_lit (js ''\") >= ''),
      R_group 3 number_chars, r_char 32, r_words [''&&'', ''||''], r_char 32,
      R_back 1, r_lit (js ''(\"''), R_back 2, r_lit (js ''\") < ''), R_group 4 number_chars]"

definition time_range_regex :: regex where
  "time_range_regex = r_seqs (time_range_body @ [R_end])"

definition time_range_paren_regex :: regex where
  "time_range_paren_regex = r_seqs ([r_char 40] @ time_range_body @ [r_char 41, R_end])"

definition time_scalar_regex :: regex where
  "time_scalar_regex = r_seqs
     [R_group 1 time_names, r_lit (js ''(\"''), R_group 2 not_quote, r_lit (js ''\") ''),
      R_group 3 (r_words [''=='', ''>='', ''<'']), r_char 32, R_group 4 number_chars, R_end]"

definition scalar_mode :: "jstring \<Rightarrow> jstring" where
  "scalar_mode operator =
     (case map_of [(js ''=='', MATCH_EQ), (js ''>='', MATCH_GTE), (js ''<'', MATCH_LT)] operator of
        Some m \<Rightarrow> m | None \<Rightarrow> MATCH_EQ)"

definition tryParseTimeCondition :: "jstring \<Rightarrow> time_rule_condition option" where
  "tryParseTimeCondition expr =
     (let m = (case captures_of time_range_regex expr of
                 Some caps \<Rightarrow> Some caps
               | None \<Rightarrow> captures_of time_range_paren_regex expr)
      in case m of
           Some caps \<Rightarrow>
             let g = (\<lambda>n. capture_of n caps)
             in if \<not> isTimeValueInRange (g 1) (g 3) \<or> \<not> isTimeValueInRange (g 1) (g 4) then None
                else Some \<lparr>tr_func = g 1, tr_timezone = g 2, tr_mode = MATCH_RANGE, tr_value = [],
                           tr_rangeStart = g 3, tr_rangeEnd = g 4\<rparr>
         | None \<Rightarrow>
             (case captures_of time_scalar_regex expr of
                Some caps \<Rightarrow>
                  let g = (\<lambda>n. capture_of n caps)
                  in if \<not> isTimeValueInRange (g 1) (g 4) then None
                     else Some \<lparr>tr_func = g 1, tr_timezone = g 2, tr_mode = scalar_mode (g 3),
                                tr_value = g 4, tr_rangeStart = [], tr_rangeEnd = []\<rparr>
              | None \<Rightarrow> None))"

text \<open>The patterns of a condition on a parameter or header.\<close>

definition is_dot :: "nat \<Rightarrow> bool" where
  "is_dot c = (c \<notin> {10, 13, 8232, 8233})"

definition quoted_text :: regex where
  "quoted_text = r_seqs
     [r_char 34,
      R_star (R_alt (R_class (\<lambda>c. c \<noteq> 34 \<and> c \<noteq> 92)) (R_seq (r_char 92) (R_class is_dot))),
      r_char 34]"

definition header_exists_regex :: regex where
  "header_exists_regex = r_seqs [r_lit (js ''header(\"''), R_group 1 not_quote, r_lit (js ''\") != \"\"''), R_end]"

definition param_exists_regex :: regex where
  "param_exists_regex = r_seqs [r_lit (js ''param(\"''), R_group 1 not_quote, r_lit (js ''\") != nil''), R_end]"

definition header_contains_regex :: regex where
  "header_contains_regex = r_seqs
     [r_lit (js ''has(header(\"''), R_group 1 not_quote, r_lit (js ''\"), ''), R_group 2 quoted_text,
      r_char 41, R_end]"

definition param_contains_regex :: regex where
  "param_contains_regex = r_seqs
     [r_lit (js ''param(\"''), R_group 1 not_quote, r_lit (js ''\") != nil && has(param(\"''),
      R_group 2 not_quote, r_lit (js ''\"), ''), R_group 3 quoted_text, r_char 41, R_end]"

definition param_compare_regex :: regex where
  "param_compare_regex = r_seqs
     [r_lit (js ''param(\"''), R_group 1 not_quote, r_lit (js ''\") != nil && param(\"''),
      R_group 2 not_quote, r_lit (js ''\") ''), R_group 3 (r_words [''>'', ''>='', ''<'', ''<='']), r_char 32,
      R_group 4 number_chars, R_end]"

definition equals_regex :: regex where
  "equals_regex = r_seqs
     [R_group 1 (r_words [''param'', ''header'']), r_lit (js ''(\"''), R_group 2 not_quote,
      r_lit (js ''\") == ''), R_group 3 (r_plus (R_class is_dot)), R_end]"

definition value_rule :: "rule_source \<Rightarrow> jstring \<Rightarrow> jstring \<Rightarrow> jstring \<Rightarrow> request_condition" where
  "value_rule src path mode val = Value_rule \<lparr>ph_source = src, ph_path = path, ph_mode = mode, ph_value = val\<rparr>"

definition json_error :: thrown where
  "json_error = Js_error (js ''SyntaxError'')"

definition conversion_error :: thrown where
  "conversion_error = Js_error (js ''TypeError'')"

text \<open>\<open>JSON.parse\<close> of a text in quotes: a string, or an error.\<close>

definition parse_quoted :: "jstring \<Rightarrow> thrown + jstring" where
  "parse_quoted t =
     (case json_parse t of
        Some (JStr s) \<Rightarrow> Inr s
      | _ \<Rightarrow> Inl json_error)"

definition compare_mode :: "jstring \<Rightarrow> jstring" where
  "compare_mode operator =
     the (map_of [(js ''>'', MATCH_GT), (js ''>='', MATCH_GTE), (js ''<'', MATCH_LT), (js ''<='', MATCH_LTE)]
            operator)"

definition parse_equals :: "jstring \<Rightarrow> thrown + request_condition option" where
  "parse_equals expr =
     (case captures_of equals_regex expr of
        None \<Rightarrow> Inr None
      | Some caps \<Rightarrow>
          (case parseExprLiteral (capture_of 3 caps) of
             None \<Rightarrow> Inr None
           | Some v \<Rightarrow>
               (case js_to_string v of
                  None \<Rightarrow> Inl conversion_error
                | Some s \<Rightarrow>
                    Inr (Some (value_rule (if capture_of 1 caps = js ''param'' then Source_param else Source_header)
                                 (capture_of 2 caps) MATCH_EQ s)))))"

definition parse_compare :: "jstring \<Rightarrow> request_condition option" where
  "parse_compare expr =
     (case captures_of param_compare_regex expr of
        None \<Rightarrow> None
      | Some caps \<Rightarrow>
          if capture_of 1 caps = capture_of 2 caps
          then Some (value_rule Source_param (capture_of 1 caps) (compare_mode (capture_of 3 caps)) (capture_of 4 caps))
          else None)"

definition parse_param_contains :: "jstring \<Rightarrow> (thrown + request_condition) option" where
  "parse_param_contains expr =
     (case captures_of param_contains_regex expr of
        None \<Rightarrow> None
      | Some caps \<Rightarrow>
          if capture_of 1 caps = capture_of 2 caps
          then Some (bnd (parse_quoted (capture_of 3 caps)) (\<lambda>v.
                 Inr (value_rule Source_param (capture_of 1 caps) MATCH_CONTAINS v)))
          else None)"

definition tryParseRequestCondition :: "jstring \<Rightarrow> thrown + request_condition option" where
  "tryParseRequestCondition expr =
     (case tryParseTimeCondition expr of
        Some tc \<Rightarrow> Inr (Some (Time_rule tc))
      | None \<Rightarrow>
     case captures_of header_exists_regex expr of
        Some caps \<Rightarrow> Inr (Some (value_rule Source_header (capture_of 1 caps) MATCH_EXISTS []))
      | None \<Rightarrow>
     case captures_of param_exists_regex expr of
        Some caps \<Rightarrow> Inr (Some (value_rule Source_param (capture_of 1 caps) MATCH_EXISTS []))
      | None \<Rightarrow>
     case captures_of header_contains_regex expr of
        Some caps \<Rightarrow> bnd (parse_quoted (capture_of 2 caps)) (\<lambda>v.
          Inr (Some (value_rule Source_header (capture_of 1 caps) MATCH_CONTAINS v)))
      | None \<Rightarrow>
     case parse_param_contains expr of
        Some r \<Rightarrow> bnd r (\<lambda>c. Inr (Some c))
      | None \<Rightarrow>
     case parse_compare expr of
        Some c \<Rightarrow> Inr (Some c)
      | None \<Rightarrow> parse_equals expr)"

definition tryParseTimeRangePair :: "jstring \<Rightarrow> jstring \<Rightarrow> time_rule_condition option" where
  "tryParseTimeRangePair lower upper =
     (case (tryParseTimeCondition lower, tryParseTimeCondition upper) of
        (Some ta, Some tb) \<Rightarrow>
          if tr_func ta \<noteq> tr_func tb \<or> tr_timezone ta \<noteq> tr_timezone tb then None
          else if tr_mode ta \<noteq> MATCH_GTE \<or> tr_mode tb \<noteq> MATCH_LT then None
          else Some \<lparr>tr_func = tr_func ta, tr_timezone = tr_timezone ta, tr_mode = MATCH_RANGE, tr_value = [],
                     tr_rangeStart = tr_value ta, tr_rangeEnd = tr_value tb\<rparr>
      | _ \<Rightarrow> None)"

text \<open>The loop over the parts: adjacent matching time bounds are merged into one range.\<close>

fun parse_and_parts :: "jstring list \<Rightarrow> request_condition list \<Rightarrow> thrown + request_condition list option" where
  "parse_and_parts [] conditions = Inr (Some conditions)"
| "parse_and_parts (p # ps) conditions =
     (let part = trim p;
          merged = (case ps of q # _ \<Rightarrow> if trim q = [] then None else tryParseTimeRangePair part (trim q)
                               | [] \<Rightarrow> None)
      in case merged of
           Some t \<Rightarrow> parse_and_parts (tl ps) (conditions @ [Time_rule t])
         | None \<Rightarrow>
             bnd (tryParseRequestCondition part) (\<lambda>r.
               case r of
                 None \<Rightarrow> Inr None
               | Some c \<Rightarrow> parse_and_parts ps (conditions @ [c])))"

definition tryParseRequestConditions :: "jstring \<Rightarrow> thrown + request_condition list option" where
  "tryParseRequestConditions conditionStr =
     (case tryParseTimeCondition (trim conditionStr) of
        Some whole \<Rightarrow> Inr (Some [Time_rule whole])
      | None \<Rightarrow>
          bnd (parse_and_parts (splitTopLevelAnd conditionStr) []) (\<lambda>r.
            Inr (case r of Some cs \<Rightarrow> if cs = [] then None else Some cs | None \<Rightarrow> None)))"

definition rule_factor_regex :: regex where
  "rule_factor_regex = r_seqs
     [r_char 40, R_group 1 (r_plus (R_class (\<lambda>c. True))), r_lit (js '' ? ''), R_group 2 number_chars,
      r_lit (js '' : 1)''), R_end]"

definition tryParseRuleGroupFactor :: "jstring \<Rightarrow> thrown + rule_group option" where
  "tryParseRuleGroupFactor part =
     (case captures_of rule_factor_regex part of
        None \<Rightarrow> Inr None
      | Some caps \<Rightarrow>
          bnd (tryParseRequestConditions (capture_of 1 caps)) (\<lambda>r.
            Inr (map_option (\<lambda>cs. plain_group cs (capture_of 2 caps)) r)))"

definition requestRuleGroupsFromTrace :: "billing_request_rule list \<Rightarrow> thrown + rule_group list" where
  "requestRuleGroupsFromTrace requestRules =
     map_m (\<lambda>rule.
       let conditionText = trim (br_cond rule)
       in bnd (tryParseRequestConditions conditionText) (\<lambda>r.
            Inr \<lparr>rg_conditions = (case r of Some cs \<Rightarrow> cs | None \<Rightarrow> []),
                 rg_multiplier = num_to_string (br_multiplier rule),
                 rg_conditionText = Some conditionText, rg_matched = Some (br_matched rule)\<rparr>)) requestRules"

fun parse_factors :: "jstring list \<Rightarrow> rule_group list \<Rightarrow> thrown + rule_group list option" where
  "parse_factors [] groups = Inr (Some groups)"
| "parse_factors (p # ps) groups =
     bnd (tryParseRuleGroupFactor p) (\<lambda>r.
       case r of None \<Rightarrow> Inr None | Some g \<Rightarrow> parse_factors ps (groups @ [g]))"

definition tryParseRequestRuleExpr :: "jstring \<Rightarrow> thrown + rule_group list option" where
  "tryParseRequestRuleExpr expr =
     (let trimmed = trim expr
      in if trimmed = [] then Inr (Some []) else parse_factors (splitTopLevelMultiply trimmed) [])"

section \<open>Splitting and combining\<close>

definition unwrapOuterParens :: "jstring \<Rightarrow> jstring" where
  "unwrapOuterParens expr = unwrapExpressionParens expr"

definition is_traced :: "compilation_result \<Rightarrow> bool" where
  "is_traced compiled =
     (case compiled of
        Ready c \<Rightarrow> list_ex (\<lambda>rule. rr_node rule = cb_ast c) (cb_rules c)
      | Failure f \<Rightarrow> False)"

fun partition_parts ::
  "jstring list \<Rightarrow> jstring list \<Rightarrow> jstring list \<Rightarrow> compiled_cache
   \<Rightarrow> (thrown + jstring list \<times> jstring list) \<times> compiled_cache" where
  "partition_parts [] ruleParts baseParts cache = (Inr (ruleParts, baseParts), cache)"
| "partition_parts (part # parts) ruleParts baseParts cache =
     (case tryParseRequestRuleExpr part of
        Inl e \<Rightarrow> (Inl e, cache)
      | Inr parsed \<Rightarrow>
          (case compileBillingExpression cache part of
             (compiled, cache') \<Rightarrow>
               if (parsed \<noteq> None \<and> parsed \<noteq> Some []) \<or> is_traced compiled
               then partition_parts parts (ruleParts @ [part]) baseParts cache'
               else partition_parts parts ruleParts (baseParts @ [part]) cache'))"

record split_expr =
  se_billingExpr :: jstring
  se_requestRuleExpr :: jstring

definition unsplit :: "jstring \<Rightarrow> split_expr" where
  "unsplit e = \<lparr>se_billingExpr = e, se_requestRuleExpr = []\<rparr>"

definition choose_split :: "jstring \<Rightarrow> jstring list \<times> jstring list \<Rightarrow> split_expr" where
  "choose_split trimmed parts =
     (case parts of (ruleParts, baseParts) \<Rightarrow>
        let quantityParts = filter (\<lambda>p. unwrapOuterParens p = js ''image_count'') baseParts
        in if ruleParts = [] \<or> int (length baseParts) - int (length quantityParts) \<noteq> 1
           then unsplit trimmed
           else \<lparr>se_billingExpr = join (js '' * '') (map unwrapOuterParens baseParts),
                 se_requestRuleExpr = join (js '' * '') ruleParts\<rparr>)"

definition splitBillingExprAndRequestRules ::
  "compiled_cache \<Rightarrow> jstring \<Rightarrow> (thrown + split_expr) \<times> compiled_cache" where
  "splitBillingExprAndRequestRules cache expr =
     (let trimmed = trim expr
      in if trimmed = [] then (Inr (unsplit []), cache)
         else let parts = splitTopLevelMultiply trimmed
              in if length parts \<le> 1 then (Inr (unsplit trimmed), cache)
                 else case partition_parts parts [] [] cache of
                        (r, cache') \<Rightarrow> (bnd r (\<lambda>ps. Inr (choose_split trimmed ps)), cache'))"

definition combineBillingExpr :: "jstring \<Rightarrow> jstring \<Rightarrow> jstring" where
  "combineBillingExpr baseExpr requestRuleExpr =
     (let base = trim baseExpr; rules = trim requestRuleExpr
      in if base = [] then [] else if rules = [] then base
         else js ''('' @ base @ js '') * '' @ rules)"

definition parseTaskTiersFromExpr ::
  "compiled_cache \<Rightarrow> jstring \<Rightarrow> usage_schema option \<Rightarrow> bool \<Rightarrow> (thrown + task_tier list) \<times> compiled_cache" where
  "parseTaskTiersFromExpr cache exprStr schema includeBooleanConditions =
     (case schema of
        None \<Rightarrow> (Inr [], cache)
      | Some sch \<Rightarrow>
          if exprStr = [] \<or> sch = [] then (Inr [], cache)
          else case splitBillingExprAndRequestRules cache exprStr of
                 (Inl e, cache') \<Rightarrow> (Inl e, cache')
               | (Inr s, cache') \<Rightarrow>
                   (case compileBillingExpression cache' (se_billingExpr s) of
                      (Failure f, cache'') \<Rightarrow> (Inr [], cache'')
                    | (Ready compiled, cache'') \<Rightarrow>
                        (Inr (case readTaskTierChain (cb_ast compiled) sch includeBooleanConditions of
                                Some tiers \<Rightarrow> tiers | None \<Rightarrow> []), cache'')))"

section \<open>The rule editor\<close>

definition createEmptyCondition :: param_header_condition where
  "createEmptyCondition = \<lparr>ph_source = Source_param, ph_path = [], ph_mode = MATCH_EQ, ph_value = []\<rparr>"

definition createEmptyTimeCondition :: time_rule_condition where
  "createEmptyTimeCondition = \<lparr>tr_func = js ''hour'', tr_timezone = js ''Asia/Shanghai'', tr_mode = MATCH_GTE,
     tr_value = [], tr_rangeStart = [], tr_rangeEnd = []\<rparr>"

definition createEmptyRuleGroup :: rule_group where
  "createEmptyRuleGroup = plain_group [Value_rule createEmptyCondition] []"

definition createEmptyTimeRuleGroup :: rule_group where
  "createEmptyTimeRuleGroup = plain_group [Time_rule createEmptyTimeCondition] []"

definition getRequestRuleMatchOptions :: "jstring \<Rightarrow> (jstring \<times> jstring) list" where
  "getRequestRuleMatchOptions source =
     (if source = js ''time''
      then [(MATCH_EQ, js ''Equals''), (MATCH_GTE, js ''Greater than or equal''), (MATCH_LT, js ''Less than''),
            (MATCH_RANGE, js ''Overnight range'')]
      else let base = [(MATCH_EQ, js ''Equals''), (MATCH_CONTAINS, js ''Contains''), (MATCH_EXISTS, js ''Exists'')]
           in if source = js ''header'' then base
              else base @ [(MATCH_GT, js ''Greater than''), (MATCH_GTE, js ''Greater than or equal''),
                           (MATCH_LT, js ''Less than''), (MATCH_LTE, js ''Less than or equal'')])"

text \<open>A condition as the editor passes it: every field may be missing.\<close>

record partial_condition =
  pc_source :: "jstring option"
  pc_timeFunc :: "jstring option"
  pc_timezone :: "jstring option"
  pc_mode :: "jstring option"
  pc_value :: "jstring option"
  pc_rangeStart :: "jstring option"
  pc_rangeEnd :: "jstring option"
  pc_path :: "jstring option"

definition isTimeFunc :: "jstring option \<Rightarrow> bool" where
  "isTimeFunc v = (case v of Some f \<Rightarrow> f \<in> set TIME_FUNCTIONS | None \<Rightarrow> False)"

definition text_or :: "jstring \<Rightarrow> jstring option \<Rightarrow> jstring" where
  "text_or d t = (if text_truthy t then the t else d)"

definition text_or_empty :: "jstring option \<Rightarrow> jstring" where
  "text_or_empty t = (case t of Some s \<Rightarrow> s | None \<Rightarrow> [])"

definition known_mode :: "jstring \<Rightarrow> jstring \<Rightarrow> jstring option \<Rightarrow> jstring" where
  "known_mode source fallback mode =
     (case mode of
        Some m \<Rightarrow> if m \<in> fst ` set (getRequestRuleMatchOptions source) then m else fallback
      | None \<Rightarrow> fallback)"

definition normalizeCondition :: "partial_condition option \<Rightarrow> request_condition" where
  "normalizeCondition cond =
     (let get = (\<lambda>f. case cond of Some c \<Rightarrow> f c | None \<Rightarrow> None)
      in if get pc_source = Some (js ''time'')
         then Time_rule
           \<lparr>tr_func = (if isTimeFunc (get pc_timeFunc) then the (get pc_timeFunc) else js ''hour''),
            tr_timezone = text_or (js ''Asia/Shanghai'') (get pc_timezone),
            tr_mode = known_mode (js ''time'') MATCH_GTE (get pc_mode),
            tr_value = text_or_empty (get pc_value),
            tr_rangeStart = text_or_empty (get pc_rangeStart),
            tr_rangeEnd = text_or_empty (get pc_rangeEnd)\<rparr>
         else let header = (get pc_source = Some (js ''header''))
              in Value_rule
                \<lparr>ph_source = (if header then Source_header else Source_param),
                 ph_path = text_or_empty (get pc_path),
                 ph_mode = known_mode (if header then js ''header'' else js ''param'') MATCH_EQ (get pc_mode),
                 ph_value = text_or_empty (get pc_value)\<rparr>)"

definition partial_time :: "time_rule_condition \<Rightarrow> partial_condition" where
  "partial_time c = \<lparr>pc_source = Some (js ''time''), pc_timeFunc = Some (tr_func c),
     pc_timezone = Some (tr_timezone c), pc_mode = Some (tr_mode c), pc_value = Some (tr_value c),
     pc_rangeStart = Some (tr_rangeStart c), pc_rangeEnd = Some (tr_rangeEnd c), pc_path = None\<rparr>"

definition partial_value :: "param_header_condition \<Rightarrow> partial_condition" where
  "partial_value c = \<lparr>pc_source = Some (case ph_source c of Source_param \<Rightarrow> js ''param'' | Source_header \<Rightarrow> js ''header''),
     pc_timeFunc = None, pc_timezone = None, pc_mode = Some (ph_mode c), pc_value = Some (ph_value c),
     pc_rangeStart = None, pc_rangeEnd = None, pc_path = Some (ph_path c)\<rparr>"

definition buildExprLiteral :: "jstring \<Rightarrow> jstring \<Rightarrow> jstring" where
  "buildExprLiteral mode val =
     (let t = trim val
      in if mode = MATCH_CONTAINS then json_quote t
         else if t = js ''true'' \<or> t = js ''false'' then t
         else if is_numeric t then t
         else json_quote t)"

definition time_operator :: "jstring \<Rightarrow> jstring" where
  "time_operator mode =
     (case map_of [(MATCH_EQ, js ''==''), (MATCH_GTE, js ''>=''), (MATCH_LT, js ''<'')] mode of
        Some f \<Rightarrow> f | None \<Rightarrow> js ''=='')"

definition build_time :: "time_rule_condition \<Rightarrow> jstring" where
  "build_time n =
     (let fn = tr_func n @ js ''('' @ json_quote (tr_timezone n) @ js '')''
      in if tr_mode n = MATCH_RANGE
         then let s = trim (tr_rangeStart n); e = trim (tr_rangeEnd n)
              in if \<not> isTimeValueInRange (tr_func n) s \<or> \<not> isTimeValueInRange (tr_func n) e then []
                 else if js_lt (js_Number e) (js_Number s)
                 then fn @ js '' >= '' @ s @ js '' || '' @ fn @ js '' < '' @ e
                 else fn @ js '' >= '' @ s @ js '' && '' @ fn @ js '' < '' @ e
         else let v = trim (tr_value n)
              in if \<not> isTimeValueInRange (tr_func n) v then []
                 else fn @ js '' '' @ time_operator (tr_mode n) @ js '' '' @ v)"

definition buildTimeConditionExpr :: "time_rule_condition \<Rightarrow> jstring" where
  "buildTimeConditionExpr cond =
     (case normalizeCondition (Some (partial_time cond)) of
        Time_rule n \<Rightarrow> build_time n
      | Value_rule n \<Rightarrow> [])"

definition compare_operator :: "jstring \<Rightarrow> jstring option" where
  "compare_operator mode =
     map_of [(MATCH_GT, js ''>''), (MATCH_GTE, js ''>=''), (MATCH_LT, js ''<''), (MATCH_LTE, js ''<='')] mode"

definition build_value :: "param_header_condition \<Rightarrow> jstring" where
  "build_value n =
     (let path = trim (ph_path n)
      in if path = [] then []
         else let header = (ph_source n = Source_header);
                  sourceExpr = (if header then js ''header('' else js ''param('') @ json_quote path @ js '')''
              in if ph_mode n = MATCH_EXISTS
                 then sourceExpr @ (if header then js '' != \"\"'' else js '' != nil'')
                 else if ph_mode n = MATCH_CONTAINS
                 then (if header then [] else sourceExpr @ js '' != nil && '')
                      @ js ''has('' @ sourceExpr @ js '', '' @ buildExprLiteral (ph_mode n) (ph_value n) @ js '')''
                 else case compare_operator (ph_mode n) of
                        Some operator \<Rightarrow>
                          let numText = trim (ph_value n)
                          in if \<not> is_numeric numText then []
                             else sourceExpr @ js '' != nil && '' @ sourceExpr @ js '' '' @ operator @ js '' '' @ numText
                      | None \<Rightarrow> sourceExpr @ js '' == '' @ buildExprLiteral (ph_mode n) (ph_value n))"

definition buildRequestConditionExpr :: "request_condition \<Rightarrow> jstring" where
  "buildRequestConditionExpr cond =
     (case cond of
        Time_rule c \<Rightarrow> buildTimeConditionExpr c
      | Value_rule c \<Rightarrow>
          (case normalizeCondition (Some (partial_value c)) of
             Value_rule n \<Rightarrow> build_value n
           | Time_rule n \<Rightarrow> []))"

definition buildRuleGroupFactor :: "rule_group \<Rightarrow> jstring" where
  "buildRuleGroupFactor g =
     (let multiplier = trim (rg_multiplier g)
      in if \<not> is_numeric multiplier then []
         else let condExprs = filter (\<lambda>e. e \<noteq> []) (map buildRequestConditionExpr (rg_conditions g))
              in if condExprs = [] then []
                 else let combined =
                        (if length condExprs = 1 then hd condExprs
                         else join (js '' && '')
                                (map (\<lambda>e. if includes_str e (js '' || '') then js ''('' @ e @ js '')'' else e) condExprs))
                      in js ''('' @ combined @ js '' ? '' @ multiplier @ js '' : 1)'')"

definition buildRequestRuleExpr :: "rule_group list \<Rightarrow> jstring" where
  "buildRequestRuleExpr groups =
     join (js '' * '') (filter (\<lambda>f. f \<noteq> []) (map buildRuleGroupFactor groups))"

end
