(* ===== verification/Tier_Expr.thy ===== *)
theory Tier_Expr
  imports Request_Rules
begin

text \<open>
  The tier editor of \<open>tier-expr.ts\<close>: a configuration of tiers, the expression generated from it,
  the parser that reads such an expression back, and the local cost estimate.

  A tier is edited as a partial object.  The numeric fields a tier has are a list of entries; a
  field that is present has a number.
\<close>

section \<open>Tiers\<close>

datatype cache_mode = CACHE_MODE_TIMED | CACHE_MODE_GENERIC

datatype condition_value = CV_num jsnum | CV_str jstring

record tier_condition_input =
  ti_var :: jstring
  ti_op :: jstring
  ti_value :: condition_value

record visual_tier =
  vt_unit :: "billing_unit option"
  vt_fixed_price :: "jstring option"
  vt_label :: jstring
  vt_conditions :: "tier_condition_input list"
  vt_cache_mode :: cache_mode
  vt_costs :: "(jstring \<times> jsnum) list"

record partial_tier =
  pv_unit :: "billing_unit option"
  pv_fixed_price :: "jstring option"
  pv_label :: "jstring option"
  pv_conditions :: "tier_condition_input list option"
  pv_cache_mode :: "cache_mode option"
  pv_costs :: "(jstring \<times> jsnum) list"

type_synonym visual_config = "visual_tier list"

definition falsy_number :: "jsnum \<Rightarrow> bool" where
  "falsy_number x = (x = NaN \<or> js_eq x (Fin 0))"

text \<open>\<open>Number(x) || 0\<close> for a field that may be missing.\<close>

definition number_or_zero :: "jsnum option \<Rightarrow> jsnum" where
  "number_or_zero x =
     (case x of Some v \<Rightarrow> if falsy_number v then Fin 0 else v | None \<Rightarrow> Fin 0)"

definition getTierCacheMode :: "partial_tier \<Rightarrow> cache_mode" where
  "getTierCacheMode tier =
     (case pv_cache_mode tier of
        Some m \<Rightarrow> m
      | None \<Rightarrow>
          (case map_of (pv_costs tier) (js ''cache_create_1h_unit_cost'') of
             Some x \<Rightarrow> if js_lt (Fin 0) x then CACHE_MODE_TIMED else CACHE_MODE_GENERIC
           | None \<Rightarrow> CACHE_MODE_GENERIC))"

definition base_cost_fields :: "jstring list" where
  "base_cost_fields = map js [''input_unit_cost'', ''output_unit_cost'']"

definition normalized_cost_fields :: "jstring list" where
  "normalized_cost_fields = map js
     [''cache_read_unit_cost'', ''cache_create_unit_cost'', ''cache_create_1h_unit_cost'', ''image_unit_cost'',
      ''image_output_unit_cost'', ''audio_input_unit_cost'', ''audio_output_unit_cost'']"

text \<open>
  The spread \<open>...tier\<close> comes after the defaults of the base costs and before the other costs: a base
  cost that is present is kept as it is, the others are normalised, further fields are kept.
\<close>

definition normalize_costs :: "(jstring \<times> jsnum) list \<Rightarrow> (jstring \<times> jsnum) list" where
  "normalize_costs costs =
     map (\<lambda>f. (f, case map_of costs f of Some x \<Rightarrow> x | None \<Rightarrow> Fin 0)) base_cost_fields
     @ map (\<lambda>f. (f, number_or_zero (map_of costs f))) normalized_cost_fields
     @ filter (\<lambda>(f, x). f \<notin> set base_cost_fields \<and> f \<notin> set normalized_cost_fields) costs"

definition normalizeVisualTier :: "partial_tier \<Rightarrow> visual_tier" where
  "normalizeVisualTier tier =
     \<lparr>vt_unit = pv_unit tier, vt_fixed_price = pv_fixed_price tier,
      vt_label = (case pv_label tier of Some l \<Rightarrow> l | None \<Rightarrow> []),
      vt_conditions = (case pv_conditions tier of Some cs \<Rightarrow> cs | None \<Rightarrow> []),
      vt_cache_mode = getTierCacheMode tier,
      vt_costs = normalize_costs (pv_costs tier)\<rparr>"

definition partial_of :: "visual_tier \<Rightarrow> partial_tier" where
  "partial_of t = \<lparr>pv_unit = vt_unit t, pv_fixed_price = vt_fixed_price t, pv_label = Some (vt_label t),
     pv_conditions = Some (vt_conditions t), pv_cache_mode = Some (vt_cache_mode t), pv_costs = vt_costs t\<rparr>"

definition createDefaultVisualConfig :: visual_config where
  "createDefaultVisualConfig =
     [normalizeVisualTier
        \<lparr>pv_unit = None, pv_fixed_price = None, pv_label = Some (js ''base''), pv_conditions = Some [],
         pv_cache_mode = Some CACHE_MODE_GENERIC,
         pv_costs = [(js ''input_unit_cost'', Fin 0), (js ''output_unit_cost'', Fin 0)]\<rparr>]"

definition normalizeVisualConfig :: "visual_config option \<Rightarrow> visual_config" where
  "normalizeVisualConfig config =
     (case config of
        None \<Rightarrow> createDefaultVisualConfig
      | Some tiers \<Rightarrow>
          if tiers = [] then createDefaultVisualConfig
          else map (\<lambda>t. normalizeVisualTier (partial_of t)) tiers)"

section \<open>Generating the expression\<close>

definition value_text :: "condition_value \<Rightarrow> jstring" where
  "value_text v = (case v of CV_num x \<Rightarrow> num_to_string x | CV_str s \<Rightarrow> s)"

definition buildConditionStr :: "tier_condition_input list \<Rightarrow> jstring" where
  "buildConditionStr conditions =
     join (js '' && '')
       (map (\<lambda>c. ti_var c @ js '' '' @ ti_op c @ js '' '' @ value_text (ti_value c))
         (filter (\<lambda>c. ti_var c \<noteq> [] \<and> ti_op c \<noteq> [] \<and> ti_value c \<noteq> CV_str []) conditions))"

definition tier_cost :: "visual_tier \<Rightarrow> jstring \<Rightarrow> jsnum" where
  "tier_cost tier field = number_or_zero (map_of (vt_costs tier) field)"

definition cost_term :: "visual_tier \<Rightarrow> jstring \<times> jstring \<Rightarrow> jstring list" where
  "cost_term tier cv =
     (case cv of (field, exprVar) \<Rightarrow>
        if js_eq (tier_cost tier field) (Fin 0) then []
        else [exprVar @ js '' * '' @ num_to_string (tier_cost tier field)])"

definition buildTierBodyExpr :: "visual_tier \<Rightarrow> jstring" where
  "buildTierBodyExpr tier =
     (if vt_unit tier = Some Unit_request
      then js ''fixed('' @ (case vt_fixed_price tier of Some t \<Rightarrow> t | None \<Rightarrow> []) @ js '')''
      else join (js '' + '')
             ([js ''p * '' @ num_to_string (tier_cost tier (js ''input_unit_cost'')),
               js ''c * '' @ num_to_string (tier_cost tier (js ''output_unit_cost''))]
              @ concat (map (cost_term tier) BILLING_CACHE_VAR_MAP)))"

definition tier_call :: "jstring \<Rightarrow> visual_tier \<Rightarrow> jstring" where
  "tier_call label tier = js ''tier(\"'' @ label @ js ''\", '' @ buildTierBodyExpr tier @ js '')''"

definition tier_part :: "nat \<Rightarrow> nat \<Rightarrow> visual_tier \<Rightarrow> jstring" where
  "tier_part n i tier =
     (let label = (if vt_label tier = [] then js ''tier_'' @ digits_of (i + 1) else vt_label tier);
          body = tier_call label tier;
          cond = buildConditionStr (vt_conditions tier)
      in if i < n - 1 \<and> cond \<noteq> [] then cond @ js '' ? '' @ body else body)"

definition generateExprFromVisualConfig :: "visual_config option \<Rightarrow> jstring" where
  "generateExprFromVisualConfig config =
     (case config of
        None \<Rightarrow> js ''p * 0 + c * 0''
      | Some [] \<Rightarrow> js ''p * 0 + c * 0''
      | Some [tier] \<Rightarrow>
          let body = tier_call (if vt_label tier = [] then js ''default'' else vt_label tier) tier;
              cond = buildConditionStr (vt_conditions tier)
          in if cond \<noteq> [] then cond @ js '' ? '' @ body @ js '' : p * 0 + c * 0'' else body
      | Some tiers \<Rightarrow>
          join (js '' : '') (map (\<lambda>(i, t). tier_part (length tiers) i t) (List.enumerate 0 tiers)))"

section \<open>Reading it back\<close>

definition version_regex :: regex where
  "version_regex = r_seqs
     [r_char 118, r_plus digit_class, r_char 58, R_group 1 (R_star (R_class (\<lambda>c. True))), R_end]"

text \<open>\<open>optCacheStr\<close> and \<open>bodyPat\<close>; the capture groups are numbered from \<open>n\<close>.\<close>

definition cache_regex :: "nat \<Rightarrow> nat \<times> jstring \<Rightarrow> regex" where
  "cache_regex n iv =
     (case iv of (i, v) \<Rightarrow>
        r_opt (r_seqs [r_spaces, r_char 43, r_spaces, r_lit v, r_spaces, r_char 42, r_spaces,
                       R_group (n + i) number_chars]))"

definition body_regex :: "nat \<Rightarrow> regex" where
  "body_regex n = r_seqs
     ([r_char 112, r_spaces, r_char 42, r_spaces, R_group n number_chars, r_spaces, r_char 43, r_spaces,
       r_char 99, r_spaces, r_char 42, r_spaces, R_group (n + 1) number_chars]
      @ map (cache_regex (n + 2)) (List.enumerate 0 (map snd BILLING_CACHE_VAR_MAP)))"

definition tier_call_regex :: "nat \<Rightarrow> regex" where
  "tier_call_regex n = r_seqs
     [r_lit (js ''tier(\"''), R_group n (R_star (R_class (\<lambda>c. c \<noteq> 34))), r_lit (js ''\",''), r_spaces,
      body_regex (n + 1), r_char 41]"

definition single_regex :: regex where
  "single_regex = R_seq (tier_call_regex 1) R_end"

definition bound_class :: "nat \<Rightarrow> bool" where
  "bound_class c = (is_digit c \<or> c \<in> set (js ''.eE+''))"

definition comparison_regex :: "regex \<Rightarrow> regex \<Rightarrow> regex \<Rightarrow> regex" where
  "comparison_regex v f b = r_seqs [v, r_spaces, f, r_spaces, b]"

definition condition_names :: regex where
  "condition_names = r_words [''p'', ''c'', ''len'']"

definition condition_signs :: regex where
  "condition_signs = r_words [''<'', ''<='', ''>'', ''>='']"

definition and_regex :: regex where
  "and_regex = r_seqs [r_spaces, r_lit (js ''&&''), r_spaces]"

definition condition_group_regex :: regex where
  "condition_group_regex =
     (let one = comparison_regex condition_names condition_signs (r_plus (R_class bound_class))
      in R_group 1 (R_seq one (R_star (R_seq and_regex one))))"

definition tier_regex :: regex where
  "tier_regex =
     R_seq (r_opt (r_seqs [condition_group_regex, r_spaces, r_char 63, r_spaces])) (tier_call_regex 2)"

definition single_condition_regex :: regex where
  "single_condition_regex =
     R_seq (comparison_regex (R_group 1 condition_names) (R_group 2 condition_signs)
              (R_group 3 (r_plus (R_class bound_class)))) R_end"

definition parse_tier_condition :: "jstring \<Rightarrow> tier_condition_input option" where
  "parse_tier_condition cp =
     map_option (\<lambda>caps. \<lparr>ti_var = capture_of 1 caps, ti_op = capture_of 2 caps,
         ti_value = CV_num (js_Number (capture_of 3 caps))\<rparr>)
       (captures_of single_condition_regex (trim cp))"

definition parse_tier_conditions :: "jstring \<Rightarrow> tier_condition_input list" where
  "parse_tier_conditions condStr =
     (if condStr = [] then [] else List.map_filter parse_tier_condition (split_regex and_regex condStr []))"

text \<open>The tier object built from the captures; \<open>n\<close> is the group of the label.\<close>

definition captured_costs :: "nat \<Rightarrow> captures \<Rightarrow> (jstring \<times> jsnum) list" where
  "captured_costs n caps =
     List.map_filter (\<lambda>(i, (field, v)). map_option (\<lambda>t. (field, js_Number t)) (map_of caps (n + i)))
       (List.enumerate 0 BILLING_CACHE_VAR_MAP)"

definition captured_tier :: "nat \<Rightarrow> tier_condition_input list \<Rightarrow> captures \<Rightarrow> visual_tier" where
  "captured_tier n conditions caps = normalizeVisualTier
     \<lparr>pv_unit = None, pv_fixed_price = None, pv_label = Some (capture_of n caps),
      pv_conditions = Some conditions, pv_cache_mode = None,
      pv_costs =
        [(js ''input_unit_cost'', js_Number (capture_of (n + 1) caps)),
         (js ''output_unit_cost'', js_Number (capture_of (n + 2) caps))]
        @ captured_costs (n + 3) caps\<rparr>"

definition strip_spaces :: "jstring \<Rightarrow> jstring" where
  "strip_spaces s = replace_all (r_plus (R_class is_ws)) [] s"

definition parse_chain :: "jstring \<Rightarrow> visual_config option" where
  "parse_chain body =
     (let tiers = map (\<lambda>caps. captured_tier 2 (parse_tier_conditions (capture_of 1 caps)) caps)
                    (exec_all tier_regex body)
      in if tiers = [] then None
         else let cfg = normalizeVisualConfig (Some tiers)
              in if strip_spaces (generateExprFromVisualConfig (Some cfg)) \<noteq> strip_spaces body then None
                 else Some cfg)"

definition tryParseVisualConfig :: "jstring option \<Rightarrow> visual_config option" where
  "tryParseVisualConfig exprStr =
     (if \<not> text_truthy exprStr then None
      else let body = (case captures_of version_regex (the exprStr) of
                         Some caps \<Rightarrow> capture_of 1 caps
                       | None \<Rightarrow> the exprStr)
           in case captures_of single_regex body of
                Some caps \<Rightarrow> Some (normalizeVisualConfig (Some [captured_tier 1 [] caps]))
              | None \<Rightarrow> parse_chain body)"

section \<open>The local estimate\<close>

record extra_tokens =
  cacheReadTokens :: jsnum
  cacheCreateTokens :: jsnum
  cacheCreate1hTokens :: jsnum
  imageTokens :: jsnum
  imageCacheTokens :: jsnum
  imageOutputTokens :: jsnum
  audioInputTokens :: jsnum
  audioOutputTokens :: jsnum

definition ESTIMATOR_VARS :: "(jstring \<times> (extra_tokens \<Rightarrow> jsnum)) list" where
  "ESTIMATOR_VARS = map (apfst js)
     [(''cr'', cacheReadTokens), (''cc'', cacheCreateTokens), (''cc1h'', cacheCreate1hTokens),
      (''img'', imageTokens), (''img_cr'', imageCacheTokens), (''img_o'', imageOutputTokens),
      (''ai'', audioInputTokens), (''ao'', audioOutputTokens)]"

definition buildEstimatorTokens :: "jsnum \<Rightarrow> jsnum \<Rightarrow> extra_tokens \<Rightarrow> (jstring \<times> jsnum) list" where
  "buildEstimatorTokens promptTokens completionTokens x =
     [(js ''p'', promptTokens), (js ''c'', completionTokens),
      (js ''len'', foldl js_add promptTokens
         [cacheReadTokens x, imageCacheTokens x, imageTokens x, audioInputTokens x,
          cacheCreateTokens x, cacheCreate1hTokens x])]
     @ map (\<lambda>(v, get). (v, get x)) ESTIMATOR_VARS"

text \<open>The spread of \<open>over\<close> into an object.\<close>

definition spread :: "(jstring \<times> 'v) list \<Rightarrow> (jstring \<times> 'v) list \<Rightarrow> (jstring \<times> 'v) list" where
  "spread base over = fold (\<lambda>(k, v). set_entry k v) over base"

record eval_result =
  er_cost :: jsnum
  er_matchedTier :: jstring
  er_error :: "jstring option"
  er_unit :: "billing_unit option"

definition empty_context :: simulation_context where
  "empty_context = \<lparr>ctx_image_count = None, ctx_tokens = None, ctx_request = None, ctx_usage = None, ctx_now = None\<rparr>"

definition estimator_context ::
  "jsnum \<Rightarrow> jsnum \<Rightarrow> extra_tokens \<Rightarrow> simulation_context option \<Rightarrow> simulation_context" where
  "estimator_context promptTokens completionTokens extra context =
     (let ctx = (case context of Some c \<Rightarrow> c | None \<Rightarrow> empty_context)
      in ctx\<lparr>ctx_tokens := Some (spread
           (map (\<lambda>(k, x). (k, JNum x)) (buildEstimatorTokens promptTokens completionTokens extra))
           (case ctx_tokens ctx of Some ts \<Rightarrow> ts | None \<Rightarrow> []))\<rparr>)"

definition evalExprLocally ::
  "host \<Rightarrow> compiled_cache \<Rightarrow> jstring \<Rightarrow> jsnum \<Rightarrow> jsnum \<Rightarrow> extra_tokens \<Rightarrow> simulation_context option
   \<Rightarrow> eval_result \<times> compiled_cache" where
  "evalExprLocally h cache exprStr promptTokens completionTokens extra context =
     (if trim exprStr = []
      then (\<lparr>er_cost = Fin 0, er_matchedTier = [], er_error = None, er_unit = None\<rparr>, cache)
      else case evaluateBillingExpression h cache exprStr
                  (estimator_context promptTokens completionTokens extra context) of
             (Eval_failure f, cache') \<Rightarrow>
               (\<lparr>er_cost = Fin 0, er_matchedTier = [], er_error = Some (diag_detail (fail_diagnostic f)),
                 er_unit = None\<rparr>, cache')
           | (Eval_success r, cache') \<Rightarrow>
               (\<lparr>er_cost = es_cost r, er_matchedTier = es_tier r, er_error = None,
                 er_unit = (if es_unit r = Unit_request then Some Unit_request else None)\<rparr>, cache'))"

definition exprUsesExtraVars :: "compiled_cache \<Rightarrow> jstring \<Rightarrow> bool \<times> compiled_cache" where
  "exprUsesExtraVars cache exprStr =
     (if exprStr = [] then (False, cache)
      else case compileBillingExpression cache exprStr of
             (Failure f, cache') \<Rightarrow> (False, cache')
           | (Ready compiled, cache') \<Rightarrow>
               (list_ex (\<lambda>(v, get). v \<in> cb_variables compiled) ESTIMATOR_VARS, cache'))"

end
