(* ===== verification/Task_Expr.thy ===== *)
theory Task_Expr
  imports Tier_Expr
begin

text \<open>
  Task pricing of \<open>task-expr.ts\<close>: the matrix of prices over the combinations of enumerated usage
  fields, the tiers it stands for, the expression generated from them, and the preview of a sample.

  Field names are sorted with \<open>localeCompare\<close>, whose order depends on the host; it is the parameter
  \<open>le\<close> of the definitions.  \<open>Array.sort\<close> is stable, so it is an insertion sort.
\<close>

type_synonym collation = "jstring \<Rightarrow> jstring \<Rightarrow> bool"

fun insert_by :: "collation \<Rightarrow> jstring \<times> 'v \<Rightarrow> (jstring \<times> 'v) list \<Rightarrow> (jstring \<times> 'v) list" where
  "insert_by le e [] = [e]"
| "insert_by le e (f # fs) = (if le (fst e) (fst f) then e # f # fs else f # insert_by le e fs)"

definition sort_entries :: "collation \<Rightarrow> (jstring \<times> 'v) list \<Rightarrow> (jstring \<times> 'v) list" where
  "sort_entries le es = foldr (insert_by le) es []"

definition TASK_TOKEN_PRICE_SCALE :: jsnum where
  "TASK_TOKEN_PRICE_SCALE = Fin 1000000"

definition schema_fields :: "usage_schema option \<Rightarrow> usage_schema" where
  "schema_fields schema = (case schema of Some s \<Rightarrow> s | None \<Rightarrow> [])"

definition getTaskNumberFields :: "collation \<Rightarrow> usage_schema option \<Rightarrow> usage_schema" where
  "getTaskNumberFields le schema =
     sort_entries le
       (filter (\<lambda>(f, d). uf_type d = Some (js ''number'') \<and> text_truthy (uf_unit d)) (schema_fields schema))"

definition enum_values :: "usage_field \<Rightarrow> jstring list" where
  "enum_values d = (case uf_enum d of Some xs \<Rightarrow> xs | None \<Rightarrow> [])"

definition getTaskEnumFields :: "collation \<Rightarrow> usage_schema option \<Rightarrow> usage_schema" where
  "getTaskEnumFields le schema =
     sort_entries le (filter (\<lambda>(f, d). enum_values d \<noteq> []) (schema_fields schema))"

type_synonym combination = "(jstring \<times> jstring) list"

definition extend_combinations :: "jstring \<times> usage_field \<Rightarrow> combination list \<Rightarrow> combination list" where
  "extend_combinations fd combinations =
     concat (map (\<lambda>c. map (\<lambda>v. set_entry (fst fd) v c) (enum_values (snd fd))) combinations)"

definition getTaskEnumCombinations :: "collation \<Rightarrow> usage_schema option \<Rightarrow> combination list" where
  "getTaskEnumCombinations le schema = fold extend_combinations (getTaskEnumFields le schema) [[]]"

section \<open>The matrix\<close>

record task_row =
  tw_combination :: combination
  tw_constant :: jsnum
  tw_unitPrices :: "(jstring \<times> jsnum) list"

definition zero_prices :: "collation \<Rightarrow> usage_schema \<Rightarrow> (jstring \<times> jsnum) list" where
  "zero_prices le schema = map (\<lambda>(f, d). (f, Fin 0)) (getTaskNumberFields le (Some schema))"

definition createDefaultTaskVisualConfig :: "collation \<Rightarrow> usage_schema \<Rightarrow> task_tier list" where
  "createDefaultTaskVisualConfig le schema =
     [\<lparr>tk_label = js ''base'', tk_conditions = [], tk_constant = Fin 0, tk_unit_prices = zero_prices le schema\<rparr>]"

definition createDefaultTaskMatrixConfig :: "collation \<Rightarrow> usage_schema \<Rightarrow> task_row list" where
  "createDefaultTaskMatrixConfig le schema =
     map (\<lambda>c. \<lparr>tw_combination = c, tw_constant = Fin 0, tw_unitPrices = zero_prices le schema\<rparr>)
       (getTaskEnumCombinations le (Some schema))"

definition taskMatrixRowLabel :: "collation \<Rightarrow> combination \<Rightarrow> jstring" where
  "taskMatrixRowLabel le combination =
     (let vals = map snd (sort_entries le combination)
      in if vals = [] then js ''base'' else join [183] vals)"

text \<open>\<open>prices[field] ?? 0\<close> for the number fields.\<close>

definition pick_prices :: "usage_schema \<Rightarrow> (jstring \<times> jsnum) list \<Rightarrow> (jstring \<times> jsnum) list" where
  "pick_prices numberFields prices =
     map (\<lambda>(f, d). (f, case map_of prices f of Some x \<Rightarrow> x | None \<Rightarrow> Fin 0)) numberFields"

fun same_price :: "jsnum option \<Rightarrow> jsnum option \<Rightarrow> bool" where
  "same_price (Some x) (Some y) = js_eq x y"
| "same_price None None = True"
| "same_price _ _ = False"

definition uniform_rows :: "usage_schema \<Rightarrow> task_row \<Rightarrow> task_row list \<Rightarrow> bool" where
  "uniform_rows numberFields firstRow rows =
     list_all (\<lambda>row. js_eq (tw_constant row) (tw_constant firstRow)
       \<and> list_all (\<lambda>(f, d). same_price (map_of (tw_unitPrices row) f) (map_of (tw_unitPrices firstRow) f))
           numberFields) rows"

definition row_tier :: "collation \<Rightarrow> usage_schema \<Rightarrow> nat \<Rightarrow> nat \<times> task_row \<Rightarrow> task_tier" where
  "row_tier le numberFields n ir =
     (case ir of (index, row) \<Rightarrow>
        \<lparr>tk_label = taskMatrixRowLabel le (tw_combination row),
         tk_conditions = (if index = n - 1 then [] else sort_entries le (tw_combination row)),
         tk_constant = tw_constant row,
         tk_unit_prices = pick_prices numberFields (tw_unitPrices row)\<rparr>)"

definition taskMatrixToTiers :: "collation \<Rightarrow> task_row list \<Rightarrow> usage_schema \<Rightarrow> task_tier list" where
  "taskMatrixToTiers le rows schema =
     (let numberFields = getTaskNumberFields le (Some schema)
      in case rows of
           [] \<Rightarrow> []
         | firstRow # _ \<Rightarrow>
             if numberFields = [] then []
             else if uniform_rows numberFields firstRow rows
             then [\<lparr>tk_label = js ''base'', tk_conditions = [], tk_constant = tw_constant firstRow,
                    tk_unit_prices = pick_prices numberFields (tw_unitPrices firstRow)\<rparr>]
             else map (row_tier le numberFields (length rows)) (List.enumerate 0 rows))"

definition tier_covers :: "combination \<Rightarrow> task_tier \<Rightarrow> bool" where
  "tier_covers combination tier = list_all (\<lambda>(f, v). map_of combination f = Some v) (tk_conditions tier)"

definition matrix_row :: "usage_schema \<Rightarrow> task_tier list \<Rightarrow> task_tier \<Rightarrow> combination \<Rightarrow> task_row" where
  "matrix_row numberFields tiers fallbackTier combination =
     (let tier = (case find (tier_covers combination) tiers of Some t \<Rightarrow> t | None \<Rightarrow> fallbackTier)
      in \<lparr>tw_combination = combination, tw_constant = tk_constant tier,
          tw_unitPrices = pick_prices numberFields (tk_unit_prices tier)\<rparr>)"

definition matrix_of_tiers :: "collation \<Rightarrow> usage_schema \<Rightarrow> task_tier list \<Rightarrow> task_row list option" where
  "matrix_of_tiers le schema tiers =
     (if tiers = [] then None
      else if tk_conditions (last tiers) \<noteq> [] then None
      else if list_ex (\<lambda>t. \<not> distinct (map fst (tk_conditions t))) tiers then None
      else Some (map (matrix_row (getTaskNumberFields le (Some schema)) tiers (last tiers))
                   (getTaskEnumCombinations le (Some schema))))"

definition tryParseTaskMatrixConfig ::
  "collation \<Rightarrow> compiled_cache \<Rightarrow> jstring option \<Rightarrow> usage_schema
   \<Rightarrow> (thrown + task_row list option) \<times> compiled_cache" where
  "tryParseTaskMatrixConfig le cache source schema =
     (if \<not> text_truthy source then (Inr None, cache)
      else case parseTaskTiersFromExpr cache (the source) (Some schema) False of
             (r, cache') \<Rightarrow> (bnd r (\<lambda>tiers. Inr (matrix_of_tiers le schema tiers)), cache'))"

section \<open>The preview\<close>

datatype preview_part = Part_constant jsnum | Part_usage jstring jsnum jsnum jsnum

record task_preview =
  pr_tier :: task_tier
  pr_total :: jsnum
  pr_parts :: "preview_part list"

definition sample_matches :: "js_object \<Rightarrow> task_tier \<Rightarrow> bool" where
  "sample_matches sample tier = list_all (\<lambda>(f, v). map_of sample f = Some (JStr v)) (tk_conditions tier)"

definition matched_tier :: "task_tier list \<Rightarrow> js_object \<Rightarrow> task_tier" where
  "matched_tier tiers sample =
     (case find (sample_matches sample) (butlast tiers) of Some t \<Rightarrow> t | None \<Rightarrow> last tiers)"

text \<open>\<open>Number\<close> of a sample value, a number or a text.\<close>

definition sample_number :: "jsval option \<Rightarrow> jsnum" where
  "sample_number v =
     (case v of Some (JNum x) \<Rightarrow> x | Some (JStr s) \<Rightarrow> js_Number s | _ \<Rightarrow> NaN)"

definition token_field :: "usage_schema option \<Rightarrow> jstring \<Rightarrow> bool" where
  "token_field schema field =
     (case map_of (schema_fields schema) field of
        Some d \<Rightarrow> uf_unit d = Some (js ''token'')
      | None \<Rightarrow> False)"

definition valid_amount :: "jsnum \<Rightarrow> bool" where
  "valid_amount x = (is_finite x \<and> \<not> js_lt x (Fin 0))"

definition usage_amount :: "usage_schema option \<Rightarrow> jstring \<Rightarrow> jsnum \<Rightarrow> jsnum \<Rightarrow> jsnum" where
  "usage_amount schema field quantity unitPrice =
     (if token_field schema field then js_div (js_mul quantity unitPrice) TASK_TOKEN_PRICE_SCALE
      else js_mul quantity unitPrice)"

fun usage_parts ::
  "usage_schema option \<Rightarrow> js_object \<Rightarrow> (jstring \<times> jsnum) list \<Rightarrow> preview_part list \<Rightarrow> preview_part list option" where
  "usage_parts schema sample [] parts = Some parts"
| "usage_parts schema sample ((field, unitPrice) # rest) parts =
     (if \<not> valid_amount unitPrice then None
      else if js_eq unitPrice (Fin 0) then usage_parts schema sample rest parts
      else let quantity = sample_number (map_of sample field)
           in if \<not> valid_amount quantity then None
              else let amount = usage_amount schema field quantity unitPrice
                   in if \<not> is_finite amount then None
                      else usage_parts schema sample rest (parts @ [Part_usage field amount quantity unitPrice]))"

definition part_term :: "usage_schema option \<Rightarrow> preview_part \<Rightarrow> jstring option" where
  "part_term schema part =
     (case part of
        Part_constant a \<Rightarrow> None
      | Part_usage field amount quantity unitPrice \<Rightarrow>
          if field = [] then None
          else Some (js ''u('' @ json_quote field @ js '') * '' @ num_to_string unitPrice
                     @ (if token_field schema field then js '' / 1000000'' else [])))"

definition normalized_usage :: "preview_part list \<Rightarrow> js_object \<Rightarrow> js_object" where
  "normalized_usage parts sample =
     fold (\<lambda>part usage. case part of
         Part_constant a \<Rightarrow> usage
       | Part_usage field amount quantity unitPrice \<Rightarrow>
           if field = [] then usage else set_entry field (JNum quantity) usage) parts sample"

definition preview_source :: "usage_schema option \<Rightarrow> task_tier \<Rightarrow> jsnum \<Rightarrow> preview_part list \<Rightarrow> jstring" where
  "preview_source schema tier constant parts =
     js ''tier('' @ json_quote (tk_label tier) @ js '', ''
     @ join (js '' + '') (num_to_string constant # List.map_filter (part_term schema) parts) @ js '')''"

definition evaluateTaskVisualConfig ::
  "host \<Rightarrow> compiled_cache \<Rightarrow> task_tier list \<Rightarrow> js_object \<Rightarrow> usage_schema option
   \<Rightarrow> task_preview option \<times> compiled_cache" where
  "evaluateTaskVisualConfig h cache tiers sample schema =
     (if tiers = [] then (None, cache)
      else let tier = matched_tier tiers sample; constant = tk_constant tier
           in if \<not> valid_amount constant then (None, cache)
              else case usage_parts schema sample (tk_unit_prices tier)
                          (if js_lt (Fin 0) constant then [Part_constant constant] else []) of
                     None \<Rightarrow> (None, cache)
                   | Some parts \<Rightarrow>
                       (case evaluateBillingExpression h cache (preview_source schema tier constant parts)
                               (empty_context\<lparr>ctx_usage := Some (normalized_usage parts sample)\<rparr>) of
                          (Eval_failure f, cache') \<Rightarrow> (None, cache')
                        | (Eval_success r, cache') \<Rightarrow>
                            (Some \<lparr>pr_tier = tier, pr_total = es_cost r, pr_parts = parts\<rparr>, cache')))"

section \<open>Normalising and generating\<close>

definition finite_or_zero :: "jsnum \<Rightarrow> jsnum" where
  "finite_or_zero x = (if is_finite x \<and> js_le (Fin 0) x then x else Fin 0)"

definition normalize_task_tier :: "usage_schema \<Rightarrow> usage_schema \<Rightarrow> nat \<times> task_tier \<Rightarrow> task_tier" where
  "normalize_task_tier numberFields enumFields it =
     (case it of (index, tier) \<Rightarrow>
        \<lparr>tk_label = (if tk_label tier \<noteq> [] then tk_label tier
                     else if index = 0 then js ''base'' else js ''tier_'' @ digits_of (index + 1)),
         tk_conditions = filter (\<lambda>(f, v). case map_of enumFields f of
             Some d \<Rightarrow> v \<in> set (enum_values d) | None \<Rightarrow> False) (tk_conditions tier),
         tk_constant = finite_or_zero (tk_constant tier),
         tk_unit_prices = map (\<lambda>(f, d). (f, case map_of (tk_unit_prices tier) f of
             Some x \<Rightarrow> finite_or_zero x | None \<Rightarrow> Fin 0)) numberFields\<rparr>)"

definition normalizeTaskVisualConfig :: "collation \<Rightarrow> task_tier list option \<Rightarrow> usage_schema \<Rightarrow> task_tier list" where
  "normalizeTaskVisualConfig le config schema =
     (case config of
        None \<Rightarrow> createDefaultTaskVisualConfig le schema
      | Some tiers \<Rightarrow>
          if tiers = [] then createDefaultTaskVisualConfig le schema
          else map (normalize_task_tier (getTaskNumberFields le (Some schema)) (getTaskEnumFields le (Some schema)))
                 (List.enumerate 0 tiers))"

definition usage_term :: "task_tier \<Rightarrow> jstring \<times> usage_field \<Rightarrow> jstring" where
  "usage_term tier fd =
     (case fd of (field, d) \<Rightarrow>
        let price = (case map_of (tk_unit_prices tier) field of Some x \<Rightarrow> x | None \<Rightarrow> Fin 0);
            term0 = js ''u('' @ json_quote field @ js '') * '' @ num_to_string price
        in if uf_unit d = Some (js ''token'') then term0 @ js '' / 1000000'' else term0)"

definition generateTaskTierBody :: "task_tier \<Rightarrow> usage_schema \<Rightarrow> jstring" where
  "generateTaskTierBody tier numberFields =
     join (js '' + '')
       ((if js_lt (Fin 0) (tk_constant tier) then [num_to_string (tk_constant tier)] else [])
        @ map (usage_term tier) numberFields)"

definition generateTaskTierCall :: "task_tier \<Rightarrow> usage_schema \<Rightarrow> jstring" where
  "generateTaskTierCall tier numberFields =
     js ''tier('' @ json_quote (tk_label tier) @ js '', '' @ generateTaskTierBody tier numberFields @ js '')''"

definition generateTaskCondition :: "(jstring \<times> jstring) list \<Rightarrow> jstring" where
  "generateTaskCondition conditions =
     join (js '' && '') (map (\<lambda>(f, v). js ''u('' @ json_quote f @ js '') == '' @ json_quote v) conditions)"

fun task_parts :: "usage_schema \<Rightarrow> task_tier list \<Rightarrow> jstring list option" where
  "task_parts numberFields [] = Some []"
| "task_parts numberFields [tier] = Some [generateTaskTierCall tier numberFields]"
| "task_parts numberFields (tier # t # ts) =
     (let condition = generateTaskCondition (tk_conditions tier)
      in if condition = [] then None
         else map_option ((#) (condition @ js '' ? '' @ generateTaskTierCall tier numberFields))
                (task_parts numberFields (t # ts)))"

definition generateTaskExprFromConfig :: "collation \<Rightarrow> task_tier list option \<Rightarrow> usage_schema \<Rightarrow> jstring" where
  "generateTaskExprFromConfig le config schema =
     (let numberFields = getTaskNumberFields le (Some schema)
      in if numberFields = [] then []
         else case normalizeTaskVisualConfig le config schema of
                [tier] \<Rightarrow> generateTaskTierCall tier numberFields
              | tiers \<Rightarrow> (case task_parts numberFields tiers of
                            Some parts \<Rightarrow> join (js '' : '') parts
                          | None \<Rightarrow> []))"

definition tryParseTaskVisualConfig ::
  "collation \<Rightarrow> compiled_cache \<Rightarrow> jstring option \<Rightarrow> usage_schema
   \<Rightarrow> (thrown + task_tier list option) \<times> compiled_cache" where
  "tryParseTaskVisualConfig le cache source schema =
     (if \<not> text_truthy source then (Inr None, cache)
      else case parseTaskTiersFromExpr cache (the source) (Some schema) False of
             (r, cache') \<Rightarrow>
               (bnd r (\<lambda>tiers. Inr (if tiers = [] then None
                                     else Some (normalizeTaskVisualConfig le (Some tiers) schema))), cache'))"

record usage_example =
  ex_label :: jstring
  ex_facts :: js_object

fun evaluate_examples ::
  "host \<Rightarrow> compiled_cache \<Rightarrow> task_tier list \<Rightarrow> usage_schema \<Rightarrow> usage_example list
   \<Rightarrow> (jstring \<times> jsnum) list \<times> compiled_cache" where
  "evaluate_examples h cache config schema [] = ([], cache)"
| "evaluate_examples h cache config schema (e # es) =
     (case evaluateTaskVisualConfig h cache config (ex_facts e) (Some schema) of
        (r, cache') \<Rightarrow>
          (case evaluate_examples h cache' config schema es of
             (rows, cache'') \<Rightarrow>
               ((case r of Some p \<Rightarrow> [(ex_label e, pr_total p)] | None \<Rightarrow> []) @ rows, cache'')))"

definition evaluateTaskUsageExamples ::
  "host \<Rightarrow> collation \<Rightarrow> compiled_cache \<Rightarrow> jstring option \<Rightarrow> usage_schema option \<Rightarrow> usage_example list option
   \<Rightarrow> (thrown + (jstring \<times> jsnum) list) \<times> compiled_cache" where
  "evaluateTaskUsageExamples h le cache source schema examples =
     (case (schema, examples) of
        (Some sch, Some exs) \<Rightarrow>
          if \<not> text_truthy source \<or> exs = [] then (Inr [], cache)
          else (case splitBillingExprAndRequestRules cache (the source) of
                  (Inl e, cache1) \<Rightarrow> (Inl e, cache1)
                | (Inr s, cache1) \<Rightarrow>
                    (case tryParseTaskVisualConfig le cache1 (Some (se_billingExpr s)) sch of
                       (Inl e, cache2) \<Rightarrow> (Inl e, cache2)
                     | (Inr None, cache2) \<Rightarrow> (Inr [], cache2)
                     | (Inr (Some config), cache2) \<Rightarrow>
                         (case evaluate_examples h cache2 config sch exs of
                            (rows, cache3) \<Rightarrow> (Inr rows, cache3))))
      | _ \<Rightarrow> (Inr [], cache))"

end
