(* ===== verification/Task_Table.thy ===== *)
theory Task_Table
  imports Task_Expr Task_Display
begin

text \<open>
  The rows of the task price table, \<open>task-matrix-display.ts\<close>: a recognised matrix with one row for
  each combination, and the tiers of an expression with explicit conditions for the fallback row when
  the earlier rows leave exactly one combination to it.
\<close>

definition plain_row :: "task_tier \<Rightarrow> task_display_tier" where
  "plain_row t = task_tier.extend t \<lparr>tk_condition_text = None\<rparr>"

definition matrix_display_row :: "collation \<Rightarrow> task_row \<Rightarrow> task_display_tier" where
  "matrix_display_row le row =
     \<lparr>tk_label = taskMatrixRowLabel le (tw_combination row),
      tk_conditions = sort_entries le (tw_combination row),
      tk_constant = tw_constant row, tk_unit_prices = tw_unitPrices row, tk_condition_text = None\<rparr>"

definition getTaskMatrixDisplayTiers ::
  "collation \<Rightarrow> compiled_cache \<Rightarrow> jstring option \<Rightarrow> usage_schema option
   \<Rightarrow> (thrown + task_display_tier list option) \<times> compiled_cache" where
  "getTaskMatrixDisplayTiers le cache expression0 schema =
     (case schema of
        None \<Rightarrow> (Inr None, cache)
      | Some sch \<Rightarrow>
          if getTaskEnumFields le (Some sch) = [] then (Inr None, cache)
          else (case tryParseTaskMatrixConfig le cache expression0 sch of
                  (r, cache') \<Rightarrow>
                    (bnd r (\<lambda>matrix. Inr (map_option (map (matrix_display_row le)) matrix)), cache')))"

section \<open>The fallback row\<close>

text \<open>\<open>[...new Set(names)].sort()\<close>: the default order compares code units.\<close>

definition unique_sorted :: "jstring list \<Rightarrow> jstring list" where
  "unique_sorted names = map fst (sort_entries str_le (map (\<lambda>n. (n, ())) (rev (remdups (rev names)))))"

definition condition_fields :: "task_tier list \<Rightarrow> jstring list" where
  "condition_fields previous = unique_sorted (concat (map (\<lambda>t. map fst (tk_conditions t)) previous))"

definition field_values :: "usage_schema \<Rightarrow> jstring \<Rightarrow> jstring list" where
  "field_values schema field =
     (case map_of schema field of
        None \<Rightarrow> []
      | Some def \<Rightarrow>
          if uf_type def = Some (js ''boolean'') then [js ''false'', js ''true'']
          else (case uf_enum def of Some xs \<Rightarrow> xs | None \<Rightarrow> []))"

fun condition_combinations ::
  "usage_schema \<Rightarrow> jstring list \<Rightarrow> (jstring \<times> jstring) list list \<Rightarrow> (jstring \<times> jstring) list list option" where
  "condition_combinations schema [] combinations = Some combinations"
| "condition_combinations schema (field # fs) combinations =
     (if field_values schema field = [] \<or> 256 < length combinations * length (field_values schema field)
      then None
      else condition_combinations schema fs
             (concat (map (\<lambda>c. map (\<lambda>v. c @ [(field, v)]) (field_values schema field)) combinations)))"

definition covered_by :: "(jstring \<times> jstring) list \<Rightarrow> task_tier \<Rightarrow> bool" where
  "covered_by combination tier =
     list_all (\<lambda>condition. list_ex (\<lambda>entry. entry = condition) combination) (tk_conditions tier)"

definition uncovered :: "task_tier list \<Rightarrow> (jstring \<times> jstring) list list \<Rightarrow> (jstring \<times> jstring) list list" where
  "uncovered previous combinations = filter (\<lambda>c. \<not> list_ex (covered_by c) previous) combinations"

definition name_fallback :: "usage_schema option \<Rightarrow> task_tier list \<Rightarrow> task_tier list" where
  "name_fallback schema tiers =
     (case schema of
        None \<Rightarrow> tiers
      | Some sch \<Rightarrow>
          if length tiers < 2 then tiers
          else let previous = butlast tiers
               in case condition_combinations sch (condition_fields previous) [[]] of
                    None \<Rightarrow> tiers
                  | Some combinations \<Rightarrow>
                      (case uncovered previous combinations of
                         [only] \<Rightarrow> previous @ [(last tiers)\<lparr>tk_conditions := only\<rparr>]
                       | _ \<Rightarrow> tiers))"

definition getTaskPricingDisplayTiers ::
  "compiled_cache \<Rightarrow> jstring option \<Rightarrow> usage_schema option
   \<Rightarrow> (thrown + task_display_tier list) \<times> compiled_cache" where
  "getTaskPricingDisplayTiers cache expression0 schema =
     (case parseTaskTiersFromExpr cache (case expression0 of Some e \<Rightarrow> e | None \<Rightarrow> []) schema True of
        (Inl e, cache1) \<Rightarrow> (Inl e, cache1)
      | (Inr tiers, cache1) \<Rightarrow>
          (case schema of
             Some sch \<Rightarrow>
               if tiers = [] \<and> text_truthy expression0
               then (case splitBillingExprAndRequestRules cache1 (the expression0) of
                       (Inl e, cache2) \<Rightarrow> (Inl e, cache2)
                     | (Inr s, cache2) \<Rightarrow>
                         (case readConditionalTaskPricing cache2 (se_billingExpr s) sch of
                            (r, cache3) \<Rightarrow>
                              (bnd r (\<lambda>rows. Inr (case rows of Some ts \<Rightarrow> ts | None \<Rightarrow> [])), cache3)))
               else (Inr (map plain_row (name_fallback schema tiers)), cache1)
           | None \<Rightarrow> (Inr (map plain_row tiers), cache1)))"

end
