(* ===== verification/Task_Correct.thy ===== *)
theory Task_Correct
  imports Task_Expr Runtime_Correct
begin

text \<open>
  Correctness of the task price matrix: the rows are exactly the combinations of the declared enum
  values, the tiers generated from a matrix stand for it, and normalising a configuration is final.
\<close>

section \<open>Sorting\<close>

lemma set_insert_by [simp]: "set (insert_by le e es) = insert e (set es)"
  by (induction es) auto

lemma set_sort_entries [simp]: "set (sort_entries le es) = set es"
  by (induction es) (auto simp: sort_entries_def)

lemma distinct_insert_by:
  "distinct (map fst (insert_by le e es)) \<longleftrightarrow> distinct (map fst (e # es))"
  by (induction es) (auto simp: image_iff)

lemma distinct_sort_entries [simp]: "distinct (map fst (sort_entries le es)) \<longleftrightarrow> distinct (map fst es)"
proof (induction es)
  case (Cons e es)
  have "sort_entries le (e # es) = insert_by le e (sort_entries le es)" by (simp add: sort_entries_def)
  moreover have "fst ` set (sort_entries le es) = fst ` set es" by simp
  ultimately show ?case using Cons by (simp add: distinct_insert_by del: set_sort_entries)
qed (simp add: sort_entries_def)

lemma distinct_fields:
  assumes "distinct (map fst schema)"
  shows "distinct (map fst (getTaskNumberFields le (Some schema)))"
    and "distinct (map fst (getTaskEnumFields le (Some schema)))"
  using assms
  by (auto simp: getTaskNumberFields_def getTaskEnumFields_def schema_fields_def intro: distinct_map_filter)

section \<open>Combinations\<close>

definition assigns :: "usage_schema \<Rightarrow> combination \<Rightarrow> bool" where
  "assigns fds c \<longleftrightarrow> list_all2 (\<lambda>(f, v) (f', d). f = f' \<and> v \<in> set (enum_values d)) c fds"

lemma set_entry_fresh: "k \<notin> fst ` set es \<Longrightarrow> set_entry k v es = es @ [(k, v)]"
  by (induction es) auto

lemma assigns_fst: "assigns fds c \<Longrightarrow> map fst c = map fst fds"
  unfolding assigns_def by (induction rule: list_all2_induct) auto

lemma assigns_snoc:
  "assigns (fds @ [fd]) c \<longleftrightarrow>
   (\<exists>c' v. c = c' @ [(fst fd, v)] \<and> assigns fds c' \<and> v \<in> set (enum_values (snd fd)))"
proof (cases c rule: rev_cases)
  case (snoc c' fv)
  have "list_all2 P (c' @ [fv]) (fds @ [fd]) \<longleftrightarrow> list_all2 P c' fds \<and> P fv fd" for P
    using list_all2_rev [of P "c' @ [fv]" "fds @ [fd]"] by (auto simp: list_all2_rev)
  with snoc show ?thesis by (cases fd; cases fv) (auto simp: assigns_def)
qed (simp add: assigns_def)

lemma combinations_fold:
  assumes "distinct (map fst fds)"
  shows "set (fold extend_combinations fds [[]]) = {c. assigns fds c}
    \<and> length (fold extend_combinations fds [[]]) = prod_list (map (\<lambda>(f, d). length (enum_values d)) fds)
    \<and> (list_all (\<lambda>(f, d). distinct (enum_values d)) fds \<longrightarrow> distinct (fold extend_combinations fds [[]]))"
  using assms
proof (induction fds rule: rev_induct)
  case Nil
  then show ?case by (auto simp: assigns_def)
next
  case (snoc fd fds)
  obtain f d where fd: "fd = (f, d)" by (cases fd)
  define cs where "cs = fold extend_combinations fds [[]]"
  have IH: "set cs = {c. assigns fds c}"
    "length cs = prod_list (map (\<lambda>(f, d). length (enum_values d)) fds)"
    "list_all (\<lambda>(f, d). distinct (enum_values d)) fds \<longrightarrow> distinct cs"
    using snoc by (auto simp: cs_def)
  have fresh: "set_entry f v c = c @ [(f, v)]" if "c \<in> set cs" for c v
  proof (rule set_entry_fresh)
    from that IH(1) have "set (map fst c) = set (map fst fds)" using assigns_fst [of fds c] by simp
    with snoc.prems show "f \<notin> fst ` set c" by (simp add: fd)
  qed
  have step: "extend_combinations (f, d) cs = concat (map (\<lambda>c. map (\<lambda>v. c @ [(f, v)]) (enum_values d)) cs)"
    unfolding extend_combinations_def by (intro arg_cong [where f = concat] map_cong) (auto simp: fresh)
  have "set (extend_combinations (f, d) cs) = {c. assigns (fds @ [fd]) c}"
    by (auto simp: step IH(1) assigns_snoc fd)
  moreover have "length (extend_combinations (f, d) cs) = length cs * length (enum_values d)"
    by (simp add: step length_concat o_def sum_list_triv)
  moreover have "distinct (extend_combinations (f, d) cs)" if "distinct cs" "distinct (enum_values d)"
    using that unfolding step
    by (induction cs) (auto simp: distinct_map inj_on_def)
  ultimately show ?case using IH by (auto simp: cs_def [symmetric] fd)
qed

text \<open>
  C33. The combinations are the product of the declared values: for a schema whose fields have
  different names, the list holds exactly the assignments of a declared value to every enumerated
  field, in the order of the fields, and as many as the product of the numbers of values.
\<close>

theorem getTaskEnumCombinations_product:
  assumes "distinct (map fst (schema_fields schema))"
  shows "set (getTaskEnumCombinations le schema) = {c. assigns (getTaskEnumFields le schema) c}
    \<and> length (getTaskEnumCombinations le schema)
        = prod_list (map (\<lambda>(f, d). length (enum_values d)) (getTaskEnumFields le schema))"
proof -
  have "distinct (map fst (getTaskEnumFields le schema))"
    using assms by (simp add: getTaskEnumFields_def distinct_map_filter)
  from combinations_fold [OF this] show ?thesis by (simp add: getTaskEnumCombinations_def)
qed

definition enum_field :: "string list \<Rightarrow> usage_field" where
  "enum_field vs = \<lparr>uf_type = None, uf_unit = None, uf_enum = Some (map js vs)\<rparr>"

definition number_field :: "string \<Rightarrow> usage_field" where
  "number_field u = \<lparr>uf_type = Some (js ''number''), uf_unit = Some (js u), uf_enum = None\<rparr>"

definition video_schema :: usage_schema where
  "video_schema = [(js ''size'', enum_field [''hd'', ''sd'']), (js ''mode'', enum_field [''a'', ''b'', ''c'']),
     (js ''sec'', number_field ''second'')]"

theorem getTaskEnumCombinations_product_witness:
  "length (getTaskEnumCombinations str_le (Some video_schema)) = 6
   \<and> [(js ''mode'', js ''b''), (js ''size'', js ''sd'')] \<in> set (getTaskEnumCombinations str_le (Some video_schema))"
proof -
  have d: "distinct (map fst (schema_fields (Some video_schema)))" by code_simp
  have "prod_list (map (\<lambda>(f, d). length (enum_values d)) (getTaskEnumFields str_le (Some video_schema))) = 6"
    by code_simp
  moreover have "list_all2 (\<lambda>(f, v) (f', d). f = f' \<and> v \<in> set (enum_values d))
      [(js ''mode'', js ''b''), (js ''size'', js ''sd'')] (getTaskEnumFields str_le (Some video_schema))"
    by code_simp
  ultimately show ?thesis
    using getTaskEnumCombinations_product [OF d, of str_le] by (simp add: assigns_def)
qed

section \<open>The matrix and its tiers\<close>

lemma map_of_pick_prices:
  "map_of (pick_prices nf prices) f =
     (if f \<in> fst ` set nf then Some (case map_of prices f of Some x \<Rightarrow> x | None \<Rightarrow> Fin 0) else None)"
  by (induction nf) (auto simp: pick_prices_def)

lemma pick_pick: "pick_prices nf (pick_prices nf prices) = pick_prices nf prices"
  unfolding pick_prices_def [of nf "pick_prices nf prices"] pick_prices_def [of nf prices, symmetric]
  unfolding map_of_pick_prices by (force simp: pick_prices_def)

text \<open>Entries of an assignment that all occur in another one are that assignment.\<close>

lemma same_assignment:
  assumes "assigns fds c" "assigns fds c'" and "distinct (map fst fds)"
    and "\<forall>(f, v) \<in> set c. map_of c' f = Some v"
  shows "c = c'"
proof -
  have n: "map fst c = map fst fds" "map fst c' = map fst fds"
    using assms assigns_fst by auto
  have entries: "map (\<lambda>f. (f, the (map_of e f))) (map fst e) = e" if "distinct (map fst e)" for e :: combination
    unfolding map_map by (rule map_idI) (use map_of_is_SomeI [OF that] in force)
  have "map_of c f = map_of c' f" if f: "f \<in> set (map fst fds)" for f
  proof -
    from f n(1) obtain v where v: "(f, v) \<in> set c" by (metis (no_types) ex_map_conv imageE list.set_map prod.collapse)
    then show ?thesis using assms(3,4) n(1) map_of_is_SomeI [of c f v] by auto
  qed
  then have "map (\<lambda>f. (f, the (map_of c f))) (map fst fds) = map (\<lambda>f. (f, the (map_of c' f))) (map fst fds)"
    by (intro map_cong) auto
  moreover have "map (\<lambda>f. (f, the (map_of c f))) (map fst fds) = c"
    using entries [of c] n(1) assms(3) by simp
  moreover have "map (\<lambda>f. (f, the (map_of c' f))) (map fst fds) = c'"
    using entries [of c'] n(2) assms(3) by simp
  ultimately show ?thesis by (rule box_equals)
qed

text \<open>A row whose amounts are numbers, and rows with equal amounts.\<close>

definition price_at :: "task_row \<Rightarrow> jstring \<Rightarrow> jsnum" where
  "price_at row f = (case map_of (tw_unitPrices row) f of Some x \<Rightarrow> x | None \<Rightarrow> Fin 0)"

definition row_numbers :: "usage_schema \<Rightarrow> task_row \<Rightarrow> bool" where
  "row_numbers nf row \<longleftrightarrow> tw_constant row \<noteq> NaN \<and> list_all (\<lambda>(f, d). price_at row f \<noteq> NaN) nf"

definition same_row :: "usage_schema \<Rightarrow> task_row \<Rightarrow> task_row \<Rightarrow> bool" where
  "same_row nf r r' \<longleftrightarrow> tw_combination r = tw_combination r' \<and> js_eq (tw_constant r) (tw_constant r')
     \<and> list_all (\<lambda>(f, d). js_eq (price_at r f) (price_at r' f)) nf"

lemma js_eq_refl: "x \<noteq> NaN \<Longrightarrow> js_eq x x"
  by (simp add: js_eq_def)

lemma same_row_pick:
  assumes "row_numbers nf r" and "js_eq (tw_constant r) k"
    and "list_all (\<lambda>(f, d). js_eq (price_at r f) (case map_of prices f of Some x \<Rightarrow> x | None \<Rightarrow> Fin 0)) nf"
  shows "same_row nf r \<lparr>tw_combination = tw_combination r, tw_constant = k, tw_unitPrices = pick_prices nf prices\<rparr>"
  using assms by (force simp: same_row_def price_at_def map_of_pick_prices list_all_iff)

lemma row_tier_covers:
  assumes "assigns fds c" "assigns fds (tw_combination row)" "distinct (map fst fds)"
  shows "tier_covers c (row_tier le nf n (i, row)) \<longleftrightarrow> i = n - 1 \<or> tw_combination row = c"
proof -
  have "list_all (\<lambda>(f, v). map_of c f = Some v) (tw_combination row) \<longleftrightarrow> tw_combination row = c"
    using same_assignment [OF assms(2,1,3)] assigns_fst [OF assms(1)] assms(3)
    by (auto simp: list_all_iff)
  then show ?thesis by (simp add: tier_covers_def row_tier_def list_all_iff)
qed

lemma enumerate_find:
  assumes "i < length xs" and "P (i, xs ! i)" and "\<And>j. j < i \<Longrightarrow> \<not> P (j, xs ! j)"
  shows "find P (List.enumerate 0 xs) = Some (i, xs ! i)"
  unfolding find_Some_iff using assms by (intro exI [of _ i]) (simp add: nth_enumerate_eq)

lemma find_map': "find P (map f xs) = map_option f (find (\<lambda>x. P (f x)) xs)"
  by (induction xs) auto

lemma matrix_rows_back:
  assumes fds: "distinct (map fst fds)" and rows: "distinct (map tw_combination rows)"
    and all: "\<forall>r \<in> set rows. assigns fds (tw_combination r)" and i: "i < length rows"
  shows "find (tier_covers (tw_combination (rows ! i))) (map (row_tier le nf (length rows)) (List.enumerate 0 rows))
    = Some (row_tier le nf (length rows) (i, rows ! i))"
proof -
  have "find (\<lambda>ir. tier_covers (tw_combination (rows ! i)) (row_tier le nf (length rows) ir)) (List.enumerate 0 rows)
    = Some (i, rows ! i)"
  proof (rule enumerate_find [OF i])
    show "tier_covers (tw_combination (rows ! i)) (row_tier le nf (length rows) (i, rows ! i))"
      using all i fds by (subst row_tier_covers [where fds = fds]) auto
    fix j assume j: "j < i"
    then have "tw_combination (rows ! j) \<noteq> tw_combination (rows ! i)"
      using rows [unfolded distinct_conv_nth, rule_format, of j i] i by simp
    with j i all fds show "\<not> tier_covers (tw_combination (rows ! i)) (row_tier le nf (length rows) (j, rows ! j))"
      by (subst row_tier_covers [where fds = fds]) auto
  qed
  then show ?thesis by (simp add: find_map')
qed

lemma combinations_nonempty: "getTaskEnumCombinations le schema \<noteq> []"
proof -
  have "cs \<noteq> [] \<Longrightarrow> list_all (\<lambda>(f, d). enum_values d \<noteq> []) fds \<Longrightarrow> fold extend_combinations fds cs \<noteq> []" for fds cs
    by (induction fds arbitrary: cs) (auto simp: extend_combinations_def neq_Nil_conv)
  then show ?thesis
    by (simp add: getTaskEnumCombinations_def getTaskEnumFields_def list_all_iff)
qed

definition schema_ok :: "usage_schema \<Rightarrow> bool" where
  "schema_ok schema \<longleftrightarrow> distinct (map fst schema) \<and> list_all (\<lambda>(f, d). distinct (enum_values d)) schema"

lemma schema_combinations:
  assumes "schema_ok schema"
  shows "distinct (getTaskEnumCombinations le (Some schema))"
    and "c \<in> set (getTaskEnumCombinations le (Some schema)) \<Longrightarrow> assigns (getTaskEnumFields le (Some schema)) c"
    and "distinct (map fst (getTaskEnumFields le (Some schema)))"
proof -
  show d: "distinct (map fst (getTaskEnumFields le (Some schema)))"
    using assms distinct_fields(2) by (simp add: schema_ok_def)
  have "list_all (\<lambda>(f, d). distinct (enum_values d)) (getTaskEnumFields le (Some schema))"
    using assms by (auto simp: schema_ok_def getTaskEnumFields_def schema_fields_def list_all_iff)
  with combinations_fold [OF d] show "distinct (getTaskEnumCombinations le (Some schema))"
    "c \<in> set (getTaskEnumCombinations le (Some schema)) \<Longrightarrow> assigns (getTaskEnumFields le (Some schema)) c"
    by (auto simp: getTaskEnumCombinations_def)
qed

lemma uniform_back:
  assumes "uniform_rows nf r rows" and "\<forall>r \<in> set rows. row_numbers nf r" and "row_numbers nf r"
  shows "list_all2 (same_row nf) rows
    (map (\<lambda>c. \<lparr>tw_combination = c, tw_constant = tw_constant r, tw_unitPrices = pick_prices nf (pick_prices nf (tw_unitPrices r))\<rparr>)
      (map tw_combination rows))"
proof -
  have price: "js_eq (price_at q f) (case map_of (tw_unitPrices r) f of Some x \<Rightarrow> x | None \<Rightarrow> Fin 0)"
    if "(f, d) \<in> set nf" "q \<in> set rows" for f d q
  proof -
    have "same_price (map_of (tw_unitPrices q) f) (map_of (tw_unitPrices r) f)"
      using assms(1) that by (auto simp: uniform_rows_def list_all_iff)
    then show ?thesis
      by (cases "map_of (tw_unitPrices q) f"; cases "map_of (tw_unitPrices r) f")
        (auto simp: price_at_def intro: js_eq_refl)
  qed
  have "same_row nf q \<lparr>tw_combination = tw_combination q, tw_constant = tw_constant r,
      tw_unitPrices = pick_prices nf (tw_unitPrices r)\<rparr>" if q: "q \<in> set rows" for q
    using assms q price by (intro same_row_pick) (auto simp: uniform_rows_def list_all_iff)
  then show ?thesis
    by (simp add: pick_pick list_all2_conv_all_nth)
qed

lemma row_back:
  assumes "row_numbers nf q"
  shows "same_row nf q \<lparr>tw_combination = tw_combination q, tw_constant = tw_constant q,
    tw_unitPrices = pick_prices nf (pick_prices nf (tw_unitPrices q))\<rparr>"
  using assms
  by (auto simp: pick_pick row_numbers_def price_at_def list_all_iff intro!: same_row_pick js_eq_refl)

lemma matrix_back:
  assumes ok: "schema_ok schema" and nf: "getTaskNumberFields le (Some schema) = nf" "nf \<noteq> []"
    and rows: "map tw_combination rows = getTaskEnumCombinations le (Some schema)"
    and nums: "\<forall>r \<in> set rows. row_numbers nf r"
  shows "\<exists>rows'. matrix_of_tiers le schema (taskMatrixToTiers le rows schema) = Some rows'
    \<and> list_all2 (same_row nf) rows rows'"
proof -
  from combinations_nonempty [of le "Some schema"] rows have "rows \<noteq> []" by auto
  then obtain r rs where r: "rows = r # rs" by (cases rows) auto
  let ?fds = "getTaskEnumFields le (Some schema)"
  have comb: "distinct (map tw_combination rows)" "\<forall>q \<in> set rows. assigns ?fds (tw_combination q)"
    using schema_combinations [OF ok, where le = le] unfolding rows [symmetric] by auto
  show ?thesis
  proof (cases "uniform_rows nf r rows")
    case True
    define t where "t = \<lparr>tk_label = js ''base'', tk_conditions = [], tk_constant = tw_constant r,
      tk_unit_prices = pick_prices nf (tw_unitPrices r)\<rparr>"
    have "taskMatrixToTiers le rows schema = [t]"
      using True nf by (simp add: taskMatrixToTiers_def r t_def)
    moreover have "matrix_of_tiers le schema [t] = Some (map (matrix_row nf [t] t) (getTaskEnumCombinations le (Some schema)))"
      by (simp add: matrix_of_tiers_def t_def nf)
    moreover have "matrix_row nf [t] t = (\<lambda>c. \<lparr>tw_combination = c, tw_constant = tw_constant r,
        tw_unitPrices = pick_prices nf (pick_prices nf (tw_unitPrices r))\<rparr>)"
      by (rule ext) (simp add: matrix_row_def tier_covers_def t_def)
    ultimately show ?thesis
      using uniform_back [OF True nums] nums r by (simp flip: rows)
  next
    case False
    let ?n = "length rows"
    let ?ts = "map (row_tier le nf ?n) (List.enumerate 0 rows)"
    have ts: "taskMatrixToTiers le rows schema = ?ts"
      using False nf by (simp add: taskMatrixToTiers_def r)
    have pos: "0 < ?n" by (simp add: r)
    then have "length ?ts \<noteq> 0" by simp
    then have ne: "?ts \<noteq> []" by (metis list.size(3))
    have last: "tk_conditions (last ?ts) = []" "?ts \<noteq> []"
      using ne pos unfolding last_conv_nth [OF ne] by (simp_all add: nth_enumerate_eq row_tier_def)
    have "distinct (map fst (tw_combination q))" if "q \<in> set rows" for q
      using that comb(2) schema_combinations(3) [OF ok, where le = le] assigns_fst [of ?fds "tw_combination q"] by simp
    then have "distinct (map fst (tk_conditions t))" if "t \<in> set ?ts" for t
      using that by (auto simp: row_tier_def in_set_enumerate_eq)
    then have m: "matrix_of_tiers le schema ?ts
        = Some (map (matrix_row nf ?ts (last ?ts)) (getTaskEnumCombinations le (Some schema)))"
      using last by (auto simp: matrix_of_tiers_def nf list_ex_iff)
    have "matrix_row nf ?ts (last ?ts) (tw_combination (rows ! i)) = \<lparr>tw_combination = tw_combination (rows ! i),
        tw_constant = tw_constant (rows ! i), tw_unitPrices = pick_prices nf (pick_prices nf (tw_unitPrices (rows ! i)))\<rparr>"
      if "i < ?n" for i
      using matrix_rows_back [OF schema_combinations(3) [OF ok] comb that]
      by (simp add: matrix_row_def row_tier_def)
    then have "list_all2 (same_row nf) rows (map (matrix_row nf ?ts (last ?ts)) (map tw_combination rows))"
      using nums by (auto simp: list_all2_conv_all_nth intro: row_back)
    with ts m show ?thesis by (simp flip: rows)
  qed
qed


definition video_rows :: "task_row list" where
  "video_rows = map (\<lambda>c. \<lparr>tw_combination = c, tw_constant = Fin (if snd (hd c) = js ''a'' then 1 else 0),
     tw_unitPrices = [(js ''sec'', Fin 2)]\<rparr>) (getTaskEnumCombinations str_le (Some video_schema))"


section \<open>Normalising\<close>

lemma finite_or_zero_idem [simp]: "finite_or_zero (finite_or_zero x) = finite_or_zero x"
  by (simp add: finite_or_zero_def)

lemma finite_or_zero_0 [simp]: "finite_or_zero (Fin 0) = Fin 0"
  by (simp add: finite_or_zero_def)

lemma valid_finite_or_zero [simp]: "valid_amount (finite_or_zero x)" "valid_amount (Fin 0)"
  by (auto simp: valid_amount_def finite_or_zero_def js_le_def js_lt_def js_eq_def is_finite_def fval_def split: jsnum.splits)

lemma map_of_zero: "(f, d) \<in> set nf \<Longrightarrow> map_of (map (\<lambda>(f, d). (f, x)) nf) f = Some x"
  by (induction nf) auto

lemma map_of_normalized:
  "map_of (tk_unit_prices (normalize_task_tier nf ef (i, t))) f =
     (if f \<in> fst ` set nf then Some (case map_of (tk_unit_prices t) f of Some x \<Rightarrow> finite_or_zero x | None \<Rightarrow> Fin 0)
      else None)"
  unfolding normalize_task_tier_def by (induction nf) auto

lemma normalize_tier_idem:
  "normalize_task_tier nf ef (j, normalize_task_tier nf ef (i, t)) = normalize_task_tier nf ef (i, t)"
proof -
  let ?t = "normalize_task_tier nf ef (i, t)"
  have "tk_unit_prices (normalize_task_tier nf ef (j, ?t)) = tk_unit_prices ?t"
    unfolding normalize_task_tier_def [of nf ef "(j, ?t)"]
    by (auto simp: map_of_normalized) (force simp: normalize_task_tier_def split: option.splits)
  moreover have "tk_label ?t \<noteq> []" by (simp add: normalize_task_tier_def)
  ultimately show ?thesis
    by (auto simp: normalize_task_tier_def intro!: task_tier.equality)
qed

definition task_tier_ok :: "collation \<Rightarrow> usage_schema \<Rightarrow> task_tier \<Rightarrow> bool" where
  "task_tier_ok le schema t \<longleftrightarrow> tk_label t \<noteq> [] \<and> valid_amount (tk_constant t)
     \<and> list_all (\<lambda>(f, x). valid_amount x) (tk_unit_prices t)
     \<and> map fst (tk_unit_prices t) = map fst (getTaskNumberFields le (Some schema))
     \<and> list_all (\<lambda>(f, v). case map_of (getTaskEnumFields le (Some schema)) f of
          Some d \<Rightarrow> v \<in> set (enum_values d) | None \<Rightarrow> False) (tk_conditions t)"

text \<open>
  C34. Normalising is final: a normalised configuration has at least one tier, every amount in it is a
  finite number that is not negative, every condition is on a declared value, every label is set,
  and normalising it again changes nothing.
\<close>

theorem normalizeTaskVisualConfig_final:
  "let n = normalizeTaskVisualConfig le config schema
   in n \<noteq> [] \<and> normalizeTaskVisualConfig le (Some n) schema = n \<and> list_all (task_tier_ok le schema) n"
proof -
  let ?nf = "getTaskNumberFields le (Some schema)" let ?ef = "getTaskEnumFields le (Some schema)"
  have good: "task_tier_ok le schema (normalize_task_tier ?nf ?ef it)" for it
    by (cases it) (auto simp: task_tier_ok_def normalize_task_tier_def list_all_iff split: option.splits)
  have default: "normalize_task_tier ?nf ?ef (0, t) = t" if "[t] = createDefaultTaskVisualConfig le schema" for t
    using that by (auto simp: normalize_task_tier_def createDefaultTaskVisualConfig_def zero_prices_def map_of_zero)
  show ?thesis
  proof (cases "config = None \<or> config = Some []")
    case True
    then have n: "normalizeTaskVisualConfig le config schema = createDefaultTaskVisualConfig le schema"
      by (auto simp: normalizeTaskVisualConfig_def)
    obtain t where t: "createDefaultTaskVisualConfig le schema = [t]" by (simp add: createDefaultTaskVisualConfig_def)
    with default [of t] have "normalizeTaskVisualConfig le (Some [t]) schema = [t]"
      by (simp add: normalizeTaskVisualConfig_def)
    moreover have "task_tier_ok le schema t"
      using t by (auto simp: createDefaultTaskVisualConfig_def task_tier_ok_def zero_prices_def list_all_iff)
    ultimately show ?thesis using n t by simp
  next
    case False
    then obtain ts where ts: "config = Some ts" "ts \<noteq> []" by auto
    then have n: "normalizeTaskVisualConfig le config schema = map (normalize_task_tier ?nf ?ef) (List.enumerate 0 ts)"
      by (simp add: normalizeTaskVisualConfig_def)
    have "map (normalize_task_tier ?nf ?ef) (List.enumerate 0 (map (normalize_task_tier ?nf ?ef) (List.enumerate 0 ts)))
        = map (normalize_task_tier ?nf ?ef) (List.enumerate 0 ts)"
      by (intro nth_equalityI) (auto simp: nth_enumerate_eq normalize_tier_idem)
    moreover have "List.enumerate 0 ts \<noteq> []" using ts(2) by (cases ts) auto
    ultimately show ?thesis
      unfolding n Let_def by (simp add: normalizeTaskVisualConfig_def list_all_iff good)
  qed
qed

end
