(* ===== verification/Rules_Correct.thy ===== *)
theory Rules_Correct
  imports Tier_Expr Runtime_Correct
begin

text \<open>
  Properties of the request rules: the editor's conditions are normalised for good, and the split
  of an expression keeps every factor.  The last section records where the round trips of the
  editors lose information.
\<close>

section \<open>Normalising a condition\<close>

definition partial_condition_of :: "request_condition \<Rightarrow> partial_condition" where
  "partial_condition_of c = (case c of Time_rule t \<Rightarrow> partial_time t | Value_rule v \<Rightarrow> partial_value v)"

definition source_name :: "rule_source \<Rightarrow> jstring" where
  "source_name s = (case s of Source_param \<Rightarrow> js ''param'' | Source_header \<Rightarrow> js ''header'')"

definition condition_valid :: "request_condition \<Rightarrow> bool" where
  "condition_valid c =
     (case c of
        Time_rule t \<Rightarrow> tr_func t \<in> set TIME_FUNCTIONS \<and> tr_timezone t \<noteq> []
          \<and> tr_mode t \<in> fst ` set (getRequestRuleMatchOptions (js ''time''))
      | Value_rule v \<Rightarrow> ph_mode v \<in> fst ` set (getRequestRuleMatchOptions (source_name (ph_source v))))"

lemma known_mode_valid:
  "d \<in> fst ` set (getRequestRuleMatchOptions s) \<Longrightarrow> known_mode s d m \<in> fst ` set (getRequestRuleMatchOptions s)"
  by (auto simp: known_mode_def split: option.splits)

lemma known_mode_id: "m \<in> fst ` set (getRequestRuleMatchOptions s) \<Longrightarrow> known_mode s d (Some m) = m"
  by (simp add: known_mode_def)

lemma default_modes:
  "MATCH_GTE \<in> fst ` set (getRequestRuleMatchOptions (js ''time''))"
  "MATCH_EQ \<in> fst ` set (getRequestRuleMatchOptions s)"
  by (auto simp: getRequestRuleMatchOptions_def Let_def)

lemma normalize_valid: "condition_valid (normalizeCondition c)"
proof -
  have "text_or (js ''Asia/Shanghai'') t \<noteq> []" for t
    by (auto simp: text_or_def text_truthy_def split: option.splits)
  moreover have "(if isTimeFunc f then the f else js ''hour'') \<in> set TIME_FUNCTIONS" for f
    by (auto simp: isTimeFunc_def TIME_FUNCTIONS_def split: option.splits)
  ultimately show ?thesis
    by (auto simp: normalizeCondition_def condition_valid_def Let_def source_name_def
        intro!: known_mode_valid default_modes)
qed

lemma normalize_fixpoint:
  assumes "condition_valid c"
  shows "normalizeCondition (Some (partial_condition_of c)) = c"
proof (cases c)
  case (Time_rule t)
  then show ?thesis
    using assms
    by (auto simp: condition_valid_def partial_condition_of_def normalizeCondition_def partial_time_def
        isTimeFunc_def text_or_def text_truthy_def text_or_empty_def known_mode_id
        intro!: time_rule_condition.equality)
next
  case (Value_rule v)
  then show ?thesis
    using assms
    by (cases "ph_source v")
      (auto simp: condition_valid_def partial_condition_of_def normalizeCondition_def partial_value_def
        source_name_def text_or_empty_def known_mode_id Let_def
        intro!: param_header_condition.equality)
qed

text \<open>
  C36. A normalised condition is one the builder knows: its function, its time zone and its mode are
  legal for its source, whatever fields the editor left out, and normalising it again changes
  nothing.
\<close>

theorem normalizeCondition_final:
  "condition_valid (normalizeCondition c)
   \<and> normalizeCondition (Some (partial_condition_of (normalizeCondition c))) = normalizeCondition c"
  using normalize_valid normalize_fixpoint by blast

section \<open>Splitting off the rules\<close>

definition is_rule_part :: "jstring \<Rightarrow> bool" where
  "is_rule_part part \<longleftrightarrow>
     (\<exists>g gs. tryParseRequestRuleExpr part = Inr (Some (g # gs))) \<or> is_traced (compile_result part)"

lemma partition_spec:
  "partition_parts parts rs bs cache = (Inr (rs', bs'), cache') \<Longrightarrow> cache_ok cache \<Longrightarrow>
   \<exists>us vs. rs' = rs @ us \<and> bs' = bs @ vs \<and> parts \<in> shuffles us vs
     \<and> list_all is_rule_part us \<and> list_all (\<lambda>p. \<not> is_rule_part p) vs \<and> cache_ok cache'"
proof (induction parts arbitrary: rs bs cache)
  case (Cons p ps)
  from Cons.prems(1) obtain parsed where parsed: "tryParseRequestRuleExpr p = Inr parsed"
    by (auto split: sum.splits)
  obtain r k where rk: "compileBillingExpression cache p = (r, k)" by (cases "compileBillingExpression cache p")
  have k: "cache_ok k" "r = compile_result p" using compile_cache_ok [OF Cons.prems(2) rk] by auto
  have rule: "is_rule_part p \<longleftrightarrow> (parsed \<noteq> None \<and> parsed \<noteq> Some []) \<or> is_traced r"
    using parsed k by (auto simp: is_rule_part_def) (metis neq_Nil_conv)
  show ?case
  proof (cases "is_rule_part p")
    case True
    with Cons.prems(1) parsed rk rule have "partition_parts ps (rs @ [p]) bs k = (Inr (rs', bs'), cache')" by auto
    from Cons.IH [OF this k(1)] obtain us vs where "rs' = (rs @ [p]) @ us" "bs' = bs @ vs" "ps \<in> shuffles us vs"
      "list_all is_rule_part us" "list_all (\<lambda>p. \<not> is_rule_part p) vs" "cache_ok cache'" by blast
    with True show ?thesis by (intro exI [of _ "p # us"] exI [of _ vs]) (simp add: Cons_in_shuffles_leftI)
  next
    case False
    with Cons.prems(1) parsed rk rule have "partition_parts ps rs (bs @ [p]) k = (Inr (rs', bs'), cache')" by auto
    from Cons.IH [OF this k(1)] obtain us vs where "rs' = rs @ us" "bs' = (bs @ [p]) @ vs" "ps \<in> shuffles us vs"
      "list_all is_rule_part us" "list_all (\<lambda>p. \<not> is_rule_part p) vs" "cache_ok cache'" by blast
    with False show ?thesis by (intro exI [of _ us] exI [of _ "p # vs"]) (simp add: Cons_in_shuffles_rightI)
  qed
qed auto


definition price_and_rule :: jstring where
  "price_and_rule = js ''p*(param(\"a\") == 1 ? 2 : 1)''"


section \<open>Where the editors lose information\<close>

definition cost_of :: "jstring \<Rightarrow> simulation_context \<Rightarrow> jsnum option" where
  "cost_of source ctx =
     (case fst (evaluateBillingExpression plain_host [] source ctx) of
        Eval_success s \<Rightarrow> Some (es_cost s)
      | Eval_failure f \<Rightarrow> None)"

definition header_context :: "string \<Rightarrow> string \<Rightarrow> simulation_context" where
  "header_context n v = (tokens_context [(''p'', 1), (''c'', 1)])\<lparr>ctx_request :=
     Some \<lparr>req_body = JObj [], req_headers = Some [(js n, JStr (js v))]\<rparr>\<rparr>"

definition sum_and_rule :: jstring where
  "sum_and_rule = js ''tier(\"a\",p*2)+c*(header(\"x\")==\"1\"?2:1)''"


definition hex_escape_rule :: jstring where
  "hex_escape_rule = js ''p*(has(header(\"x\"), \"'' @ [92] @ js ''x41\") ? 2 : 1)''"


definition param_contains_group :: rule_group where
  "param_contains_group = plain_group
     [value_rule Source_param (js ''a'') MATCH_CONTAINS (js ''v'')] (js ''2'')"

text \<open>
  The builder's own rule for a parameter that contains a text is not read back: the parser
  splits the condition at \<open>&&\<close> before it tries the pattern for the whole, and no pattern matches
  the second half.
\<close>

lemma param_contains_not_reparsed:
  "buildRequestRuleExpr [param_contains_group] = js ''(param(\"a\") != nil && has(param(\"a\"), \"v\") ? 2 : 1)''
   \<and> tryParseRequestRuleExpr (buildRequestRuleExpr [param_contains_group]) = Inr None"
  by code_simp

definition always_rule :: jstring where
  "always_rule = js ''(hour(\"UTC\") >= 9 || hour(\"UTC\") < 12 ? 2 : 1)''"

text \<open>
  Reading a time range forgets its operator: \<open>hour("UTC") >= 9 || hour("UTC") < 12\<close>, which always holds,
  is read as the range from 9 to 12 and built again with \<open>&&\<close>.
\<close>

lemma range_operator_lost:
  "case tryParseRequestRuleExpr always_rule of
     Inr (Some gs) \<Rightarrow> buildRequestRuleExpr gs = js ''(hour(\"UTC\") >= 9 && hour(\"UTC\") < 12 ? 2 : 1)''
   | _ \<Rightarrow> False"
  by code_simp

definition backslash_group :: rule_group where
  "backslash_group = plain_group [value_rule Source_header (js ''a'' @ [92] @ js ''b'') MATCH_EXISTS []] (js ''2'')"

text \<open>
  A path with a backslash doubles it: the builder escapes the path, the parser takes the escaped
  text as the path, so every round through the editor adds backslashes.
\<close>

lemma path_backslash_doubles:
  "tryParseRequestRuleExpr (buildRequestRuleExpr [backslash_group])
   = Inr (Some [plain_group [value_rule Source_header (js ''a'' @ [92, 92] @ js ''b'') MATCH_EXISTS []] (js ''2'')])"
  by code_simp

definition minus_price :: jstring where
  "minus_price = js ''tier(\"a\", p * 8-4 + c * 2)''"

text \<open>
  The tier editor reads \<open>p * 8-4\<close> as a price that is no number and writes it back as \<open>p * 0\<close>: for
  a single tier the text is not compared with the generated expression.
\<close>

lemma visual_config_drops_price:
  "map_option (\<lambda>c. generateExprFromVisualConfig (Some c)) (tryParseVisualConfig (Some minus_price))
     = Some (js ''tier(\"a\", p * 0 + c * 2)'')
   \<and> cost_of minus_price (header_context ''x'' ''1'') = Some (Fin 6)"
  by code_simp

end
