(* ===== verification/Table_Correct.thy ===== *)
theory Table_Correct
  imports Task_Table Task_Correct Rules_Correct Display_Correct
begin

text \<open>
  The task price table (\<open>Task_Table\<close>) against the charge: naming the fallback keeps the tier that
  the first matching row selects, and the conditions it is given are exactly its complement.
\<close>

section \<open>Conditions of a field\<close>

definition row_applies :: "usage_schema \<Rightarrow> runtime_env \<Rightarrow> 'a task_tier_scheme \<Rightarrow> bool" where
  "row_applies schema env row \<longleftrightarrow> list_all (task_holds schema env) (tk_conditions row)"

text \<open>Usage that has, in every field with a list of values, one of these values.\<close>

definition usage_declared :: "usage_schema \<Rightarrow> runtime_env \<Rightarrow> bool" where
  "usage_declared schema env \<longleftrightarrow> usage_conforms schema env
     \<and> list_all (\<lambda>(field, def). field_values schema field = []
         \<or> list_ex (\<lambda>v. task_holds schema env (field, v)) (field_values schema field)) schema"

definition condition_proper :: "usage_schema \<Rightarrow> jstring \<times> jstring \<Rightarrow> bool" where
  "condition_proper schema c \<longleftrightarrow> (boolean_field schema (fst c) \<longrightarrow> snd c \<in> {js ''true'', js ''false''})"

lemma task_holds_unique:
  "condition_proper schema (f, v) \<Longrightarrow> condition_proper schema (f, v') \<Longrightarrow>
   task_holds schema env (f, v) \<Longrightarrow> task_holds schema env (f, v') \<Longrightarrow> v = v'"
  by (auto simp: condition_proper_def task_holds_def split: if_splits)

lemma field_value_proper: "v \<in> set (field_values schema f) \<Longrightarrow> condition_proper schema (f, v)"
  by (auto simp: field_values_def condition_proper_def boolean_field_def split: option.splits if_splits)

lemma usage_declaredD:
  assumes "usage_declared schema env" and "field_values schema f \<noteq> []"
  obtains v where "v \<in> set (field_values schema f)" "task_holds schema env (f, v)"
proof -
  from assms(2) obtain def where "map_of schema f = Some def" by (auto simp: field_values_def split: option.splits)
  with assms have "list_ex (\<lambda>v. task_holds schema env (f, v)) (field_values schema f)"
    unfolding usage_declared_def list_all_iff by (blast dest: map_of_SomeD)
  with that show ?thesis by (auto simp: list_ex_iff)
qed

lemma read_task_proper: "read_task schema ib e = Some (c, ok) \<Longrightarrow> condition_proper schema c"
proof -
  assume r: "read_task schema ib e = Some (c, ok)"
  then have "task_condition_of schema ib e \<noteq> Task_reject" by (auto simp: read_task_def)
  then show ?thesis
    by (rule task_condition_shape)
      (use r in \<open>auto simp: read_task_def condition_proper_def boolean_text_def split: if_splits\<close>)
qed

lemma taskConditions_proper:
  assumes "taskConditions e schema ib = Some (Some cs)"
  shows "list_all (condition_proper schema) cs"
proof -
  from assms obtain rs where "map_opt (read_task schema ib) (flattenBinary e (js ''&&'')) = Some rs" "cs = map fst rs"
    by (auto simp: taskConditions_def task_loop split: if_splits)
  with map_opt_set [OF this(1)] show ?thesis by (force simp: list_all_iff dest: read_task_proper)
qed

lemma chain_proper:
  "task_chain schema ib e ts = Some us \<Longrightarrow> list_all (\<lambda>t. list_all (condition_proper schema) (tk_conditions t)) ts \<Longrightarrow>
   list_all (\<lambda>t. list_all (condition_proper schema) (tk_conditions t)) us \<and> us \<noteq> [] \<and> tk_conditions (last us) = []"
proof (induction e arbitrary: ts)
  case (Conditional c x y a b)
  show ?case
  proof (cases "taskConditions c schema ib")
    case (Some r)
    show ?thesis
    proof (cases r)
      case None
      with Some Conditional.prems Conditional.IH(3) [of ts] show ?thesis by simp
    next
      case (Some cs)
      with \<open>taskConditions c schema ib = Some r\<close> have cs: "taskConditions c schema ib = Some (Some cs)" by simp
      with Conditional.prems(1) obtain t where t: "taskTier x cs schema = Some t"
        and us: "task_chain schema ib y (ts @ [t]) = Some us"
        by (auto split: option.splits)
      from t have "tk_conditions t = cs" by (rule taskTier_shape)
      with Conditional.IH(3) [OF us] Conditional.prems(2) taskConditions_proper [OF cs] show ?thesis by simp
    qed
  qed (use Conditional.prems in simp)
qed (auto split: option.splits elim!: taskTier_shape)

section \<open>Combinations\<close>

lemma combinations_spec:
  "condition_combinations schema fs cs = Some ds \<Longrightarrow>
   (\<forall>f \<in> set fs. field_values schema f \<noteq> [])
   \<and> set ds = {c @ zip fs vs |c vs. c \<in> set cs \<and> list_all2 (\<lambda>f v. v \<in> set (field_values schema f)) fs vs}"
proof (induction fs arbitrary: cs)
  case (Cons f fs)
  let ?next = "concat (map (\<lambda>c. map (\<lambda>v. c @ [(f, v)]) (field_values schema f)) cs)"
  from Cons.prems have f: "field_values schema f \<noteq> []" and ds: "condition_combinations schema fs ?next = Some ds"
    by (auto split: if_splits)
  have "set ds = {c @ zip (f # fs) vs |c vs. c \<in> set cs \<and> list_all2 (\<lambda>f v. v \<in> set (field_values schema f)) (f # fs) vs}"
    (is "_ = ?R")
  proof (intro equalityI subsetI)
    fix d
    assume "d \<in> set ds"
    with Cons.IH [OF ds] obtain c v vs where "d = (c @ [(f, v)]) @ zip fs vs" "c \<in> set cs" "v \<in> set (field_values schema f)"
      "list_all2 (\<lambda>f v. v \<in> set (field_values schema f)) fs vs" by auto
    then have "d = c @ zip (f # fs) (v # vs)" "c \<in> set cs"
      "list_all2 (\<lambda>f v. v \<in> set (field_values schema f)) (f # fs) (v # vs)" by simp_all
    then show "d \<in> ?R" by blast
  next
    fix d
    assume "d \<in> ?R"
    then obtain c ws where d: "d = c @ zip (f # fs) ws" "c \<in> set cs"
      and ws: "list_all2 (\<lambda>f v. v \<in> set (field_values schema f)) (f # fs) ws" by blast
    from ws obtain v vs where v: "ws = v # vs" "v \<in> set (field_values schema f)"
      and vs: "list_all2 (\<lambda>f v. v \<in> set (field_values schema f)) fs vs" by (cases ws) simp_all
    have "c @ [(f, v)] \<in> set ?next" using d(2) v(2) by auto
    with vs have "(c @ [(f, v)]) @ zip fs vs \<in> set ds" using Cons.IH [OF ds] by blast
    with d(1) v(1) show "d \<in> set ds" by simp
  qed
  with f Cons.IH [OF ds] show ?case by simp
qed auto

lemma set_condition_fields: "set (condition_fields ts) = (\<Union>t \<in> set ts. fst ` set (tk_conditions t))"
  by (auto simp: condition_fields_def unique_sorted_def image_image)

text \<open>The combination of the usage: the declared values that hold.\<close>

lemma usage_combination:
  assumes "usage_declared schema env" and "\<forall>f \<in> set fs. field_values schema f \<noteq> []"
  shows "\<exists>vs. list_all2 (\<lambda>f v. v \<in> set (field_values schema f)) fs vs \<and> list_all (task_holds schema env) (zip fs vs)"
  using assms(2)
proof (induction fs)
  case (Cons f fs)
  then obtain vs where "list_all2 (\<lambda>f v. v \<in> set (field_values schema f)) fs vs" "list_all (task_holds schema env) (zip fs vs)"
    by auto
  moreover from Cons.prems usage_declaredD [OF assms(1), of f] obtain v where
    "v \<in> set (field_values schema f)" "task_holds schema env (f, v)" by auto
  ultimately show ?case by (intro exI [of _ "v # vs"]) simp
qed simp

lemma combination_unique:
  "list_all2 (\<lambda>f v. v \<in> set (field_values schema f)) fs vs \<Longrightarrow> list_all (task_holds schema env) (zip fs vs) \<Longrightarrow>
   list_all2 (\<lambda>f v. v \<in> set (field_values schema f)) fs vs' \<Longrightarrow> list_all (task_holds schema env) (zip fs vs') \<Longrightarrow> vs = vs'"
proof (induction fs arbitrary: vs vs')
  case (Cons f fs)
  then show ?case by (auto simp: list_all2_Cons1 dest: task_holds_unique [OF field_value_proper field_value_proper])
qed simp

lemma covered_iff:
  assumes c: "list_all2 (\<lambda>f v. v \<in> set (field_values schema f)) fs vs" "list_all (task_holds schema env) (zip fs vs)"
    and t: "list_all (condition_proper schema) (tk_conditions t)" "fst ` set (tk_conditions t) \<subseteq> set fs"
  shows "covered_by (zip fs vs) t \<longleftrightarrow> row_applies schema env t"
proof
  assume "covered_by (zip fs vs) t"
  with c(2) show "row_applies schema env t" by (auto simp: covered_by_def row_applies_def list_all_iff list_ex_iff)
next
  assume r: "row_applies schema env t"
  have "(f, v) \<in> set (zip fs vs)" if "(f, v) \<in> set (tk_conditions t)" for f v
  proof -
    from that t(2) have "f \<in> set fs" by force
    with c(1) obtain v' where v': "(f, v') \<in> set (zip fs vs)" "v' \<in> set (field_values schema f)"
      by (auto simp: list_all2_conv_all_nth in_set_conv_nth set_zip) blast
    moreover from v'(1) c(2) have "task_holds schema env (f, v')" by (auto simp: list_all_iff)
    moreover from that r t(1) have "task_holds schema env (f, v)" "condition_proper schema (f, v)"
      by (auto simp: row_applies_def list_all_iff)
    ultimately show ?thesis using task_holds_unique field_value_proper by metis
  qed
  then show "covered_by (zip fs vs) t" by (auto simp: covered_by_def list_all_iff list_ex_iff)
qed

section \<open>The fallback\<close>

text \<open>The only combination that is left holds exactly when no earlier tier applies.\<close>

lemma only_holds:
  assumes u: "usage_declared schema env" and p: "\<forall>t \<in> set ts. list_all (condition_proper schema) (tk_conditions t)"
    and cs: "condition_combinations schema (condition_fields ts) [[]] = Some cs" and only: "uncovered ts cs = [only]"
  shows "list_all (task_holds schema env) only \<longleftrightarrow> \<not> list_ex (row_applies schema env) ts"
proof -
  let ?fs = "condition_fields ts"
  let ?assigns = "\<lambda>vs. list_all2 (\<lambda>f v. v \<in> set (field_values schema f)) ?fs vs"
  from combinations_spec [OF cs] have f: "\<forall>f \<in> set ?fs. field_values schema f \<noteq> []"
    and set: "c \<in> set cs \<longleftrightarrow> (\<exists>vs. c = zip ?fs vs \<and> ?assigns vs)" for c by auto
  from usage_combination [OF u f] obtain vs where vs: "?assigns vs" "list_all (task_holds schema env) (zip ?fs vs)" by blast
  have "covered_by (zip ?fs vs) t \<longleftrightarrow> row_applies schema env t" if "t \<in> set ts" for t
    using p that by (intro covered_iff [OF vs]) (auto simp: set_condition_fields)
  then have cov: "list_ex (covered_by (zip ?fs vs)) ts \<longleftrightarrow> list_ex (row_applies schema env) ts" by (auto simp: list_ex_iff)
  have "only \<in> set (uncovered ts cs)" using only by simp
  then obtain ws where ws: "only = zip ?fs ws" "?assigns ws" by (auto simp: uncovered_def set)
  have "zip ?fs vs \<in> set cs" using vs(1) set by blast
  then have "\<not> list_ex (covered_by (zip ?fs vs)) ts \<longleftrightarrow> zip ?fs vs \<in> set (uncovered ts cs)" by (simp add: uncovered_def)
  also have "\<dots> \<longleftrightarrow> zip ?fs vs = only" by (simp only: only set_simps singleton_iff)
  also have "\<dots> \<longleftrightarrow> list_all (task_holds schema env) only"
    using combination_unique [OF vs ws(2)] vs(2) ws(1) by blast
  finally show ?thesis using cov by simp
qed

lemma find_snoc:
  "find P (xs @ [x]) = (case find P xs of Some y \<Rightarrow> Some y | None \<Rightarrow> if P x then Some x else None)"
  by (induction xs) auto

lemma find_None_ex: "find P xs = None \<longleftrightarrow> \<not> list_ex P xs"
  by (auto simp: find_None_iff list_ex_iff)

lemma name_fallback_selects:
  assumes u: "usage_declared schema env" and p: "\<forall>t \<in> set ts. list_all (condition_proper schema) (tk_conditions t)"
    and last: "ts \<noteq> []" "tk_conditions (last ts) = []"
    and t: "find (row_applies schema env) ts = Some t"
  obtains row where "find (row_applies schema env) (name_fallback (Some schema) ts) = Some row" "tk_label row = tk_label t"
    "tk_conditions (last (name_fallback (Some schema) ts)) = []
     \<or> (row_applies schema env (last (name_fallback (Some schema) ts))
         \<longleftrightarrow> \<not> list_ex (row_applies schema env) (butlast (name_fallback (Some schema) ts)))"
proof (cases "name_fallback (Some schema) ts = ts")
  case True
  with that [of t] t last show ?thesis by simp
next
  case False
  then obtain cs only where cs: "condition_combinations schema (condition_fields (butlast ts)) [[]] = Some cs"
    and only: "uncovered (butlast ts) cs = [only]"
    and n: "name_fallback (Some schema) ts = butlast ts @ [(last ts)\<lparr>tk_conditions := only\<rparr>]"
    by (auto simp: name_fallback_def Let_def split: if_splits option.splits list.splits)
  let ?row = "(last ts)\<lparr>tk_conditions := only\<rparr>"
  have iff: "row_applies schema env ?row \<longleftrightarrow> \<not> list_ex (row_applies schema env) (butlast ts)"
    using only_holds [OF u _ cs only] p by (simp add: row_applies_def in_set_butlastD)
  have ts: "ts = butlast ts @ [last ts]" using last(1) by simp
  have "row_applies schema env (last ts)" using last(2) by (simp add: row_applies_def)
  with t have "find (row_applies schema env) (butlast ts) = Some t
      \<or> find (row_applies schema env) (butlast ts) = None \<and> t = last ts"
    by (subst (asm) ts) (auto simp: find_snoc split: option.splits if_splits)
  then show ?thesis
  proof
    assume "find (row_applies schema env) (butlast ts) = Some t"
    with that [of t] iff show ?thesis by (simp add: n find_snoc)
  next
    assume "find (row_applies schema env) (butlast ts) = None \<and> t = last ts"
    with that [of ?row] iff show ?thesis by (simp add: n find_snoc find_None_ex)
  qed
qed

section \<open>The table\<close>

lemma split_cache_ok:
  "cache_ok cache \<Longrightarrow> splitBillingExprAndRequestRules cache e = (Inr s, cache') \<Longrightarrow> cache_ok cache'"
  by (auto simp: splitBillingExprAndRequestRules_def Let_def split: if_splits prod.splits dest!: partition_spec)

lemma table_rows:
  assumes "cache_ok cache" and "splitBillingExprAndRequestRules cache source = (Inr s, cache1)"
    and "compile_result (se_billingExpr s) = Ready c" and "readTaskTierChain (cb_ast c) schema True = Some tiers"
    and "source \<noteq> []" and "schema \<noteq> []" and "tiers \<noteq> []"
    and run: "getTaskPricingDisplayTiers cache (Some source) (Some schema) = (r, cache')"
  shows "r = Inr (map plain_row (name_fallback (Some schema) tiers))"
proof -
  obtain q cache2 where q: "compileBillingExpression cache1 (se_billingExpr s) = (q, cache2)" by fastforce
  with compile_cache_ok(2) [OF split_cache_ok [OF assms(1,2)] q] assms(3) have "q = Ready c" by simp
  with q assms have "parseTaskTiersFromExpr cache source (Some schema) True = (Inr tiers, cache2)"
    by (simp add: parseTaskTiersFromExpr_def)
  with run assms(7) show ?thesis by (simp add: getTaskPricingDisplayTiers_def)
qed

lemma row_applies_plain [simp]: "row_applies schema env (plain_row t) = row_applies schema env t"
  by (simp add: row_applies_def plain_row_def task_tier.defs)

lemma plain_row_simps [simp]:
  "tk_label (plain_row t) = tk_label t" "tk_conditions (plain_row t) = tk_conditions t"
  by (simp_all add: plain_row_def task_tier.defs)

lemma find_map: "find P (map f xs) = map_option f (find (\<lambda>x. P (f x)) xs)"
  by (induction xs) auto

lemma table_selects:
  assumes "cache_ok cache" and split: "splitBillingExprAndRequestRules cache source = (Inr s, cache1)"
    and "compile_result (se_billingExpr s) = Ready c" and chain: "readTaskTierChain (cb_ast c) schema True = Some tiers"
    and "source \<noteq> []" and "schema \<noteq> []" and u: "usage_declared schema env"
    and run: "evaluate env d (cb_ast c) st = Inr (v, st')"
  shows "\<exists>rows row. fst (getTaskPricingDisplayTiers cache (Some source) (Some schema)) = Inr rows
    \<and> find (row_applies schema env) rows = Some row \<and> rt_tier st' = tk_label row
    \<and> (tk_conditions (last rows) \<noteq> [] \<longrightarrow>
         (row_applies schema env (last rows) \<longleftrightarrow> \<not> list_ex (row_applies schema env) (butlast rows)))"
proof -
  let ?named = "name_fallback (Some schema) tiers"
  from chain_proper [of schema True "cb_ast c" "[]" tiers] chain
  have p: "\<forall>t \<in> set tiers. list_all (condition_proper schema) (tk_conditions t)" "tiers \<noteq> []" "tk_conditions (last tiers) = []"
    by (auto simp: readTaskTierChain_def list_all_iff)
  from task_chain_reader.chain_selects [of schema True "cb_ast c" "[]" tiers, OF _ _ run] chain u obtain t where
    t: "find (row_applies schema env) tiers = Some t" "rt_tier st' = tk_label t"
    by (auto simp: readTaskTierChain_def usage_declared_def task_chain_reader.applies_def [abs_def] row_applies_def [abs_def])
  from name_fallback_selects [OF u p t(1)] obtain row where
    row: "find (row_applies schema env) ?named = Some row" "tk_label row = tk_label t"
    "tk_conditions (last ?named) = []
      \<or> (row_applies schema env (last ?named) \<longleftrightarrow> \<not> list_ex (row_applies schema env) (butlast ?named))" .
  obtain r cache' where r: "getTaskPricingDisplayTiers cache (Some source) (Some schema) = (r, cache')" by fastforce
  from table_rows [OF assms(1-6) p(2) r] have rows: "r = Inr (map plain_row ?named)" .
  have "?named \<noteq> []" using row(1) by auto
  then have "last (map plain_row ?named) = plain_row (last ?named)"
    "butlast (map plain_row ?named) = map plain_row (butlast ?named)" by (simp_all add: last_map map_butlast)
  with row t rows r show ?thesis
    by (intro exI [of _ "map plain_row ?named"] exI [of _ "plain_row row"]) (auto simp: find_map list_ex_iff)
qed


definition two_tiers :: jstring where
  "two_tiers = js ''u(\"q\")==\"a\"?tier(\"x\",u(\"s\")*1):tier(\"y\",u(\"s\")*2)''"

definition two_schema :: usage_schema where
  "two_schema =
     [(js ''q'', \<lparr>uf_type = None, uf_unit = None, uf_enum = Some [js ''a'', js ''b'']\<rparr>),
      (js ''s'', \<lparr>uf_type = Some (js ''number''), uf_unit = Some (js ''second''), uf_enum = None\<rparr>)]"

definition second_env :: runtime_env where
  "second_env = plain_env\<lparr>env_context := (tokens_context [])\<lparr>ctx_usage :=
     Some [(js ''q'', JStr (js ''b'')), (js ''s'', JNum (Fin 4))]\<rparr>\<rparr>"

lemma two_compiled:
  "case compile_result two_tiers of
     Ready c \<Rightarrow>
       (case fst (getTaskPricingDisplayTiers [(two_tiers, Ready c)] (Some two_tiers) (Some two_schema)) of
          Inr rows \<Rightarrow> map tk_conditions rows = [[(js ''q'', js ''a'')], [(js ''q'', js ''b'')]] | Inl e \<Rightarrow> False)
       \<and> splitBillingExprAndRequestRules [(two_tiers, Ready c)] two_tiers = (Inr (unsplit two_tiers), [(two_tiers, Ready c)])
       \<and> readTaskTierChain (cb_ast c) two_schema True \<noteq> None
       \<and> \<not> isl (evaluate second_env 0 (cb_ast c) (initial_state []))
   | Failure f \<Rightarrow> False"
  by code_simp


end
