(* ===== verification/Visual_Document.thy ===== *)
theory Visual_Document
  imports Expr_Display
begin

text \<open>
  The visual editor's document of \<open>billing-expression/visual.ts\<close>: a compiled tree is read into a tree
  of conditions and prices that can be edited, and written back by patching the source text, so that
  what was not edited keeps its spelling.

  Every node keeps its origin, the syntax node it was read from.  The writers return the text and
  the issues they report.  The identity test \<open>===\<close> on origins is equality of nodes with their spans.
  Patches lie inside their origin, so offsets are not negative.
\<close>

section \<open>The document\<close>

datatype visual_condition =
    VC_comparison (vc_id: jstring) (vc_origin: "expr option") jstring jstring jstring jstring
  | VC_all (vc_id: jstring) (vc_origin: "expr option") "visual_condition list"
  | VC_any (vc_id: jstring) (vc_origin: "expr option") "visual_condition list"
  | VC_not (vc_id: jstring) (vc_origin: "expr option") visual_condition

record visual_price =
  vp_variable :: jstring
  vp_value :: jstring
  vp_origin :: "expr option"

datatype visual_pricing =
    VP_tier (vn_id: jstring) (vn_origin: "expr option") jstring "visual_price list" billing_unit jstring
  | VP_branch (vn_id: jstring) (vn_origin: "expr option") visual_condition visual_pricing visual_pricing

record visual_document =
  vd_source :: jstring
  vd_root :: visual_pricing

type_synonym visual_issue = "jstring \<times> jstring"

datatype visual_serialization = Ser_ok jstring | Ser_issues "visual_issue list"

definition COMPARISONS :: "jstring list" where
  "COMPARISONS = map js [''<'', ''<='', ''>'', ''>='', ''=='', ''!='']"

definition TIME_DOMAINS :: "(jstring \<times> rat \<times> rat) list" where
  "TIME_DOMAINS = map (apfst js)
     [(''hour'', 0, 23), (''minute'', 0, 59), (''weekday'', 0, 6), (''month'', 1, 12), (''day'', 1, 31)]"

text \<open>The counter of the module gives fresh identifiers.\<close>

definition visualNodeId :: "nat \<Rightarrow> jstring \<times> nat" where
  "visualNodeId nextId = (js ''draft-'' @ digits_of (nextId + 1), nextId + 1)"

definition createEmptyVisualCondition :: "nat \<Rightarrow> visual_condition \<times> nat" where
  "createEmptyVisualCondition nextId =
     (case visualNodeId nextId of (i, n) \<Rightarrow>
        (VC_comparison i None (js ''hour'') (js ''Asia/Shanghai'') (js ''>='') [], n))"

section \<open>Reading\<close>

definition span_id :: "string \<Rightarrow> expr \<Rightarrow> jstring" where
  "span_id kind node = js kind @ digits_of (e_start node) @ js ''-'' @ digits_of (e_end node)"

text \<open>The probe of a comparison: a count, or a time function with its zone.\<close>

fun read_probe :: "expr \<Rightarrow> (jstring \<times> jstring) option" where
  "read_probe (Variable x a b) = (if x \<in> set condition_variables then Some (x, []) else None)"
| "read_probe (Call f (Literal (LStr z) i a b # rest) a' b') =
     (if f \<in> set TIME_FUNCTIONS then Some (f, z) else None)"
| "read_probe _ = None"

fun read_comparison :: "expr \<Rightarrow> visual_condition option" where
  "read_comparison (Binary f l (Literal (LNum x) i a b) a' b') =
     (if f \<notin> set COMPARISONS then None
      else case read_probe l of
             None \<Rightarrow> None
           | Some (probe, timezone) \<Rightarrow>
               let node = Binary f l (Literal (LNum x) i a b) a' b'
               in Some (VC_comparison (span_id ''condition-'' node) (Some node) probe timezone f (num_to_string x)))"
| "read_comparison _ = None"

lemma map_opt_cong [fundef_cong]:
  "xs = ys \<Longrightarrow> (\<And>x. x \<in> set ys \<Longrightarrow> f x = g x) \<Longrightarrow> map_opt f xs = map_opt g ys"
  by (induction ys arbitrary: xs) (auto split: option.splits)

lemma flatten_smaller: "x \<in> set (flattenBinary e f) \<Longrightarrow> size x \<le> size e"
  by (induction e) (auto split: if_splits)

fun is_junction :: "expr \<Rightarrow> bool" where
  "is_junction (Binary f l r a b) = (f = js ''&&'' \<or> f = js ''||'')"
| "is_junction _ = False"

fun operator_of :: "expr \<Rightarrow> jstring" where
  "operator_of (Binary f l r a b) = f"
| "operator_of _ = []"

lemma junction_smaller:
  "is_junction e \<Longrightarrow> x \<in> set (flattenBinary e (operator_of e)) \<Longrightarrow> size x < size e"
  by (cases e) (auto dest!: flatten_smaller)

fun negated :: "expr \<Rightarrow> expr option" where
  "negated (Unary f x a b) = (if f = js ''!'' then Some x else None)"
| "negated _ = None"

lemma negated_smaller: "negated e = Some x \<Longrightarrow> size x < size e"
  by (cases e) (auto split: if_splits)

function readVisualCondition :: "expr \<Rightarrow> visual_condition option" where
  "readVisualCondition node =
     (case negated node of
        Some operand \<Rightarrow>
          map_option (VC_not (span_id ''condition-'' node) (Some node)) (readVisualCondition operand)
      | None \<Rightarrow>
          if is_junction node
          then map_option
                 ((if operator_of node = js ''&&'' then VC_all else VC_any) (span_id ''condition-'' node) (Some node))
                 (map_opt readVisualCondition (flattenBinary node (operator_of node)))
          else read_comparison node)"
  by pat_completeness auto
termination
  by (relation "measure size") (auto dest: junction_smaller negated_smaller)

declare readVisualCondition.simps [simp del]

fun read_price :: "expr \<Rightarrow> visual_price option" where
  "read_price (Binary f (Variable x a b) (Literal (LNum v) i a' b') a'' b'') =
     (if f \<noteq> js ''*'' \<or> x = js ''len'' \<or> x = js ''image_count'' \<or> js_lt v (Fin 0) then None
      else Some \<lparr>vp_variable = x, vp_value = num_to_string v,
                 vp_origin = Some (Binary f (Variable x a b) (Literal (LNum v) i a' b') a'' b'')\<rparr>)"
| "read_price _ = None"

fun read_prices :: "expr list \<Rightarrow> visual_price list \<Rightarrow> visual_price list option" where
  "read_prices [] prices = Some prices"
| "read_prices (t # ts) prices =
     (case read_price t of
        None \<Rightarrow> None
      | Some p \<Rightarrow>
          if vp_variable p \<in> vp_variable ` set prices then None else read_prices ts (prices @ [p]))"

fun literal_text :: "lit_value \<Rightarrow> jstring" where
  "literal_text (LStr s) = s"
| "literal_text (LNum x) = num_to_string x"
| "literal_text (LBool b) = boolean_text b"
| "literal_text LNull = js ''null''"

fun fixed_literal :: "expr \<Rightarrow> expr option" where
  "fixed_literal (Call f (Literal v i a b # rest) a' b') =
     (if f = js ''fixed'' then Some (Literal v i a b) else None)"
| "fixed_literal _ = None"

fun fixed_text :: "expr \<Rightarrow> jstring option" where
  "fixed_text (Call f (Literal v i a b # rest) a' b') =
     (if f = js ''fixed'' then Some (literal_text v) else None)"
| "fixed_text _ = None"

fun readVisualPricing :: "expr \<Rightarrow> visual_pricing option" where
  "readVisualPricing (Conditional c x y a b) =
     (case (readVisualCondition c, readVisualPricing x, readVisualPricing y) of
        (Some condition, Some yes, Some no) \<Rightarrow>
          let node = Conditional c x y a b
          in Some (VP_branch (span_id ''pricing-'' node) (Some node) condition yes no)
      | _ \<Rightarrow> None)"
| "readVisualPricing (Call f (Literal (LStr l) i a b # body # rest) a' b') =
     (let node = Call f (Literal (LStr l) i a b # body # rest) a' b'
      in if f \<noteq> js ''tier'' then None
         else case fixed_text body of
                Some t \<Rightarrow> Some (VP_tier (span_id ''pricing-'' node) (Some node) l [] Unit_request t)
              | None \<Rightarrow>
                  map_option (\<lambda>prices. VP_tier (span_id ''pricing-'' node) (Some node) l prices Unit_token [])
                    (read_prices (flattenBinary body (js ''+'')) []))"
| "readVisualPricing _ = None"

section \<open>Writing\<close>

record source_patch =
  sp_node :: expr
  sp_text :: jstring

definition apply_patch :: "expr \<Rightarrow> source_patch \<Rightarrow> jstring \<Rightarrow> jstring" where
  "apply_patch origin patch result =
     take (e_start (sp_node patch) - e_start origin) result @ sp_text patch
     @ drop (e_end (sp_node patch) - e_start origin) result"

definition patchSource :: "jstring \<Rightarrow> expr \<Rightarrow> source_patch list \<Rightarrow> jstring" where
  "patchSource source origin patches =
     fold (apply_patch origin) (sort_key (\<lambda>p. - int (e_start (sp_node p))) patches)
       (slice (e_start origin) (e_end origin) source)"

abbreviation patch :: "expr \<Rightarrow> jstring \<Rightarrow> source_patch" where
  "patch n t \<equiv> \<lparr>sp_node = n, sp_text = t\<rparr>"

definition node_text :: "jstring \<Rightarrow> expr \<Rightarrow> jstring" where
  "node_text source node = slice (e_start node) (e_end node) source"

definition parseNonNegativeNumber :: "jstring \<Rightarrow> jsnum option" where
  "parseNonNegativeNumber val =
     (if match_number (trim val) \<noteq> Some (length (trim val)) then None
      else let x = js_Number val in if is_finite x \<and> js_le (Fin 0) x then Some x else None)"

text \<open>\<open>value === node.value\<close> for a number or \<open>null\<close> and a literal.\<close>

definition value_is :: "jsnum option \<Rightarrow> lit_value \<Rightarrow> bool" where
  "value_is v l =
     (case (v, l) of
        (Some x, LNum y) \<Rightarrow> js_eq x y
      | (None, LNull) \<Rightarrow> True
      | _ \<Rightarrow> False)"

definition value_valid :: "jstring \<Rightarrow> jstring \<Rightarrow> jsnum option \<Rightarrow> bool" where
  "value_valid probe operator v =
     (case v of
        None \<Rightarrow> False
      | Some x \<Rightarrow>
          (case map_of TIME_DOMAINS probe of
             Some (lo, hi) \<Rightarrow>
               is_integer x \<and> js_le (Fin lo) x
               \<and> js_le x (Fin (if operator = js ''<'' then hi + 1 else hi))
           | None \<Rightarrow> True))"

text \<open>The zone of the original probe, if it is a literal.\<close>

fun original_zone :: "expr option \<Rightarrow> lit_value option" where
  "original_zone (Some (Binary f (Call g (Literal z i a b # rest) a' b') r a'' b'')) = Some z"
| "original_zone _ = None"

definition zone_valid :: "host \<Rightarrow> jstring \<Rightarrow> bool" where
  "zone_valid h timezone = (trim timezone \<noteq> [] \<and> host_zone h (trim timezone) \<noteq> None)"

definition comparison_issues ::
  "host \<Rightarrow> jstring \<Rightarrow> expr option \<Rightarrow> jstring \<Rightarrow> jstring \<Rightarrow> jstring \<Rightarrow> jstring \<Rightarrow> visual_issue list" where
  "comparison_issues h i origin probe timezone operator val =
     (if value_valid probe operator (parseNonNegativeNumber val) then []
      else [(i, js ''Enter a valid condition value.'')])
     @ (if probe \<in> set TIME_FUNCTIONS \<and> original_zone origin \<noteq> Some (LStr timezone) \<and> \<not> zone_valid h timezone
        then [(i, js ''Choose a valid IANA timezone.'')] else [])"

text \<open>The text of the probe: the old spelling when it still says the same.\<close>

fun kept_probe :: "jstring \<Rightarrow> expr \<Rightarrow> jstring \<Rightarrow> jstring \<Rightarrow> jstring \<Rightarrow> jstring" where
  "kept_probe source (Variable x a b) probe timezone new =
     (if x = probe then slice a b source else new)"
| "kept_probe source (Call f (Literal z i a b # rest) a' b') probe timezone new =
     (if f = probe \<and> z = LStr timezone then slice a' b' source else new)"
| "kept_probe source _ probe timezone new = new"

fun kept_value :: "jstring \<Rightarrow> expr \<Rightarrow> jsnum option \<Rightarrow> jstring \<Rightarrow> jstring" where
  "kept_value source (Literal l i a b) v new = (if value_is v l then slice a b source else new)"
| "kept_value source _ v new = new"

definition write_comparison ::
  "jstring \<Rightarrow> expr option \<Rightarrow> jstring \<Rightarrow> jstring \<Rightarrow> jstring \<Rightarrow> jstring \<Rightarrow> jstring" where
  "write_comparison source origin probe timezone operator val =
     (let new = (if probe \<in> set TIME_FUNCTIONS then probe @ js ''('' @ json_quote timezone @ js '')'' else probe);
          plain = js ''('' @ new @ js '' '' @ operator @ js '' '' @ val @ js '')''
      in case origin of
           Some (Binary f l r a b) \<Rightarrow>
             if f = operator
             then patchSource source (Binary f l r a b)
                    [patch l (kept_probe source l probe timezone new),
                     patch r (kept_value source r (parseNonNegativeNumber val) val)]
             else plain
         | _ \<Rightarrow> plain)"

definition same_origins :: "expr list \<Rightarrow> expr option list \<Rightarrow> bool" where
  "same_origins original origins = (map Some original = origins)"

definition write_group ::
  "jstring \<Rightarrow> expr option \<Rightarrow> jstring \<Rightarrow> expr option list \<Rightarrow> jstring list \<Rightarrow> jstring" where
  "write_group source origin operator origins kids =
     (let plain = js ''('' @ join (js '' '' @ operator @ js '' '') (map (\<lambda>c. js ''('' @ c @ js '')'') kids) @ js '')''
      in case origin of
           Some (Binary f l r a b) \<Rightarrow>
             let original = flattenBinary (Binary f l r a b) operator
             in if f = operator \<and> same_origins original origins
                then patchSource source (Binary f l r a b) (map2 patch original kids)
                else plain
         | _ \<Rightarrow> plain)"

definition write_not :: "jstring \<Rightarrow> expr option \<Rightarrow> expr option \<Rightarrow> jstring \<Rightarrow> jstring" where
  "write_not source origin child_origin child =
     (case origin of
        Some (Unary f x a b) \<Rightarrow>
          if child_origin = Some x then patchSource source (Unary f x a b) [patch x child]
          else js ''!('' @ child @ js '')''
      | _ \<Rightarrow> js ''!('' @ child @ js '')'')"

definition empty_group_issue :: "jstring \<Rightarrow> 'a list \<Rightarrow> visual_issue list" where
  "empty_group_issue i kids =
     (if kids = [] then [(i, js ''Add at least one condition to this group.'')] else [])"

fun writeVisualCondition :: "host \<Rightarrow> jstring \<Rightarrow> visual_condition \<Rightarrow> jstring \<times> visual_issue list" where
  "writeVisualCondition h source (VC_not i origin child) =
     (case writeVisualCondition h source child of (t, issues) \<Rightarrow>
        (write_not source origin (vc_origin child) t, issues))"
| "writeVisualCondition h source (VC_all i origin kids) =
     (let rs = map (writeVisualCondition h source) kids
      in (write_group source origin (js ''&&'') (map vc_origin kids) (map fst rs),
          empty_group_issue i kids @ concat (map snd rs)))"
| "writeVisualCondition h source (VC_any i origin kids) =
     (let rs = map (writeVisualCondition h source) kids
      in (write_group source origin (js ''||'') (map vc_origin kids) (map fst rs),
          empty_group_issue i kids @ concat (map snd rs)))"
| "writeVisualCondition h source (VC_comparison i origin probe timezone operator val) =
     (write_comparison source origin probe timezone operator val,
      comparison_issues h i origin probe timezone operator val)"

definition visualConditionExpression :: "host \<Rightarrow> visual_condition \<Rightarrow> jstring \<Rightarrow> jstring option" where
  "visualConditionExpression h node source =
     (case writeVisualCondition h source node of (t, issues) \<Rightarrow> if issues = [] then Some t else None)"

fun kept_label :: "jstring \<Rightarrow> expr \<Rightarrow> jstring \<Rightarrow> jstring" where
  "kept_label source (Literal l i a b) label =
     (if l = LStr label then slice a b source else json_quote label)"
| "kept_label source _ label = json_quote label"

definition price_message :: jstring where
  "price_message = js ''Enter a finite, non-negative price.''"

definition fixed_issues :: "jstring \<Rightarrow> jstring \<Rightarrow> visual_issue list" where
  "fixed_issues i fixedPrice =
     (case parseNonNegativeNumber fixedPrice of
        Some x \<Rightarrow> if is_finite (js_mul x (Fin 1000000)) then [] else [(i @ js '':fixed'', price_message)]
      | None \<Rightarrow> [(i @ js '':fixed'', price_message)])"

definition fixed_price_text :: "jstring \<Rightarrow> expr \<Rightarrow> jstring \<Rightarrow> jstring" where
  "fixed_price_text source price fixedPrice =
     (case fixed_literal price of
        Some amount \<Rightarrow>
          patchSource source price
            [patch amount (kept_value source amount (parseNonNegativeNumber fixedPrice) fixedPrice)]
      | None \<Rightarrow> js ''fixed('' @ fixedPrice @ js '')'')"

definition write_fixed_tier :: "jstring \<Rightarrow> expr option \<Rightarrow> jstring \<Rightarrow> jstring \<Rightarrow> jstring" where
  "write_fixed_tier source origin label fixedPrice =
     (let plain = js ''tier('' @ json_quote label @ js '', fixed('' @ fixedPrice @ js ''))''
      in case origin of
           Some (Call f (l # price # rest) a b) \<Rightarrow>
             if f = js ''tier''
             then patchSource source (Call f (l # price # rest) a b)
                    [patch l (kept_label source l label), patch price (fixed_price_text source price fixedPrice)]
             else plain
         | _ \<Rightarrow> plain)"

text \<open>The term of a price, and the patch of its value when it has an original.\<close>

definition price_patch :: "jstring \<Rightarrow> visual_price \<Rightarrow> (expr \<times> source_patch) option" where
  "price_patch source price =
     (case vp_origin price of
        Some (Binary f l (Literal v i a b) a' b') \<Rightarrow>
          Some (Binary f l (Literal v i a b) a' b',
                patch (Literal v i a b)
                  (kept_value source (Literal v i a b) (parseNonNegativeNumber (vp_value price)) (vp_value price)))
      | _ \<Rightarrow> None)"

definition price_issues :: "jstring \<Rightarrow> visual_price \<Rightarrow> visual_issue list" where
  "price_issues i price =
     (if parseNonNegativeNumber (vp_value price) = None
      then [(i @ js '':'' @ vp_variable price, price_message)] else [])"

definition write_term :: "jstring \<Rightarrow> visual_price \<Rightarrow> jstring" where
  "write_term source price =
     (case price_patch source price of
        Some (origin, p) \<Rightarrow> patchSource source origin [p]
      | None \<Rightarrow> vp_variable price @ js '' * '' @ vp_value price)"

definition write_token_tier :: "jstring \<Rightarrow> expr option \<Rightarrow> jstring \<Rightarrow> visual_price list \<Rightarrow> jstring" where
  "write_token_tier source origin label prices =
     (let terms = join (js '' + '') (map (write_term source) prices);
          plain = js ''tier('' @ json_quote label @ js '', '' @ terms @ js '')''
      in case origin of
           Some (Call f (l # body # rest) a b) \<Rightarrow>
             if f \<noteq> js ''tier'' then plain
             else if same_origins (flattenBinary body (js ''+'')) (map vp_origin prices)
             then patchSource source (Call f (l # body # rest) a b)
                    (patch l (kept_label source l label) # map snd (List.map_filter (price_patch source) prices))
             else patchSource source (Call f (l # body # rest) a b)
                    [patch l (kept_label source l label), patch body terms]
         | _ \<Rightarrow> plain)"

fun writeVisualPricing :: "host \<Rightarrow> jstring \<Rightarrow> visual_pricing \<Rightarrow> jstring \<times> visual_issue list" where
  "writeVisualPricing h source (VP_branch i origin condition yes no) =
     (case writeVisualCondition h source condition of (c, is1) \<Rightarrow>
      case writeVisualPricing h source yes of (x, is2) \<Rightarrow>
      case writeVisualPricing h source no of (y, is3) \<Rightarrow>
        (case origin of
           Some (Conditional c0 x0 y0 a b) \<Rightarrow>
             patchSource source (Conditional c0 x0 y0 a b) [patch c0 c, patch x0 x, patch y0 y]
         | _ \<Rightarrow> js ''('' @ c @ js '') ? ('' @ x @ js '') : ('' @ y @ js '')'',
         is1 @ is2 @ is3))"
| "writeVisualPricing h source (VP_tier i origin label prices unit fixedPrice) =
     (case unit of
        Unit_request \<Rightarrow> (write_fixed_tier source origin label fixedPrice, fixed_issues i fixedPrice)
      | Unit_token \<Rightarrow>
          (write_token_tier source origin label prices,
           (if prices = [] then [(i, js ''Include at least one price variable.'')] else [])
           @ concat (map (price_issues i) prices)))"

section \<open>Serialising and parsing\<close>

definition serializeVisualBillingDocument ::
  "host \<Rightarrow> compiled_cache \<Rightarrow> visual_document \<Rightarrow> visual_serialization \<times> compiled_cache" where
  "serializeVisualBillingDocument h cache document =
     (case writeVisualPricing h (vd_source document) (vd_root document) of (body, issues) \<Rightarrow>
        if issues \<noteq> [] then (Ser_issues issues, cache)
        else (case compileBillingExpression cache (vd_source document) of
               (Failure f, cache1) \<Rightarrow>
                 (Ser_issues [(vn_id (vd_root document),
                    js ''This expression cannot be edited visually without losing information.'')], cache1)
             | (Ready original, cache1) \<Rightarrow>
                 let source = take (e_start (cb_ast original)) (vd_source document) @ body
                              @ drop (e_end (cb_ast original)) (vd_source document)
                 in (case compileBillingExpression cache1 source of
                       (Failure f, cache2) \<Rightarrow>
                         (Ser_issues [(vn_id (vd_root document), js ''Enter a valid condition value.'')], cache2)
                     | (Ready c, cache2) \<Rightarrow> (Ser_ok source, cache2))))"

definition parseVisualBillingDocument ::
  "host \<Rightarrow> compiled_cache \<Rightarrow> jstring \<Rightarrow> visual_document option \<times> compiled_cache" where
  "parseVisualBillingDocument h cache source =
     (case compileBillingExpression cache source of
        (Failure f, cache1) \<Rightarrow> (None, cache1)
      | (Ready compiled, cache1) \<Rightarrow>
          (case readVisualPricing (cb_ast compiled) of
             None \<Rightarrow> (None, cache1)
           | Some tree \<Rightarrow>
               let document = \<lparr>vd_source = source, vd_root = tree\<rparr>
               in (case serializeVisualBillingDocument h cache1 document of
                     (Ser_ok s, cache2) \<Rightarrow> (Some document, cache2)
                   | (Ser_issues issues, cache2) \<Rightarrow> (None, cache2))))"

end
