(* ===== verification/Visual_Correct.thy ===== *)
theory Visual_Correct
  imports Visual_Document Runtime_Types "HOL-Library.Multiset"
begin

text \<open>
  Correctness of the visual editor's document: patching replaces the spans of the patched nodes and
  keeps the rest, and a document that was not edited is written back as its source, byte for byte.
\<close>

section \<open>Patching\<close>

definition inside :: "expr \<Rightarrow> expr \<Rightarrow> bool" where
  "inside origin n \<longleftrightarrow> e_start origin \<le> e_start n \<and> e_start n \<le> e_end n \<and> e_end n \<le> e_end origin"

lemma apply_patch_same:
  assumes "inside origin n" and "e_end origin \<le> length source"
  shows "apply_patch origin (patch n (node_text source n)) (node_text source origin) = node_text source origin"
proof -
  have "node_text source origin =
      slice (e_start origin) (e_start n) source @ slice (e_start n) (e_end n) source @ slice (e_end n) (e_end origin) source"
    using assms by (simp add: node_text_def inside_def slice_append_slice)
  moreover have "take (e_start n - e_start origin) (node_text source origin) = slice (e_start origin) (e_start n) source"
    using assms by (simp add: node_text_def inside_def take_slice min_absorb2)
  moreover have "drop (e_end n - e_start origin) (node_text source origin) = slice (e_end n) (e_end origin) source"
    using assms by (simp add: node_text_def inside_def drop_slice)
  ultimately show ?thesis by (simp add: apply_patch_def node_text_def)
qed

lemma patchSource_same:
  assumes "\<forall>p \<in> set ps. inside origin (sp_node p) \<and> sp_text p = node_text source (sp_node p)"
    and "e_end origin \<le> length source"
  shows "patchSource source origin ps = node_text source origin"
proof -
  have "fold (apply_patch origin) qs (node_text source origin) = node_text source origin"
    if "set qs \<subseteq> set ps" for qs
    using that
  proof (induction qs)
    case (Cons q qs)
    then have "q = patch (sp_node q) (node_text source (sp_node q))" "inside origin (sp_node q)"
      using assms(1) by (auto intro: source_patch.equality)
    with apply_patch_same [OF _ assms(2)] Cons show ?case by (metis fold_simps(2) set_subset_Cons subset_trans)
  qed simp
  then show ?thesis by (simp add: patchSource_def node_text_def)
qed

text \<open>The text with the spans of the patched nodes replaced, from a position on.\<close>

fun splice_text :: "jstring \<Rightarrow> nat \<Rightarrow> source_patch list \<Rightarrow> nat \<Rightarrow> jstring" where
  "splice_text source pos [] hi = slice pos hi source"
| "splice_text source pos (p # ps) hi =
     slice pos (e_start (sp_node p)) source @ sp_text p @ splice_text source (e_end (sp_node p)) ps hi"

lemma ordered_within_le: "ordered_within lo es hi \<Longrightarrow> list_all (\<lambda>e. e_start e \<le> e_end e) es \<Longrightarrow> lo \<le> hi"
  by (induction es arbitrary: lo) fastforce+

lemma foldr_patches:
  assumes "e_end origin \<le> length source"
  shows "ordered_within lo (map sp_node ps) (e_end origin) \<Longrightarrow> e_start origin \<le> lo \<Longrightarrow>
    list_all (\<lambda>e. e_start e \<le> e_end e) (map sp_node ps) \<Longrightarrow>
    foldr (apply_patch origin) ps (slice (e_start origin) (e_end origin) source)
      = slice (e_start origin) lo source @ splice_text source lo ps (e_end origin)"
proof (induction ps arbitrary: lo)
  case Nil
  then show ?case by (simp add: slice_append_slice)
next
  case (Cons p ps)
  let ?a = "e_start origin" let ?s = "e_start (sp_node p)" let ?e = "e_end (sp_node p)"
  have le: "lo \<le> ?s" "?s \<le> ?e" "?e \<le> e_end origin" "?a \<le> lo"
    using Cons.prems ordered_within_le [of ?e "map sp_node ps" "e_end origin"] by auto
  have el: "?e \<le> length source" using le assms by linarith
  define X where "X = slice ?a ?e source"
  have X: "length X = ?e - ?a" "take (?s - ?a) X = slice ?a lo source @ slice lo ?s source"
    using le el by (simp_all add: X_def take_slice min_absorb1 min_absorb2 slice_append_slice)
  have "foldr (apply_patch origin) ps (slice ?a (e_end origin) source) = X @ splice_text source ?e ps (e_end origin)"
    unfolding X_def using Cons.prems le by (intro Cons.IH) auto
  with X le show ?case by (simp add: apply_patch_def [of origin p])
qed

lemma sort_patches:
  assumes "sorted_wrt (<) (map (\<lambda>p. e_start (sp_node p)) ps)"
  shows "sort_key (\<lambda>p. - int (e_start (sp_node p))) ps = rev ps"
proof (rule sort_key_inj_key_eq)
  have "distinct (map (\<lambda>p. e_start (sp_node p)) ps)"
    using assms strict_sorted_iff by blast
  then show "inj_on (\<lambda>p. - int (e_start (sp_node p))) (set ps)"
    by (auto simp: distinct_map inj_on_def)
  show "sorted (map (\<lambda>p. - int (e_start (sp_node p))) (rev ps))"
    using assms by (auto simp: sorted_wrt_map sorted_wrt_rev elim: sorted_wrt_mono_rel [rotated])
qed simp

lemma ordered_starts:
  "ordered_within lo (map sp_node ps) hi \<Longrightarrow> list_all (\<lambda>p. e_start (sp_node p) < e_end (sp_node p)) ps \<Longrightarrow>
   sorted_wrt (<) (map (\<lambda>p. e_start (sp_node p)) ps) \<and> (\<forall>p \<in> set ps. lo \<le> e_start (sp_node p))"
  by (induction ps arbitrary: lo) (fastforce simp: list_all_iff)+

text \<open>
  C31. Patching replaces exactly the patched nodes: with patches for nodes in source order inside the
  origin, the result is the text of the origin with each node's span replaced by its new text and
  every character outside of them kept.
\<close>

theorem patchSource_splices:
  assumes "ordered_within (e_start origin) (map sp_node ps) (e_end origin)"
    and "list_all (\<lambda>p. e_start (sp_node p) < e_end (sp_node p)) ps" and "e_end origin \<le> length source"
  shows "patchSource source origin ps = splice_text source (e_start origin) ps (e_end origin)"
proof -
  have "list_all (\<lambda>e. e_start e \<le> e_end e) (map sp_node ps)"
    using assms(2) by (auto simp: list_all_iff less_imp_le)
  from foldr_patches [OF assms(3) assms(1) order_refl this]
    sort_patches [OF ordered_starts [OF assms(1,2), THEN conjunct1]]
  show ?thesis by (simp add: patchSource_def foldr_conv_fold)
qed

theorem patchSource_splices_witness:
  "let e = projr (parse (js ''p*2+c*4''));
       ps = (case e of Binary f (Binary g x l a' b') r a b \<Rightarrow> [patch l (js ''30''), patch r (js ''c * 5'')])
   in patchSource (js ''p*2+c*4'') e ps = js ''p*30+c * 5''"
proof -
  let ?e = "projr (parse (js ''p*2+c*4''))"
  let ?ps = "case ?e of Binary f (Binary g x l a' b') r a b \<Rightarrow> [patch l (js ''30''), patch r (js ''c * 5'')]"
  have "ordered_within (e_start ?e) (map sp_node ?ps) (e_end ?e)
    \<and> list_all (\<lambda>p. e_start (sp_node p) < e_end (sp_node p)) ?ps \<and> e_end ?e \<le> length (js ''p*2+c*4'')"
    by code_simp
  then have "patchSource (js ''p*2+c*4'') ?e ?ps = splice_text (js ''p*2+c*4'') (e_start ?e) ?ps (e_end ?e)"
    by (intro patchSource_splices) simp_all
  also have "\<dots> = js ''p*30+c * 5''" by code_simp
  finally show ?thesis by (simp add: Let_def)
qed

section \<open>An unedited document\<close>

text \<open>The number of a literal, written by \<open>String\<close>, is read back as the same number.\<close>

definition reads_back :: "jsnum \<Rightarrow> bool" where
  "reads_back x = value_is (parseNonNegativeNumber (num_to_string x)) (LNum x)"

definition numbers_read_back :: "expr \<Rightarrow> bool" where
  "numbers_read_back e =
     list_all (\<lambda>n. case n of Literal (LNum x) i a b \<Rightarrow> reads_back x | _ \<Rightarrow> True) (subnodes e)"

lemma numbers_read_back_simps [simp]:
  "numbers_read_back (Literal v i a b) \<longleftrightarrow> (case v of LNum x \<Rightarrow> reads_back x | _ \<Rightarrow> True)"
  "numbers_read_back (Variable name a b)"
  "numbers_read_back (Unary f x a b) \<longleftrightarrow> numbers_read_back x"
  "numbers_read_back (Binary f x y a b) \<longleftrightarrow> numbers_read_back x \<and> numbers_read_back y"
  "numbers_read_back (Conditional x y z a b) \<longleftrightarrow> numbers_read_back x \<and> numbers_read_back y \<and> numbers_read_back z"
  "numbers_read_back (Call f es a b) \<longleftrightarrow> list_all numbers_read_back es"
  by (auto simp: numbers_read_back_def list_all_iff split: lit_value.splits)

text \<open>The nodes a writer may see: inside the source, with numbers that read back.\<close>

definition readable :: "jstring \<Rightarrow> expr \<Rightarrow> bool" where
  "readable source e \<longleftrightarrow> spans_ok e \<and> e_end e \<le> length source \<and> numbers_read_back e \<and> fixed_calls_ok e"

lemma subnode_inside: "spans_ok e \<Longrightarrow> x \<in> set (subnodes e) \<Longrightarrow> inside e x"
  using subnode_within [of e x] spans_ok_nonempty [of x] by (auto simp: inside_def)

lemma readable_subnode:
  assumes "readable source e" and "x \<in> set (subnodes e)"
  shows "readable source x" and "inside e x"
proof -
  show "inside e x" using assms subnode_inside by (simp add: readable_def)
  have "set (subnodes x) \<subseteq> set (subnodes e)"
    using subnodes_trans [OF assms(2)] by blast
  then show "readable source x"
    using assms subnode_within [of e x]
    by (auto simp: readable_def numbers_read_back_def fixed_calls_ok_def list_all_iff)
qed

lemma flatten_subnodes: "set (flattenBinary e f) \<subseteq> set (subnodes e)"
  by (induction e f rule: flattenBinary.induct) auto

lemma readable_children:
  "readable source (Unary f x a b) \<Longrightarrow> readable source x \<and> inside (Unary f x a b) x"
  "readable source (Binary f l r a b) \<Longrightarrow> readable source l \<and> inside (Binary f l r a b) l
     \<and> readable source r \<and> inside (Binary f l r a b) r"
  "readable source (Conditional c x y a b) \<Longrightarrow> readable source c \<and> inside (Conditional c x y a b) c
     \<and> readable source x \<and> inside (Conditional c x y a b) x
     \<and> readable source y \<and> inside (Conditional c x y a b) y"
  by (auto dest: readable_subnode [where x = x] readable_subnode [where x = l] readable_subnode [where x = r]
      readable_subnode [where x = c] readable_subnode [where x = y])

lemma readable_argument:
  assumes "readable source (Call f es a b)" and "x \<in> set es"
  shows "readable source x \<and> inside (Call f es a b) x"
proof -
  have "x \<in> set (subnodes (Call f es a b))" 
    using assms(2) self_in_subnodes [of x] by (auto simp del: self_in_subnodes)
  with assms(1) show ?thesis using readable_subnode by blast
qed

lemma readable_patch:
  "readable source e \<Longrightarrow> \<forall>p \<in> set ps. inside e (sp_node p) \<and> sp_text p = node_text source (sp_node p) \<Longrightarrow>
   patchSource source e ps = node_text source e"
  by (rule patchSource_same) (auto simp: readable_def)

lemma write_read_comparison:
  assumes "read_comparison e = Some v" and "readable source e"
  shows "vc_origin v = Some e \<and> fst (writeVisualCondition h source v) = node_text source e"
proof (cases e rule: read_comparison.cases)
  case (1 f l x i a b a' b')
  with assms(1) obtain probe timezone where p: "read_probe l = Some (probe, timezone)"
    and v: "v = VC_comparison (span_id ''condition-'' e) (Some e) probe timezone f (num_to_string x)"
    by (auto split: if_splits option.splits simp: Let_def)
  note kids = readable_children(2) [OF assms(2) [unfolded 1]]
  have "kept_probe source l probe timezone new = node_text source l" for new
    using p by (cases l rule: read_probe.cases) (auto simp: node_text_def split: if_splits)
  moreover have "kept_value source (Literal (LNum x) i a b) (parseNonNegativeNumber (num_to_string x)) new
      = node_text source (Literal (LNum x) i a b)" for new
    using kids by (simp add: node_text_def readable_def reads_back_def)
  ultimately have "patchSource source e [patch l (kept_probe source l probe timezone new),
      patch (Literal (LNum x) i a b) (kept_value source (Literal (LNum x) i a b)
        (parseNonNegativeNumber (num_to_string x)) (num_to_string x))] = node_text source e" for new
    using kids by (intro readable_patch [OF assms(2)]) (auto simp: 1)
  then show ?thesis by (simp add: v write_comparison_def 1 Let_def)
qed (use assms(1) in simp_all)

lemma map_opt_Some: "map_opt f xs = Some ys \<longleftrightarrow> list_all2 (\<lambda>x y. f x = Some y) xs ys"
  by (induction xs arbitrary: ys) (auto simp: list_all2_Cons1 split: option.splits)

lemma write_group_same:
  assumes e: "readable source e" "is_junction e"
    and origins: "origins = map Some (flattenBinary e (operator_of e))"
    and texts: "texts = map (node_text source) (flattenBinary e (operator_of e))"
  shows "write_group source (Some e) (operator_of e) origins texts = node_text source e"
proof -
  have zip: "map2 patch xs (map (node_text source) xs) = map (\<lambda>x. patch x (node_text source x)) xs" for xs
    by (induction xs) auto
  have "patchSource source e (map2 patch (flattenBinary e (operator_of e)) texts) = node_text source e"
    using flatten_subnodes [of e "operator_of e"] readable_subnode [OF e(1)]
    by (intro readable_patch [OF e(1)]) (auto simp: texts zip)
  with e(2) show ?thesis
    by (cases e) (auto simp: write_group_def same_origins_def origins Let_def simp del: flattenBinary.simps)
qed

lemma write_read_condition:
  "readVisualCondition e = Some v \<Longrightarrow> readable source e \<Longrightarrow>
   vc_origin v = Some e \<and> fst (writeVisualCondition h source v) = node_text source e"
proof (induction e arbitrary: v rule: readVisualCondition.induct)
  case (1 e)
  show ?case
  proof (cases "negated e")
    case (Some x)
    then obtain f a b where e: "e = Unary f x a b" by (cases e) (auto split: if_splits)
    from Some "1.prems"(1) obtain w where w: "readVisualCondition x = Some w"
      and v: "v = VC_not (span_id ''condition-'' e) (Some e) w"
      by (auto simp: readVisualCondition.simps [of e])
    note kids = readable_children(1) [OF "1.prems"(2) [unfolded e]]
    from "1.IH"(2) [OF Some w] kids have "vc_origin w = Some x" "fst (writeVisualCondition h source w) = node_text source x"
      by auto
    moreover have "patchSource source e [patch x (node_text source x)] = node_text source e"
      using kids by (intro readable_patch "1.prems"(2)) (simp add: e)
    ultimately show ?thesis
      by (simp add: v write_not_def e case_prod_unfold)
  next
    case None
    show ?thesis
    proof (cases "is_junction e")
      case True
      let ?xs = "flattenBinary e (operator_of e)"
      from None True "1.prems"(1) obtain ws where ws: "map_opt readVisualCondition ?xs = Some ws"
        and v: "v = (if operator_of e = js ''&&'' then VC_all else VC_any) (span_id ''condition-'' e) (Some e) ws"
        by (auto simp: readVisualCondition.simps [of e])
      have each: "list_all2 (\<lambda>x w. vc_origin w = Some x \<and> fst (writeVisualCondition h source w) = node_text source x) ?xs ws"
        using ws unfolding map_opt_Some
      proof (rule list.rel_mono_strong)
        fix x w assume x: "x \<in> set ?xs" and r: "readVisualCondition x = Some w"
        have "readable source x" using flatten_subnodes x readable_subnode(1) [OF "1.prems"(2)] by blast
        from "1.IH"(1) [OF None True x r this]
        show "vc_origin w = Some x \<and> fst (writeVisualCondition h source w) = node_text source x" .
      qed
      then have "map vc_origin ws = map Some ?xs" "map (\<lambda>w. fst (writeVisualCondition h source w)) ws = map (node_text source) ?xs"
        by (induction rule: list_all2_induct) auto
      from write_group_same [OF "1.prems"(2) True this] True show ?thesis
        by (cases e) (auto simp: v Let_def o_def)
    next
      case False
      with None "1.prems" show ?thesis
        by (intro write_read_comparison) (auto simp: readVisualCondition.simps [of e])
    qed
  qed
qed

lemma read_price_shape:
  assumes "read_price e = Some p"
  obtains f l x i a b a' b' where "e = Binary f l (Literal (LNum x) i a b) a' b'"
    "vp_value p = num_to_string x" "vp_origin p = Some e"
  using assms by (cases e rule: read_price.cases) (auto split: if_splits)

lemma price_patch_same:
  assumes "read_price e = Some p" and "readable source e"
  shows "\<exists>n. price_patch source p = Some (e, patch n (node_text source n)) \<and> n \<in> set (subnodes e)"
proof -
  from assms(1) obtain f l x i a b a' b' where e: "e = Binary f l (Literal (LNum x) i a b) a' b'"
    and p: "vp_value p = num_to_string x" "vp_origin p = Some e"
    by (rule read_price_shape)
  from assms(2) have "reads_back x" by (simp add: e readable_def)
  with p show ?thesis
    by (auto simp: e price_patch_def node_text_def reads_back_def)
qed

lemma read_prices_all:
  "read_prices ts ps = Some qs \<Longrightarrow> \<exists>rs. qs = ps @ rs \<and> list_all2 (\<lambda>t p. read_price t = Some p) ts rs"
  by (induction ts arbitrary: ps) (fastforce split: option.splits if_splits)+

lemma write_token_tier_same:
  assumes e: "e = Call (js ''tier'') (Literal (LStr l) i a b # body # rest) a' b'" "readable source e"
    and ps: "read_prices (flattenBinary body (js ''+'')) [] = Some ps"
  shows "write_token_tier source (Some e) l ps = node_text source e"
proof -
  let ?ts = "flattenBinary body (js ''+'')"
  from read_prices_all [OF ps] have all: "list_all2 (\<lambda>t p. read_price t = Some p) ?ts ps" by simp
  then have origins: "map vp_origin ps = map Some ?ts"
    by (induction rule: list_all2_induct) (auto elim: read_price_shape)
  have body: "readable source body" "body \<in> set (subnodes e)"
    using readable_argument [of source "js ''tier''" _ a' b' body] e by (auto intro: bexI [of _ body])
  have patches: "\<exists>t. p = patch t (node_text source t) \<and> inside e t"
    if p: "p \<in> set (map snd (List.map_filter (price_patch source) ps))" for p
  proof -
    from p obtain q c where q: "q \<in> set ps" "price_patch source q = Some (c, p)"
      by (auto simp: List.map_filter_def)
    from all q(1) have "\<exists>t \<in> set ?ts. read_price t = Some q"
      by (induction rule: list_all2_induct) auto
    then obtain t where t: "t \<in> set ?ts" "read_price t = Some q" by blast
    have sub: "t \<in> set (subnodes body)" using t(1) flatten_subnodes by blast
    from price_patch_same [OF t(2) readable_subnode(1) [OF body(1) sub]] q(2)
    obtain n where n: "p = patch n (node_text source n)" "n \<in> set (subnodes t)" by auto
    have "n \<in> set (subnodes e)" using n(2) sub body(2) subnodes_trans by blast
    with n(1) readable_subnode(2) [OF e(2)] show ?thesis by blast
  qed
  have lab: "inside e (Literal (LStr l) i a b)"
    using readable_argument [of source "js ''tier''" _ a' b' "Literal (LStr l) i a b"] e by simp
  have "patchSource source e (patch (Literal (LStr l) i a b) (slice a b source)
      # map snd (List.map_filter (price_patch source) ps)) = node_text source e"
    using patches lab by (intro readable_patch [OF e(2)]) (fastforce simp: node_text_def)
  then show ?thesis
    by (simp add: write_token_tier_def e(1) same_origins_def origins Let_def)
qed

lemma write_fixed_tier_same:
  assumes e: "e = Call (js ''tier'') (Literal (LStr l) i a b # body # rest) a' b'" "readable source e"
    and t: "fixed_text body = Some t"
  shows "write_fixed_tier source (Some e) l t = node_text source e"
proof -
  have body: "readable source body" "inside e body"
    using readable_argument [of source "js ''tier''" _ a' b' body] e by auto
  from t obtain v j c d r p q where b: "body = Call (js ''fixed'') (Literal v j c d # r) p q" "t = literal_text v"
    by (cases body rule: fixed_text.cases) (auto split: if_splits)
  from body(1) b(1) obtain x where x: "v = LNum x" "reads_back x"
    by (auto simp: readable_def fixed_amount_ok_def split: lit_value.splits)
  have arg: "inside body (Literal v j c d)"
    using readable_argument [of source "js ''fixed''" _ p q "Literal v j c d"] body(1) b(1) by simp
  have "patchSource source body [patch (Literal v j c d) (slice c d source)] = node_text source body"
    using arg by (intro readable_patch [OF body(1)]) (simp add: node_text_def)
  then have price: "fixed_price_text source body t = node_text source body"
    using x b by (simp add: fixed_price_text_def reads_back_def)
  have lab: "inside e (Literal (LStr l) i a b)"
    using readable_argument [of source "js ''tier''" _ a' b' "Literal (LStr l) i a b"] e by simp
  have "patchSource source e [patch (Literal (LStr l) i a b) (slice a b source), patch body (node_text source body)]
      = node_text source e"
    using lab body(2) by (intro readable_patch [OF e(2)]) (simp add: node_text_def)
  then show ?thesis by (simp add: write_fixed_tier_def e(1) price Let_def)
qed

lemma write_read_pricing:
  "readVisualPricing e = Some v \<Longrightarrow> readable source e \<Longrightarrow>
   vn_origin v = Some e \<and> fst (writeVisualPricing h source v) = node_text source e"
proof (induction e arbitrary: v)
  case (Conditional c x y a b)
  let ?e = "Conditional c x y a b"
  from Conditional.prems(1) obtain vc vx vy where r: "readVisualCondition c = Some vc"
    "readVisualPricing x = Some vx" "readVisualPricing y = Some vy"
    and v: "v = VP_branch (span_id ''pricing-'' ?e) (Some ?e) vc vx vy"
    by (auto simp: Let_def split: option.splits)
  note kids = readable_children(3) [OF Conditional.prems(2)]
  have "fst (writeVisualCondition h source vc) = node_text source c" "fst (writeVisualPricing h source vx) = node_text source x"
    "fst (writeVisualPricing h source vy) = node_text source y"
    using kids write_read_condition [OF r(1)] Conditional.IH(2) [OF r(2)] Conditional.IH(3) [OF r(3)] by auto
  moreover have "patchSource source ?e [patch c (node_text source c), patch x (node_text source x),
      patch y (node_text source y)] = node_text source ?e"
    using kids by (intro readable_patch [OF Conditional.prems(2)]) simp
  ultimately show ?case by (simp add: v case_prod_unfold)
next
  case (Call f es a' b')
  then obtain l i a b body rest where es: "es = Literal (LStr l) i a b # body # rest"
    by (cases "Call f es a' b'" rule: readVisualPricing.cases) auto
  with Call.prems(1) have f: "f = js ''tier''" by (simp add: Let_def split: if_splits)
  let ?e = "Call (js ''tier'') (Literal (LStr l) i a b # body # rest) a' b'"
  have e: "readable source ?e" using Call.prems(2) by (simp add: es f)
  show ?case
  proof (cases "fixed_text body")
    case (Some t)
    with Call.prems(1) write_fixed_tier_same [OF refl e Some] show ?thesis by (auto simp: es f Let_def)
  next
    case None
    with Call.prems(1) obtain ps where ps: "read_prices (flattenBinary body (js ''+'')) [] = Some ps"
      and v: "v = VP_tier (span_id ''pricing-'' ?e) (Some ?e) l ps Unit_token []"
      by (auto simp: es f Let_def)
    from write_token_tier_same [OF refl e ps] v show ?thesis by (simp add: es f)
  qed
qed simp_all

lemma serialize_ok:
  assumes "cache_ok cache" and "serializeVisualBillingDocument h cache d = (Ser_ok s, cache')"
  shows "snd (writeVisualPricing h (vd_source d) (vd_root d)) = []"
  using assms(2) by (cases "writeVisualPricing h (vd_source d) (vd_root d)")
    (auto simp: serializeVisualBillingDocument_def split: if_splits)

lemma unedited_document:
  assumes "cache_ok cache" and "parseVisualBillingDocument h cache source = (Some d, cache1)"
    and c: "compile_result source = Ready c" and "numbers_read_back (cb_ast c)" and "cache_ok cache2"
  shows "vd_source d = source \<and> fst (serializeVisualBillingDocument h cache2 d) = Ser_ok source"
proof -
  obtain r k where rk: "compileBillingExpression cache source = (r, k)" by (cases "compileBillingExpression cache source")
  with compile_cache_ok [OF assms(1) rk] c have r: "r = Ready c" and k: "cache_ok k" by auto
  from assms(2) rk r obtain tree s where tree: "readVisualPricing (cb_ast c) = Some tree"
    and d: "d = \<lparr>vd_source = source, vd_root = tree\<rparr>"
    and s: "serializeVisualBillingDocument h k d = (Ser_ok s, cache1)"
    by (auto simp: parseVisualBillingDocument_def Let_def split: option.splits prod.splits visual_serialization.splits)
  from c have p: "parse source = Inr (cb_ast c)"
    by (auto simp: compile_result_def compile_try_def split: sum.splits)
  have ok: "readable source (cb_ast c)"
    using parse_ok(1, 3) [OF p] compile_validated(1) [OF c] assms(4) by (simp add: readable_def)
  obtain t where t: "writeVisualPricing h source tree = (t, [])"
    using serialize_ok [OF k s] by (cases "writeVisualPricing h source tree") (simp add: d)
  with write_read_pricing [OF tree ok, of h] have "t = node_text source (cb_ast c)" by simp
  then have same: "take (e_start (cb_ast c)) source @ t @ drop (e_end (cb_ast c)) source = source"
    using ok spans_ok_nonempty [of "cb_ast c"] by (simp add: node_text_def readable_def take_slice_drop)
  have compiles: "\<exists>q'. compileBillingExpression q source = (Ready c, q') \<and> cache_ok q'" if "cache_ok q" for q
    using compile_cache_ok [OF that, of source "fst (compileBillingExpression q source)"] c
    by (cases "compileBillingExpression q source") simp
  then obtain q where q: "compileBillingExpression cache2 source = (Ready c, q)" "cache_ok q"
    using assms(5) by blast
  with compiles obtain q' where "compileBillingExpression q source = (Ready c, q')" by blast
  with q show ?thesis
    by (simp add: serializeVisualBillingDocument_def d t same Let_def)
qed

text \<open>
  C30. What is not edited is not rewritten: a document that the visual editor reads from an expression
  is written back as the very same text, blanks, spelling of numbers and quotes included, when the
  numbers of the expression are read back from their decimal text.
\<close>

theorem visual_unedited:
  assumes "cache_ok cache" and "parseVisualBillingDocument h cache source = (Some d, cache1)"
    and "compile_result source = Ready c" and "numbers_read_back (cb_ast c)" and "cache_ok cache2"
  shows "vd_source d = source \<and> fst (serializeVisualBillingDocument h cache2 d) = Ser_ok source"
  using unedited_document [OF assms] .

definition spaced_source :: jstring where
  "spaced_source = js '' len<=4 ? tier('a', p * 2.50):tier('b',fixed( 1.0 ))''"

theorem visual_unedited_witness:
  "\<exists>d. fst (parseVisualBillingDocument plain_host [] spaced_source) = Some d
     \<and> fst (serializeVisualBillingDocument plain_host [] d) = Ser_ok spaced_source"
proof -
  have "case fst (compileBillingExpression [] spaced_source) of
      Ready c \<Rightarrow> numbers_read_back (cb_ast c)
        \<and> fst (parseVisualBillingDocument plain_host [] spaced_source) \<noteq> None
    | _ \<Rightarrow> False"
    by code_simp
  then obtain c d where c: "fst (compileBillingExpression [] spaced_source) = Ready c" "numbers_read_back (cb_ast c)"
    and d: "fst (parseVisualBillingDocument plain_host [] spaced_source) = Some d"
    by (auto split: compilation_result.splits)
  have e: "cache_ok []" by (simp add: cache_ok_def)
  from c(1) have r: "compile_result spaced_source = Ready c"
    by (simp add: compileBillingExpression_def Let_def)
  from d obtain k where k: "parseVisualBillingDocument plain_host [] spaced_source = (Some d, k)"
    by (metis prod.collapse)
  from visual_unedited [OF e k r c(2) e] d show ?thesis by blast
qed

end
