(* ===== verification/Currency.thy ===== *)
theory Currency
  imports JS_Value
begin

text \<open>
  \<open>lib/currency.ts\<close>: amounts in US dollars, quota and local currency as text.

  The configuration in the store is an argument: \<open>None\<close> is a store without the part, and \<open>None\<close> in
  a field is a field the persisted state does not have.  \<open>Intl.NumberFormat\<close> and the last bits of
  \<open>Math.pow\<close> belong to the host: they are the record \<open>intl\<close>.
\<close>

section \<open>Numbers with a fixed number of decimals\<close>

text \<open>\<open>x.toFixed(f)\<close>\<close>

definition fixed_text :: "rat \<Rightarrow> nat \<Rightarrow> jstring" where
  "fixed_text x f =
     (let m = digits_of (nat \<lfloor>x * 10 ^ f + 1 / 2\<rfloor>);
          z = replicate (f + 1 - length m) 48 @ m;
          k = length z - f
      in if f = 0 then m else take k z @ 46 # drop k z)"

definition to_fixed :: "jsnum \<Rightarrow> nat \<Rightarrow> jstring" where
  "to_fixed x f =
     (if \<not> is_finite x \<or> 10 ^ 21 \<le> \<bar>fval x\<bar> then num_to_string x
      else if fval x < 0 then 45 # fixed_text (- fval x) f else fixed_text (fval x) f)"

text \<open>\<^verbatim>\<open>/(\.[0-9]*?)0+$/\<close> and then \<^verbatim>\<open>/\.$/\<close>, on a text with at most one point.\<close>

definition strip_zeros :: "jstring \<Rightarrow> jstring" where
  "strip_zeros s = rev (dropWhile (\<lambda>c. c = 48) (rev s))"

definition removeTrailingZeros :: "jstring \<Rightarrow> jstring" where
  "removeTrailingZeros str =
     (if 46 \<notin> set str then str
      else let fraction = dropWhile (\<lambda>c. c \<noteq> 46) str;
               stripped = (if list_all is_digit (tl fraction) then strip_zeros str else str)
           in if last stripped = 46 then butlast stripped else stripped)"

section \<open>Configuration\<close>

record currency_config =
  cu_displayInCurrency :: bool
  cu_quotaDisplayType :: jstring
  cu_quotaPerUnit :: jsnum
  cu_usdExchangeRate :: jsnum
  cu_customCurrencySymbol :: jstring
  cu_customCurrencyExchangeRate :: jsnum

record stored_currency =
  sc_displayInCurrency :: "bool option"
  sc_quotaDisplayType :: "jstring option"
  sc_quotaPerUnit :: "jsnum option"
  sc_usdExchangeRate :: "jsnum option"
  sc_customCurrencySymbol :: "jstring option"
  sc_customCurrencyExchangeRate :: "jsnum option"

definition DEFAULT_CURRENCY_CONFIG :: currency_config where
  "DEFAULT_CURRENCY_CONFIG =
     \<lparr>cu_displayInCurrency = True, cu_quotaDisplayType = js ''USD'', cu_quotaPerUnit = Fin 500000,
      cu_usdExchangeRate = Fin 1, cu_customCurrencySymbol = [164], cu_customCurrencyExchangeRate = Fin 1\<rparr>"

definition DISPLAY_TYPE_VALUES :: "jstring list" where
  "DISPLAY_TYPE_VALUES = map js [''USD'', ''CNY'', ''TOKENS'', ''CUSTOM'']"

definition isCurrencyDisplayType :: "jsval \<Rightarrow> bool" where
  "isCurrencyDisplayType v = (case v of JStr s \<Rightarrow> s \<in> set DISPLAY_TYPE_VALUES | _ \<Rightarrow> False)"

definition parseCurrencyDisplayType :: "jsval \<Rightarrow> jstring \<Rightarrow> jstring" where
  "parseCurrencyDisplayType v fallback =
     (if isCurrencyDisplayType v then (case v of JStr s \<Rightarrow> s | _ \<Rightarrow> fallback) else fallback)"

definition positive_or :: "jsnum \<Rightarrow> jsnum option \<Rightarrow> jsnum" where
  "positive_or default0 x = (case x of Some v \<Rightarrow> if js_lt (Fin 0) v then v else default0 | None \<Rightarrow> default0)"

definition getConfig :: "stored_currency option \<Rightarrow> currency_config" where
  "getConfig store =
     (let d = DEFAULT_CURRENCY_CONFIG
      in case store of
           None \<Rightarrow> d
         | Some c \<Rightarrow>
             \<lparr>cu_displayInCurrency = (case sc_displayInCurrency c of Some b \<Rightarrow> b | None \<Rightarrow> cu_displayInCurrency d),
              cu_quotaDisplayType = (case sc_quotaDisplayType c of Some t \<Rightarrow> t | None \<Rightarrow> cu_quotaDisplayType d),
              cu_quotaPerUnit = positive_or (cu_quotaPerUnit d) (sc_quotaPerUnit c),
              cu_usdExchangeRate = positive_or (cu_usdExchangeRate d) (sc_usdExchangeRate c),
              cu_customCurrencySymbol =
                (case sc_customCurrencySymbol c of
                   Some s \<Rightarrow> if trim s \<noteq> [] then trim s else cu_customCurrencySymbol d
                 | None \<Rightarrow> cu_customCurrencySymbol d),
              cu_customCurrencyExchangeRate =
                positive_or (cu_customCurrencyExchangeRate d) (sc_customCurrencyExchangeRate c)\<rparr>)"

datatype display_meta =
    Meta_currency (meta_symbol: jstring) (meta_code: jstring) (meta_rate: jsnum)
  | Meta_custom (meta_symbol: jstring) (meta_rate: jsnum)
  | Meta_tokens jsnum

definition dollar_meta :: display_meta where
  "dollar_meta = Meta_currency (js ''$'') (js ''USD'') (Fin 1)"

definition getDisplayMeta :: "currency_config \<Rightarrow> display_meta" where
  "getDisplayMeta config =
     (let t = cu_quotaDisplayType config
      in if t = js ''CNY'' then Meta_currency [165] (js ''CNY'') (cu_usdExchangeRate config)
         else if t = js ''CUSTOM'' then Meta_custom (cu_customCurrencySymbol config) (cu_customCurrencyExchangeRate config)
         else if t = js ''TOKENS'' then Meta_tokens (cu_quotaPerUnit config)
         else dollar_meta)"

definition getBillingDisplayMeta :: "currency_config \<Rightarrow> display_meta" where
  "getBillingDisplayMeta config =
     (case getDisplayMeta config of Meta_tokens q \<Rightarrow> dollar_meta | meta \<Rightarrow> meta)"

section \<open>Options\<close>

record format_options =
  fo_digitsLarge :: "nat option"
  fo_digitsSmall :: "nat option"
  fo_abbreviate :: "bool option"
  fo_minimumNonZero :: "jsnum option"
  fo_compact :: "bool option"
  fo_showSymbol :: "bool option"
  fo_locale :: "jstring option"

record resolved_options =
  ro_digitsLarge :: nat
  ro_digitsSmall :: nat
  ro_abbreviate :: bool
  ro_minimumNonZero :: jsnum
  ro_compact :: bool
  ro_showSymbol :: bool
  ro_locale :: "jstring option"

definition DEFAULT_FORMAT_OPTIONS :: resolved_options where
  "DEFAULT_FORMAT_OPTIONS =
     \<lparr>ro_digitsLarge = 2, ro_digitsSmall = 4, ro_abbreviate = True, ro_minimumNonZero = Fin 0,
      ro_compact = False, ro_showSymbol = True, ro_locale = None\<rparr>"

definition or_default :: "'a \<Rightarrow> 'a option \<Rightarrow> 'a" where
  "or_default d x = (case x of Some v \<Rightarrow> v | None \<Rightarrow> d)"

definition mergeOptions :: "format_options option \<Rightarrow> resolved_options" where
  "mergeOptions options0 =
     (let d = DEFAULT_FORMAT_OPTIONS
      in case options0 of
           None \<Rightarrow> d
         | Some o0 \<Rightarrow>
             \<lparr>ro_digitsLarge = or_default (ro_digitsLarge d) (fo_digitsLarge o0),
              ro_digitsSmall = or_default (ro_digitsSmall d) (fo_digitsSmall o0),
              ro_abbreviate = or_default (ro_abbreviate d) (fo_abbreviate o0),
              ro_minimumNonZero = or_default (ro_minimumNonZero d) (fo_minimumNonZero o0),
              ro_compact = or_default (ro_compact d) (fo_compact o0),
              ro_showSymbol = or_default (ro_showSymbol d) (fo_showSymbol o0),
              ro_locale = (case fo_locale o0 of None \<Rightarrow> ro_locale d | l \<Rightarrow> l)\<rparr>)"

section \<open>Formatting\<close>

text \<open>The arguments of \<open>Intl.NumberFormat\<close>, and the host's answers.\<close>

record number_format =
  nf_locale :: "jstring option"
  nf_currency :: "jstring option"
  nf_compact :: bool
  nf_minimumFractionDigits :: "nat option"
  nf_maximumFractionDigits :: nat

record intl =
  in_format :: "number_format \<Rightarrow> jsnum \<Rightarrow> jstring"
  in_pow10 :: "nat \<Rightarrow> jsnum"

definition getFractionDigits :: "jsnum \<Rightarrow> nat \<Rightarrow> nat \<Rightarrow> nat" where
  "getFractionDigits value digitsLarge digitsSmall =
     (if js_le (Fin 1) (js_abs value) then digitsLarge else digitsSmall)"

definition getCurrencyFractionDigits :: "jsnum \<Rightarrow> format_options option \<Rightarrow> nat" where
  "getCurrencyFractionDigits value options0 =
     (let merged = mergeOptions options0
      in getFractionDigits value (ro_digitsLarge merged) (ro_digitsSmall merged))"

definition formatNumberWithSuffix :: "jsnum \<Rightarrow> nat \<Rightarrow> nat \<Rightarrow> bool \<Rightarrow> jstring" where
  "formatNumberWithSuffix value digitsLarge digitsSmall abbreviate =
     (if abbreviate \<and> js_le (Fin 1000) (js_abs value)
      then removeTrailingZeros (to_fixed (js_div value (Fin 1000)) 1) @ js ''k''
      else removeTrailingZeros (to_fixed value (getFractionDigits value digitsLarge digitsSmall)))"

definition adjustForMinimum :: "intl \<Rightarrow> jsnum \<Rightarrow> nat \<Rightarrow> jsnum \<Rightarrow> jsnum" where
  "adjustForMinimum i value digits minimumNonZero =
     (if js_eq value (Fin 0) then value
      else let threshold = (if js_lt (Fin 0) minimumNonZero then minimumNonZero else in_pow10 i digits);
               a = js_abs value
           in if js_lt (Fin 0) a \<and> js_lt a threshold
              then (if js_lt (Fin 0) value then threshold else js_neg threshold) else value)"

definition compact_format :: "jstring option \<Rightarrow> number_format" where
  "compact_format locale0 =
     \<lparr>nf_locale = locale0, nf_currency = None, nf_compact = True,
      nf_minimumFractionDigits = None, nf_maximumFractionDigits = 1\<rparr>"

definition amount_format :: "resolved_options \<Rightarrow> jstring option \<Rightarrow> nat \<Rightarrow> number_format" where
  "amount_format o0 code digits =
     \<lparr>nf_locale = ro_locale o0, nf_currency = code, nf_compact = ro_compact o0,
      nf_minimumFractionDigits = Some 0, nf_maximumFractionDigits = (if ro_compact o0 then 1 else digits)\<rparr>"

definition formatCurrencyValue :: "intl \<Rightarrow> jsnum \<Rightarrow> resolved_options \<Rightarrow> display_meta \<Rightarrow> jstring" where
  "formatCurrencyValue i value o0 meta =
     (let digits = getFractionDigits value (ro_digitsLarge o0) (ro_digitsSmall o0);
          adjusted = adjustForMinimum i value digits (ro_minimumNonZero o0)
      in case meta of
           Meta_tokens q \<Rightarrow>
             if ro_compact o0 then in_format i (compact_format (ro_locale o0)) value
             else formatNumberWithSuffix value (ro_digitsLarge o0) (ro_digitsSmall o0) (ro_abbreviate o0)
         | Meta_currency symbol code rate \<Rightarrow>
             in_format i (amount_format o0 (if ro_showSymbol o0 then Some code else None) digits) adjusted
         | Meta_custom symbol rate \<Rightarrow>
             (let decimal = in_format i (amount_format o0 None digits) adjusted
              in if ro_showSymbol o0 then symbol @ js '' '' @ decimal else decimal))"

definition getCurrencyDisplay :: "stored_currency option \<Rightarrow> currency_config \<times> display_meta" where
  "getCurrencyDisplay store = (let config = getConfig store in (config, getDisplayMeta config))"

definition no_amount :: "jsnum option \<Rightarrow> bool" where
  "no_amount x = (x = None \<or> x = Some NaN)"

definition formatCurrencyFromUSD ::
  "intl \<Rightarrow> stored_currency option \<Rightarrow> jsnum option \<Rightarrow> format_options option \<Rightarrow> jstring" where
  "formatCurrencyFromUSD i store amountUSD options0 =
     (if no_amount amountUSD then js ''-''
      else let amount = the amountUSD; merged = mergeOptions options0
           in case getCurrencyDisplay store of (config, meta) \<Rightarrow>
                (case meta of
                   Meta_tokens q \<Rightarrow>
                     let tokens = js_mul amount (cu_quotaPerUnit config)
                     in if ro_compact merged then in_format i (compact_format (ro_locale merged)) tokens
                        else formatNumberWithSuffix tokens 0 (ro_digitsSmall merged) (ro_abbreviate merged)
                 | _ \<Rightarrow> formatCurrencyValue i (js_mul amount (meta_rate meta)) merged meta))"

definition formatBillingCurrencyFromUSD ::
  "intl \<Rightarrow> stored_currency option \<Rightarrow> jsnum option \<Rightarrow> format_options option \<Rightarrow> jstring" where
  "formatBillingCurrencyFromUSD i store amountUSD options0 =
     (if no_amount amountUSD then js ''-''
      else let meta = getBillingDisplayMeta (fst (getCurrencyDisplay store));
               value = (case meta of Meta_tokens q \<Rightarrow> the amountUSD | _ \<Rightarrow> js_mul (the amountUSD) (meta_rate meta))
           in formatCurrencyValue i value (mergeOptions options0) meta)"

definition formatQuotaWithCurrency ::
  "intl \<Rightarrow> stored_currency option \<Rightarrow> jsnum option \<Rightarrow> format_options option \<Rightarrow> jstring" where
  "formatQuotaWithCurrency i store quota options0 =
     (if no_amount quota then js ''-''
      else formatCurrencyFromUSD i store
             (Some (js_div (the quota) (cu_quotaPerUnit (fst (getCurrencyDisplay store))))) options0)"

definition getCurrencyLabel :: "stored_currency option \<Rightarrow> jstring" where
  "getCurrencyLabel store =
     (case getCurrencyDisplay store of (config, meta) \<Rightarrow>
        (case meta of
           Meta_tokens q \<Rightarrow> js ''Tokens''
         | _ \<Rightarrow>
             if cu_quotaDisplayType config = js ''CNY'' then js ''CNY''
             else if cu_quotaDisplayType config = js ''CUSTOM''
             then (case meta of Meta_custom symbol rate \<Rightarrow> symbol | _ \<Rightarrow> js ''Custom'')
             else js ''USD''))"

definition isCurrencyDisplayEnabled :: "stored_currency option \<Rightarrow> bool" where
  "isCurrencyDisplayEnabled store =
     (case snd (getCurrencyDisplay store) of Meta_tokens q \<Rightarrow> False | _ \<Rightarrow> True)"

definition formatLocalCurrencyAmount ::
  "intl \<Rightarrow> stored_currency option \<Rightarrow> jsnum option \<Rightarrow> format_options option \<Rightarrow> jstring" where
  "formatLocalCurrencyAmount i store amount options0 =
     (if no_amount amount then js ''-''
      else formatCurrencyValue i (the amount) (mergeOptions options0)
             (getBillingDisplayMeta (fst (getCurrencyDisplay store))))"

definition tokens_store :: stored_currency where
  "tokens_store =
     \<lparr>sc_displayInCurrency = None, sc_quotaDisplayType = Some (js ''TOKENS''), sc_quotaPerUnit = None,
      sc_usdExchangeRate = None, sc_customCurrencySymbol = None, sc_customCurrencyExchangeRate = None\<rparr>"

text \<open>The example of the comment on \<open>formatCurrencyFromUSD\<close> promises \<open>5,000,000\<close>.\<close>

lemma token_amounts_abbreviated: "formatCurrencyFromUSD i (Some tokens_store) (Some (Fin 10)) None = js ''5000k''"
  by code_simp

section \<open>Billing amounts\<close>

lemma billing_meta_not_tokens: "getBillingDisplayMeta config \<noteq> Meta_tokens q"
  by (auto simp: getBillingDisplayMeta_def dollar_meta_def split: display_meta.splits)

lemma adjustForMinimum_visible:
  assumes v: "is_finite v" "fval v \<noteq> 0" and t: "is_finite t" "0 < fval t"
    and eq: "t = (if js_lt (Fin 0) least then least else in_pow10 i digits)"
  shows "is_finite (adjustForMinimum i v digits least)
    \<and> (0 < fval (adjustForMinimum i v digits least) \<longleftrightarrow> 0 < fval v)
    \<and> fval t \<le> \<bar>fval (adjustForMinimum i v digits least)\<bar>
    \<and> (fval t \<le> \<bar>fval v\<bar> \<longrightarrow> adjustForMinimum i v digits least = v)"
proof -
  have "\<not> js_eq v (Fin 0)" using v by (simp add: js_eq_def fval_def [of "Fin 0"] is_finite_def [of "Fin 0"])
  moreover have "is_finite (js_abs v)" "fval (js_abs v) = \<bar>fval v\<bar>"
    using v by (cases v; auto simp: js_abs_def neg_sign_def js_neg_def is_finite_def fval_def)+
  moreover have "js_lt x y \<longleftrightarrow> fval x < fval y" if "is_finite x" "is_finite y" for x y
    using that by (auto simp: js_lt_def is_finite_def)
  moreover have "is_finite (js_neg t)" "fval (js_neg t) = - fval t"
    using t by (cases t; auto simp: js_neg_def is_finite_def fval_def)+
  moreover have "is_finite (Fin 0)" "fval (Fin 0) = 0" by (simp_all add: is_finite_def fval_def)
  ultimately show ?thesis
    using v t by (simp add: adjustForMinimum_def Let_def flip: eq)
qed


definition plain_intl :: intl where
  "plain_intl = \<lparr>in_format = (\<lambda>f x. to_fixed x (nf_maximumFractionDigits f)), in_pow10 = (\<lambda>d. Fin (1 / 10 ^ d))\<rparr>"

definition two_decimals :: format_options where
  "two_decimals =
     \<lparr>fo_digitsLarge = None, fo_digitsSmall = Some 2, fo_abbreviate = None, fo_minimumNonZero = None,
      fo_compact = None, fo_showSymbol = None, fo_locale = None\<rparr>"


end
