(* ===== verification/JS_Sort.thy ===== *)
theory JS_Sort
  imports Main "HOL-Library.Multiset"
begin

text \<open>
  Sorting with a comparison function.  The locale \<open>total_preorder\<close> is what the sort relies on: an order
  in which any two elements compare.  Under it the result is sorted and stable.
\<close>

text \<open>
  \<open>Array.prototype.sort\<close> with a comparison function: a stable sort, written as insertion.  The order
  \<open>le a b\<close> is that the function is not positive on \<open>a\<close> and \<open>b\<close>; a \<open>NaN\<close> counts as 0.
\<close>

fun insert_le :: "('a \<Rightarrow> 'a \<Rightarrow> bool) \<Rightarrow> 'a \<Rightarrow> 'a list \<Rightarrow> 'a list" where
  "insert_le le x [] = [x]"
| "insert_le le x (y # ys) = (if le x y then x # y # ys else y # insert_le le x ys)"

definition stable_sort :: "('a \<Rightarrow> 'a \<Rightarrow> bool) \<Rightarrow> 'a list \<Rightarrow> 'a list" where
  "stable_sort le xs = foldr (insert_le le) xs []"

section \<open>Permutation, order and stability\<close>

lemma mset_insert_le [simp]: "mset (insert_le le x ys) = add_mset x (mset ys)"
  by (induction ys) auto

lemma mset_stable_sort [simp]: "mset (stable_sort le xs) = mset xs"
  by (induction xs) (auto simp: stable_sort_def)

lemma set_insert_le [simp]: "set (insert_le le x ys) = insert x (set ys)"
  by (induction ys) auto

lemma set_stable_sort [simp]: "set (stable_sort le xs) = set xs"
  by (induction xs) (auto simp: stable_sort_def)

lemma insert_le_cong:
  "(\<And>y. y \<in> set ys \<Longrightarrow> le x y = le' x y) \<Longrightarrow> insert_le le x ys = insert_le le' x ys"
  by (induction ys) auto

lemma stable_sort_cong:
  "(\<And>x y. x \<in> set xs \<Longrightarrow> y \<in> set xs \<Longrightarrow> le x y = le' x y) \<Longrightarrow> stable_sort le xs = stable_sort le' xs"
proof (induction xs)
  case (Cons x xs)
  have "stable_sort le xs = stable_sort le' xs" by (rule Cons.IH) (simp add: Cons.prems)
  moreover have "insert_le le x (stable_sort le' xs) = insert_le le' x (stable_sort le' xs)"
    by (rule insert_le_cong) (simp add: Cons.prems)
  ultimately show ?case by (simp add: stable_sort_def)
qed (simp add: stable_sort_def)

locale total_preorder =
  fixes le :: "'a \<Rightarrow> 'a \<Rightarrow> bool"
  assumes total: "le a b \<or> le b a"
    and trans: "le a b \<Longrightarrow> le b c \<Longrightarrow> le a c"
begin

lemma sorted_insert: "sorted_wrt le ys \<Longrightarrow> sorted_wrt le (insert_le le x ys)"
proof (induction ys)
  case (Cons y ys)
  then show ?case using total [of x y] by (auto intro: trans)
qed simp

lemma sorted_sort: "sorted_wrt le (stable_sort le xs)"
  by (induction xs) (auto simp: stable_sort_def sorted_insert)

definition same :: "'a \<Rightarrow> 'a \<Rightarrow> bool" where
  "same a b \<longleftrightarrow> le a b \<and> le b a"

lemma insert_stable: "filter (same a) (insert_le le x ys) = filter (same a) (x # ys)"
proof (induction ys)
  case (Cons y ys)
  have "\<not> (same a x \<and> same a y)" if "\<not> le x y" using that trans by (auto simp: same_def)
  with Cons show ?case by auto
qed simp

lemma sort_stable: "filter (same a) (stable_sort le xs) = filter (same a) xs"
proof (induction xs)
  case (Cons x xs)
  have "stable_sort le (x # xs) = insert_le le x (stable_sort le xs)" by (simp add: stable_sort_def)
  with Cons show ?case by (simp only: insert_stable filter.simps)
qed (simp add: stable_sort_def)

end

end
