(* ===== verification/Pricing_Model.thy ===== *)
theory Pricing_Model
  imports Currency Task_Table JS_Sort
begin

text \<open>
  The models of the price list: \<open>types.ts\<close> and \<open>constants.ts\<close> of the pricing feature,
  \<open>model-helpers.ts\<close>, \<open>plugin-pricing.ts\<close>, \<open>filters.ts\<close>, \<open>price.ts\<close> and the predicates of
  \<open>dynamic-price.ts\<close> on models.

  A missing or null field is \<open>None\<close>.  Records of the server are association lists.
\<close>

section \<open>Types and constants\<close>

datatype localized = Plain_text jstring | Text_map "(jstring \<times> jstring) list"

record field_schema = usage_field +
  fd_unitLabel :: "localized option"
  fd_enumLabels :: "(jstring \<times> localized) list"
  fd_description :: "localized option"

type_synonym labelled_schema = "(jstring \<times> field_schema) list"

text \<open>What the pricing code reads of a schema.\<close>

definition plain_schema :: "labelled_schema \<Rightarrow> usage_schema" where
  "plain_schema schema = map (apsnd usage_field.truncate) schema"

record plugin_variant =
  pv_plugin_key :: jstring
  pv_plugin_name :: jstring
  pv_billing_expr :: jstring
  pv_billing_mode :: "jstring option"
  pv_billing_usage_schema :: labelled_schema
  pv_billing_usage_examples :: "usage_example list option"

record pricing_model =
  pm_billing_plugin_variants :: "plugin_variant list option"
  pm_model_name :: "jstring option"
  pm_description :: "jstring option"
  pm_vendor_name :: "jstring option"
  pm_quota_type :: jsnum
  pm_model_ratio :: jsnum
  pm_completion_ratio :: jsnum
  pm_model_price :: "jsnum option"
  pm_cache_ratio :: "jsnum option"
  pm_create_cache_ratio :: "jsnum option"
  pm_image_ratio :: "jsnum option"
  pm_audio_ratio :: "jsnum option"
  pm_audio_completion_ratio :: "jsnum option"
  pm_enable_groups :: "jstring list option"
  pm_tags :: "jstring option"
  pm_supported_endpoint_types :: "jstring list option"
  pm_group_ratio :: "(jstring \<times> jsnum) list option"
  pm_billing_mode :: "jstring option"
  pm_billing_expr :: "jstring option"
  pm_billing_usage_schema :: "labelled_schema option"
  pm_billing_usage_examples :: "usage_example list option"

datatype token_unit = Unit_M | Unit_K

datatype price_type =
  Price_input | Price_output | Price_cache | Price_create_cache | Price_image | Price_audio_input | Price_audio_output

definition FILTER_ALL :: jstring where
  "FILTER_ALL = js ''all''"

definition EXCLUDED_GROUPS :: "jstring list" where
  "EXCLUDED_GROUPS = [[], js ''auto'']"

definition TOKEN_UNIT_DIVISORS :: "token_unit \<Rightarrow> jsnum" where
  "TOKEN_UNIT_DIVISORS u = (case u of Unit_M \<Rightarrow> Fin 1 | Unit_K \<Rightarrow> Fin 1000)"

abbreviation quota_is :: "pricing_model \<Rightarrow> rat \<Rightarrow> bool" where
  "quota_is m q \<equiv> js_eq (pm_quota_type m) (Fin q)"

section \<open>Model helpers\<close>

definition variants_of :: "pricing_model \<Rightarrow> plugin_variant list" where
  "variants_of m = or_default [] (pm_billing_plugin_variants m)"

abbreviation has_variants :: "pricing_model \<Rightarrow> bool" where
  "has_variants m \<equiv> variants_of m \<noteq> []"

definition enabled_groups :: "pricing_model \<Rightarrow> jstring list" where
  "enabled_groups m = or_default [] (pm_enable_groups m)"

definition getAvailableGroups :: "pricing_model \<Rightarrow> (jstring \<times> 'a) list \<Rightarrow> jstring list" where
  "getAvailableGroups m usableGroup =
     filter (\<lambda>g. g \<in> set (enabled_groups m)) (filter (\<lambda>g. g \<notin> set EXCLUDED_GROUPS) (map fst usableGroup))"

definition getConfiguredGroupRatio :: "(jstring \<times> jsnum) list \<Rightarrow> jstring \<Rightarrow> jsnum" where
  "getConfiguredGroupRatio groupRatio group0 =
     (case map_of groupRatio group0 of Some r \<Rightarrow> if is_finite r then r else Fin 1 | None \<Rightarrow> Fin 1)"

definition lower_ratio :: "(jstring \<times> jsnum) list \<Rightarrow> jstring \<Rightarrow> jsnum \<Rightarrow> jsnum" where
  "lower_ratio groupRatio group0 minRatio =
     (case map_of groupRatio group0 of
        Some r \<Rightarrow> if is_finite r \<and> js_lt r minRatio then r else minRatio
      | None \<Rightarrow> minRatio)"

definition getDisplayGroupRatio :: "pricing_model \<Rightarrow> jstring option \<Rightarrow> jsnum" where
  "getDisplayGroupRatio m selectedGroup =
     (let gs = enabled_groups m; groupRatio = or_default [] (pm_group_ratio m)
      in if text_truthy selectedGroup \<and> the selectedGroup \<noteq> FILTER_ALL \<and> the selectedGroup \<in> set gs
         then getConfiguredGroupRatio groupRatio (the selectedGroup)
         else if gs = [] then Fin 1
         else let minRatio = fold (lower_ratio groupRatio) gs PosInf
              in if minRatio = PosInf then Fin 1 else minRatio)"

text \<open>
  \<open>path.replaceAll('{model}', modelName)\<close>.  In the replacement text \<^verbatim>\<open>$$\<close> is a dollar sign,
  \<^verbatim>\<open>$&\<close> the match, and \<^verbatim>\<open>$`\<close> and \<^verbatim>\<open>$'\<close> are the text before and after it.
\<close>

fun get_substitution :: "jstring \<Rightarrow> jstring \<Rightarrow> jstring \<Rightarrow> jstring \<Rightarrow> jstring" where
  "get_substitution matched before after (c # d # rest) =
     (if c \<noteq> 36 then c # get_substitution matched before after (d # rest)
      else if d = 36 then 36 # get_substitution matched before after rest
      else if d = 38 then matched @ get_substitution matched before after rest
      else if d = 96 then before @ get_substitution matched before after rest
      else if d = 39 then after @ get_substitution matched before after rest
      else c # get_substitution matched before after (d # rest))"
| "get_substitution matched before after s = s"

definition model_placeholder :: jstring where
  "model_placeholder = js ''{model}''"

function replace_placeholder :: "jstring \<Rightarrow> jstring \<Rightarrow> jstring \<Rightarrow> jstring" where
  "replace_placeholder name before s =
     (if s = [] then []
      else if starts_with model_placeholder s
      then let after = drop (length model_placeholder) s
           in get_substitution model_placeholder before after name
                @ replace_placeholder name (before @ model_placeholder) after
      else hd s # replace_placeholder name (before @ [hd s]) (tl s))"
  by pat_completeness auto
termination
  by (relation "measure (\<lambda>(n, b, s). length s)") (auto simp: model_placeholder_def)

declare replace_placeholder.simps [simp del]

definition replaceModelInPath :: "jstring \<Rightarrow> jstring \<Rightarrow> jstring" where
  "replaceModelInPath path modelName = replace_placeholder modelName [] path"

definition isTokenBasedModel :: "pricing_model \<Rightarrow> bool" where
  "isTokenBasedModel m = quota_is m 0"

section \<open>Plugin pricing\<close>

fun index_of :: "jstring \<Rightarrow> jstring \<Rightarrow> nat option" where
  "index_of p [] = (if p = [] then Some 0 else None)"
| "index_of p (c # s) = (if starts_with p (c # s) then Some 0 else map_option Suc (index_of p s))"

definition plugin_start :: "nat \<Rightarrow> bool" where
  "plugin_start c \<longleftrightarrow> is_digit c \<or> 97 \<le> c \<and> c \<le> 122"

definition plugin_name_ok :: "jstring \<Rightarrow> bool" where
  "plugin_name_ok s \<longleftrightarrow> s \<noteq> [] \<and> plugin_start (hd s)
     \<and> list_all (\<lambda>c. plugin_start c \<or> c = 95 \<or> c = 45) (tl s) \<and> length (tl s) \<le> 29"

definition splitPluginBillingExprKey :: "jstring \<Rightarrow> (jstring \<times> jstring) option" where
  "splitPluginBillingExprKey key =
     (case index_of (js ''::'') key of
        None \<Rightarrow> None
      | Some separator0 \<Rightarrow>
          if separator0 < 1 then None
          else let plugin = take separator0 key; model = drop (separator0 + 2) key
               in if \<not> plugin_name_ok plugin \<or> trim model = [] then None else Some (plugin, model))"

fun undeclared_usage :: "usage_schema \<Rightarrow> expr \<Rightarrow> bool \<Rightarrow> thrown + bool" where
  "undeclared_usage schema (Call f (Literal (LStr key) i a b # rest) a' b') compatible =
     Inr (compatible \<and> \<not> (f = js ''u'' \<and> key \<notin> fst ` set schema))"
| "undeclared_usage schema node compatible = Inr compatible"

text \<open>\<open>None\<close> is \<open>undefined\<close>.\<close>

definition taskExpressionCompatible ::
  "compiled_cache \<Rightarrow> jstring \<Rightarrow> usage_schema \<Rightarrow> (thrown + bool option) \<times> compiled_cache" where
  "taskExpressionCompatible cache expression0 schema =
     (if trim expression0 = [] then (Inr (Some False), cache)
      else case compileBillingExpression cache expression0 of
             (Failure f, cache') \<Rightarrow> (Inr None, cache')
           | (Ready compiled, cache') \<Rightarrow>
               (bnd (visitExpression (cb_ast compiled) (undeclared_usage schema)
                      (js ''fixed'' \<notin> cb_functions compiled)) (\<lambda>c. Inr (Some c)), cache'))"

definition withPluginPricing :: "pricing_model \<Rightarrow> plugin_variant \<Rightarrow> pricing_model" where
  "withPluginPricing m v =
     m\<lparr>pm_quota_type := (if pv_billing_mode v = Some (js ''ratio'') then pm_quota_type m else Fin 0),
       pm_billing_mode := Some (or_default (js ''tiered_expr'') (pv_billing_mode v)),
       pm_billing_expr := Some (pv_billing_expr v),
       pm_billing_usage_schema := Some (pv_billing_usage_schema v),
       pm_billing_usage_examples := pv_billing_usage_examples v,
       pm_billing_plugin_variants := None\<rparr>"

definition pluginExpressionsEqual :: "(jstring \<times> jstring) list \<Rightarrow> (jstring \<times> jstring) list \<Rightarrow> bool" where
  "pluginExpressionsEqual left0 right0 =
     (length left0 = length right0
      \<and> list_all (\<lambda>key. key \<in> fst ` set right0 \<and> map_of left0 key = map_of right0 key) (map fst left0))"

definition pluginUsageSchema :: "pricing_model option \<Rightarrow> jstring option \<Rightarrow> labelled_schema option" where
  "pluginUsageSchema m pluginKey =
     (case m of
        None \<Rightarrow> None
      | Some model \<Rightarrow>
          (case find (\<lambda>v. Some (pv_plugin_key v) = pluginKey) (variants_of model) of
             Some v \<Rightarrow> Some (pv_billing_usage_schema v)
           | None \<Rightarrow> pm_billing_usage_schema model))"

section \<open>Kinds of models\<close>

definition isDynamicPricingModel :: "pricing_model \<Rightarrow> bool" where
  "isDynamicPricingModel m =
     (if has_variants m
      then list_ex (\<lambda>v. pv_billing_mode v \<noteq> Some (js ''ratio'') \<and> pv_billing_expr v \<noteq> []) (variants_of m)
      else pm_billing_mode m = Some (js ''tiered_expr'') \<and> text_truthy (pm_billing_expr m))"

definition hasTaskUsageSchema :: "pricing_model \<Rightarrow> bool" where
  "hasTaskUsageSchema m \<longleftrightarrow> or_default [] (pm_billing_usage_schema m) \<noteq> []"

definition isTaskUsagePricingModel :: "pricing_model \<Rightarrow> bool" where
  "isTaskUsagePricingModel m \<longleftrightarrow> pm_billing_mode m = Some (js ''tiered_expr'') \<and> hasTaskUsageSchema m"

definition unconfigured_plain :: "pricing_model \<Rightarrow> bool" where
  "unconfigured_plain m \<longleftrightarrow> \<not> quota_is m 1 \<and> hasTaskUsageSchema m \<and> \<not> isDynamicPricingModel m"

definition unconfigured_variant :: "pricing_model \<Rightarrow> plugin_variant \<Rightarrow> bool" where
  "unconfigured_variant m v =
     (if pv_billing_mode v = Some (js ''ratio'') then unconfigured_plain (withPluginPricing m v)
      else pv_billing_expr v = [])"

definition isUnconfiguredTaskUsageModel :: "pricing_model \<Rightarrow> bool" where
  "isUnconfiguredTaskUsageModel m =
     (if has_variants m then list_all (unconfigured_variant m) (variants_of m) else unconfigured_plain m)"

definition getBillingModeLabelKey :: "pricing_model \<Rightarrow> jstring" where
  "getBillingModeLabelKey m =
     (if hasTaskUsageSchema m then js ''Task billing''
      else if isDynamicPricingModel m then js ''Dynamic Pricing''
      else if isTokenBasedModel m then js ''Token-based''
      else js ''Per Request'')"

section \<open>Filters and sorting\<close>

definition text_matches :: "host \<Rightarrow> jstring \<Rightarrow> jstring option \<Rightarrow> bool" where
  "text_matches h lowerQuery t = (case t of None \<Rightarrow> False | Some s \<Rightarrow> includes_str (host_lower h s) lowerQuery)"

definition filterBySearch :: "host \<Rightarrow> pricing_model list \<Rightarrow> jstring \<Rightarrow> pricing_model list" where
  "filterBySearch h models query =
     (if query = [] then models
      else let q = host_lower h query
           in filter (\<lambda>m. text_matches h q (pm_model_name m) \<or> text_matches h q (pm_description m)
                \<or> text_matches h q (pm_tags m) \<or> text_matches h q (pm_vendor_name m)) models)"

definition filterByVendor :: "pricing_model list \<Rightarrow> jstring \<Rightarrow> pricing_model list" where
  "filterByVendor models vendor =
     (if vendor = FILTER_ALL then models else filter (\<lambda>m. pm_vendor_name m = Some vendor) models)"

definition filterByGroup :: "pricing_model list \<Rightarrow> jstring \<Rightarrow> pricing_model list" where
  "filterByGroup models group0 =
     (if group0 = FILTER_ALL then models else filter (\<lambda>m. group0 \<in> set (enabled_groups m)) models)"

definition filterByQuotaType :: "pricing_model list \<Rightarrow> jstring \<Rightarrow> pricing_model list" where
  "filterByQuotaType models quotaType =
     (if quotaType = js ''all'' then models
      else if quotaType = js ''task'' then filter hasTaskUsageSchema models
      else let targetType = (if quotaType = js ''token'' then 0 else 1)
           in filter (\<lambda>m. quota_is m targetType \<and> \<not> hasTaskUsageSchema m) models)"

definition filterByEndpointType :: "pricing_model list \<Rightarrow> jstring \<Rightarrow> pricing_model list" where
  "filterByEndpointType models endpointType =
     (if endpointType = js ''all'' then models
      else filter (\<lambda>m. endpointType \<in> set (or_default [] (pm_supported_endpoint_types m))) models)"

text \<open>The pieces of \<^verbatim>\<open>s.split(/[,;|\s]+/)\<close>.\<close>

definition tag_separator :: "nat \<Rightarrow> bool" where
  "tag_separator c \<longleftrightarrow> c \<in> {44, 59, 124} \<or> is_ws c"

function split_tags :: "jstring \<Rightarrow> jstring list" where
  "split_tags s =
     (let piece = takeWhile (\<lambda>c. \<not> tag_separator c) s; rest = dropWhile (\<lambda>c. \<not> tag_separator c) s
      in if rest = [] then [piece] else piece # split_tags (dropWhile tag_separator rest))"
  by pat_completeness auto
termination
proof (relation "measure length", goal_cases)
  case (2 s piece rest)
  let ?rest = "dropWhile (\<lambda>c. \<not> tag_separator c) s"
  have "tag_separator (hd ?rest)" "?rest \<noteq> []"
    using 2 hd_dropWhile [of "\<lambda>c. \<not> tag_separator c" s] by auto
  then have "length (dropWhile tag_separator ?rest) < length ?rest"
    by (cases ?rest) (auto simp: le_imp_less_Suc length_dropWhile_le simp del: dropWhile_eq_Nil_conv)
  then show ?case using 2 length_dropWhile_le [of "\<lambda>c. \<not> tag_separator c" s] by simp
qed simp

declare split_tags.simps [simp del]

definition parseTags :: "jstring option \<Rightarrow> jstring list" where
  "parseTags tagsString =
     (if \<not> text_truthy tagsString then []
      else filter (\<lambda>t. t \<noteq> []) (map trim (split_tags (the tagsString))))"

definition filterByTag :: "host \<Rightarrow> pricing_model list \<Rightarrow> jstring \<Rightarrow> pricing_model list" where
  "filterByTag h models tag =
     (if tag = FILTER_ALL then models
      else let tagLower = host_lower h tag
           in filter (\<lambda>m. text_truthy (pm_tags m) \<and> tagLower \<in> set (map (host_lower h) (parseTags (pm_tags m)))) models)"

definition extractAllTags :: "host \<Rightarrow> collation \<Rightarrow> pricing_model list \<Rightarrow> jstring list" where
  "extractAllTags h le models =
     (let tags = concat (map (\<lambda>m. map (host_lower h) (parseTags (pm_tags m))) models)
      in map fst (sort_entries le (map (\<lambda>t. (t, ())) (rev (remdups (rev tags))))))"

definition price_or_0 :: "pricing_model \<Rightarrow> jsnum" where
  "price_or_0 m = (case pm_model_price m of Some p \<Rightarrow> if p = NaN \<or> js_eq p (Fin 0) then Fin 0 else p | None \<Rightarrow> Fin 0)"

definition getModelPrice :: "pricing_model \<Rightarrow> jsnum" where
  "getModelPrice m = (if quota_is m 0 then pm_model_ratio m else price_or_0 m)"

definition not_positive :: "jsnum \<Rightarrow> bool" where
  "not_positive x \<longleftrightarrow> \<not> js_lt (Fin 0) x"

definition sortModels :: "collation \<Rightarrow> pricing_model list \<Rightarrow> jstring \<Rightarrow> pricing_model list" where
  "sortModels le models sortBy =
     (if sortBy = js ''name''
      then stable_sort (\<lambda>a b. le (or_default [] (pm_model_name a)) (or_default [] (pm_model_name b))) models
      else if sortBy = js ''price-low''
      then stable_sort (\<lambda>a b. not_positive (js_sub (getModelPrice a) (getModelPrice b))) models
      else if sortBy = js ''price-high''
      then stable_sort (\<lambda>a b. not_positive (js_sub (getModelPrice b) (getModelPrice a))) models
      else models)"

record model_filters =
  mf_search :: jstring
  mf_vendor :: jstring
  mf_group :: jstring
  mf_quotaType :: jstring
  mf_endpointType :: jstring
  mf_tag :: jstring
  mf_sortBy :: jstring

definition filterAndSortModels ::
  "host \<Rightarrow> collation \<Rightarrow> pricing_model list \<Rightarrow> model_filters \<Rightarrow> pricing_model list" where
  "filterAndSortModels h le models f =
     (let r1 = filterBySearch h models (mf_search f);
          r2 = filterByVendor r1 (mf_vendor f);
          r3 = filterByGroup r2 (mf_group f);
          r4 = filterByQuotaType r3 (mf_quotaType f);
          r5 = filterByEndpointType r4 (mf_endpointType f);
          r6 = filterByTag h r5 (mf_tag f)
      in sortModels le r6 (mf_sortBy f))"

section \<open>Prices of models\<close>

text \<open>
  \<open>stripTrailingZeros\<close>.  The pattern \<^verbatim>\<open>/^([^\d-]*)([-\d,]+\.?\d*)(k?)$/\<close> is matched by hand: the
  symbol ends at the first digit or minus sign, and without one the number cannot be read.
\<close>

definition price_parts :: "jstring \<Rightarrow> (jstring \<times> jstring \<times> jstring) option" where
  "price_parts formatted =
     (let symbol = takeWhile (\<lambda>c. \<not> is_digit c \<and> c \<noteq> 45) formatted;
          t = drop (length symbol) formatted;
          whole = takeWhile (\<lambda>c. is_digit c \<or> c = 45 \<or> c = 44) t;
          t1 = drop (length whole) t;
          point = (if t1 \<noteq> [] \<and> hd t1 = 46 then [46] else []);
          t2 = drop (length point) t1;
          fraction = takeWhile is_digit t2;
          suffix = drop (length fraction) t2
      in if whole \<noteq> [] \<and> (suffix = [] \<or> suffix = js ''k'')
         then Some (symbol, whole @ point @ fraction, suffix) else None)"

text \<open>\<open>Number.parseFloat\<close> on a text of digits, minus signs and a point.\<close>

definition parse_float :: "jstring \<Rightarrow> jsnum" where
  "parse_float s =
     (let neg = (s \<noteq> [] \<and> hd s = 45);
          t = (if neg then tl s else s);
          whole = takeWhile is_digit t;
          t1 = drop (length whole) t;
          fraction = (if t1 \<noteq> [] \<and> hd t1 = 46 then takeWhile is_digit (tl t1) else [])
      in if whole = [] \<and> fraction = [] then NaN
         else let x = round_double (of_nat (nat_of_digits (whole @ fraction)) / 10 ^ length fraction)
              in if neg then js_neg x else x)"

text \<open>\<^verbatim>\<open>.replace(/\.?0+$/, '')\<close>\<close>

definition strip_point_zeros :: "jstring \<Rightarrow> jstring" where
  "strip_point_zeros s =
     (let t = strip_zeros s in if t \<noteq> s \<and> t \<noteq> [] \<and> last t = 46 then butlast t else t)"

definition stripTrailingZeros :: "jstring \<Rightarrow> jstring" where
  "stripTrailingZeros formatted =
     (case price_parts formatted of
        None \<Rightarrow> formatted
      | Some (symbol, number, suffix) \<Rightarrow>
          let parsed = parse_float (filter (\<lambda>c. c \<noteq> 44) number);
              result = num_to_string parsed
          in if parsed = NaN then formatted
             else symbol @ (if 101 \<in> set result then strip_point_zeros (to_fixed parsed 20) else result) @ suffix)"

definition hasRatio :: "jsnum option \<Rightarrow> bool" where
  "hasRatio value = (case value of Some x \<Rightarrow> is_finite x | None \<Rightarrow> False)"

definition calculateTokenPrice :: "pricing_model \<Rightarrow> price_type \<Rightarrow> jsnum \<Rightarrow> jsnum" where
  "calculateTokenPrice m type0 ratio =
     (let base = js_mul (js_mul (pm_model_ratio m) (Fin 2)) ratio;
          scaled = (\<lambda>r. if hasRatio r then js_mul base (the r) else NaN)
      in case type0 of
           Price_input \<Rightarrow> base
         | Price_output \<Rightarrow> js_mul base (pm_completion_ratio m)
         | Price_cache \<Rightarrow> scaled (pm_cache_ratio m)
         | Price_create_cache \<Rightarrow> scaled (pm_create_cache_ratio m)
         | Price_image \<Rightarrow> scaled (pm_image_ratio m)
         | Price_audio_input \<Rightarrow> scaled (pm_audio_ratio m)
         | Price_audio_output \<Rightarrow>
             if hasRatio (pm_audio_ratio m) \<and> hasRatio (pm_audio_completion_ratio m)
             then js_mul (js_mul base (the (pm_audio_ratio m))) (the (pm_audio_completion_ratio m)) else NaN)"

definition applyRechargeRate :: "jsnum \<Rightarrow> bool \<Rightarrow> jsnum \<Rightarrow> jsnum \<Rightarrow> jsnum" where
  "applyRechargeRate price showWithRecharge priceRate usdExchangeRate =
     (if \<not> showWithRecharge then price else js_div (js_mul price priceRate) usdExchangeRate)"

text \<open>The recharge setting of the page: \<open>showWithRecharge\<close>, \<open>priceRate\<close>, \<open>usdExchangeRate\<close>.\<close>

record recharge =
  rc_show :: bool
  rc_priceRate :: jsnum
  rc_usdExchangeRate :: jsnum

definition recharged :: "recharge \<Rightarrow> jsnum \<Rightarrow> jsnum" where
  "recharged rc price = applyRechargeRate price (rc_show rc) (rc_priceRate rc) (rc_usdExchangeRate rc)"

definition price_options :: "nat \<Rightarrow> bool option \<Rightarrow> format_options" where
  "price_options small showSymbol =
     \<lparr>fo_digitsLarge = Some 4, fo_digitsSmall = Some small, fo_abbreviate = Some False,
      fo_minimumNonZero = None, fo_compact = None, fo_showSymbol = showSymbol, fo_locale = None\<rparr>"

definition formatPrice ::
  "intl \<Rightarrow> stored_currency option \<Rightarrow> pricing_model \<Rightarrow> price_type \<Rightarrow> token_unit \<Rightarrow> recharge
   \<Rightarrow> jstring option \<Rightarrow> bool \<Rightarrow> jstring" where
  "formatPrice i store m type0 tokenUnit rc selectedGroup showCurrencySymbol =
     (if quota_is m 1 then js ''-''
      else let price = recharged rc (calculateTokenPrice m type0 (getDisplayGroupRatio m selectedGroup))
           in formatBillingCurrencyFromUSD i store (Some (js_div price (TOKEN_UNIT_DIVISORS tokenUnit)))
                (Some (price_options 6 (Some showCurrencySymbol))))"

definition formatGroupPrice ::
  "intl \<Rightarrow> stored_currency option \<Rightarrow> pricing_model \<Rightarrow> jstring \<Rightarrow> price_type \<Rightarrow> token_unit \<Rightarrow> recharge
   \<Rightarrow> (jstring \<times> jsnum) list \<Rightarrow> jstring" where
  "formatGroupPrice i store m group0 type0 tokenUnit rc groupRatio =
     (if quota_is m 1 then js ''-''
      else let price = recharged rc (calculateTokenPrice m type0 (getConfiguredGroupRatio groupRatio group0))
           in formatBillingCurrencyFromUSD i store (Some (js_div price (TOKEN_UNIT_DIVISORS tokenUnit)))
                (Some (price_options 6 None)))"

definition formatFixedPrice ::
  "intl \<Rightarrow> stored_currency option \<Rightarrow> pricing_model \<Rightarrow> jstring \<Rightarrow> recharge \<Rightarrow> (jstring \<times> jsnum) list \<Rightarrow> jstring" where
  "formatFixedPrice i store m group0 rc groupRatio =
     (if \<not> quota_is m 1 then js ''-''
      else formatBillingCurrencyFromUSD i store
             (Some (recharged rc (js_mul (price_or_0 m) (getConfiguredGroupRatio groupRatio group0))))
             (Some (price_options 4 None)))"

definition formatRequestPrice ::
  "intl \<Rightarrow> stored_currency option \<Rightarrow> pricing_model \<Rightarrow> recharge \<Rightarrow> jstring option \<Rightarrow> bool \<Rightarrow> jstring" where
  "formatRequestPrice i store m rc selectedGroup showCurrencySymbol =
     (if \<not> quota_is m 1 then js ''-''
      else formatBillingCurrencyFromUSD i store
             (Some (recharged rc (js_mul (price_or_0 m) (getDisplayGroupRatio m selectedGroup))))
             (Some (price_options 4 (Some showCurrencySymbol))))"

end
