(* ===== verification/Price_Labels.thy ===== *)
theory Price_Labels
  imports Pricing_Model Condition_Display
begin

text \<open>
  The words of the task price table and the row a settlement hit: \<open>lib/localized-text.ts\<close>,
  \<open>task-price-display.ts\<close> and \<open>breakdown-tier-match.ts\<close>.
\<close>

section \<open>Localised text\<close>

definition locale_tag :: "host \<Rightarrow> jstring \<Rightarrow> jstring" where
  "locale_tag h s = host_lower h (map (\<lambda>c. if c = 95 then 45 else c) (trim s))"

definition add_key :: "jstring \<Rightarrow> jstring list \<Rightarrow> jstring list" where
  "add_key tag ks = (if tag \<noteq> [] \<and> tag \<notin> set ks then ks @ [tag] else ks)"

definition localeFallbackKeys :: "host \<Rightarrow> jstring \<Rightarrow> jstring list" where
  "localeFallbackKeys h language =
     (let normalized = locale_tag h language;
          k1 = add_key normalized [];
          k2 = (if normalized = js ''zhcn'' then add_key (js ''zh-cn'') k1 else k1);
          k3 = (if normalized = js ''zhtw'' then add_key (js ''zh-tw'') k2 else k2);
          k4 = (if 45 \<in> set normalized then add_key (takeWhile (\<lambda>c. c \<noteq> 45) normalized) k3
                else if normalized = js ''zhcn'' \<or> normalized = js ''zhtw'' then add_key (js ''zh'') k3
                else k3)
      in add_key (js ''en'') k4)"

definition add_text :: "host \<Rightarrow> jstring \<times> jstring \<Rightarrow> (jstring \<times> jstring) list \<Rightarrow> (jstring \<times> jstring) list" where
  "add_text h entry texts =
     (case entry of (key, t) \<Rightarrow>
        if trim t = [] \<or> locale_tag h key = [] then texts else set_entry (locale_tag h key) t texts)"

definition resolveLocalizedText :: "host \<Rightarrow> collation \<Rightarrow> localized option \<Rightarrow> jstring \<Rightarrow> jstring" where
  "resolveLocalizedText h le value language =
     (case value of
        None \<Rightarrow> []
      | Some (Plain_text t) \<Rightarrow> t
      | Some (Text_map es) \<Rightarrow>
          let texts = fold (add_text h) es []
          in if texts = [] then []
             else case List.map_filter (map_of texts) (localeFallbackKeys h language) of
                    hit # _ \<Rightarrow> hit
                  | [] \<Rightarrow> snd (hd (sort_entries le texts)))"

section \<open>Labels of task prices\<close>

definition taskPriceLabel :: "host \<Rightarrow> collation \<Rightarrow> localized option \<Rightarrow> jstring \<Rightarrow> jstring \<Rightarrow> jstring" where
  "taskPriceLabel h le description0 field language =
     (let named = (case description0 of
                     Some (Text_map es) \<Rightarrow>
                       let en = (case map_of es (js ''en'') of Some t \<Rightarrow> trim t | None \<Rightarrow> [])
                       in Some (Text_map (set_entry (js ''en'') (if en \<noteq> [] then en else field) es))
                   | d \<Rightarrow> d);
          label = resolveLocalizedText h le named language
      in if label \<noteq> [] then label else field)"

definition taskEnumLabel :: "host \<Rightarrow> collation \<Rightarrow> field_schema option \<Rightarrow> jstring \<Rightarrow> jstring \<Rightarrow> jstring" where
  "taskEnumLabel h le def value language =
     taskPriceLabel h le (case def of Some d \<Rightarrow> map_of (fd_enumLabels d) value | None \<Rightarrow> None) value language"

definition taskUsageUnitLabel :: "host \<Rightarrow> collation \<Rightarrow> field_schema option \<Rightarrow> jstring \<Rightarrow> jstring \<Rightarrow> jstring" where
  "taskUsageUnitLabel h le def language fallback =
     (case def of
        None \<Rightarrow> fallback
      | Some d \<Rightarrow>
          if uf_unit d \<noteq> Some (js ''count'') then fallback
          else let label = resolveLocalizedText h le (fd_unitLabel d) language
               in if label \<noteq> [] then label else fallback)"

definition middle_dot :: jstring where
  "middle_dot = [32, 183, 32]"

definition pricing_condition ::
  "host \<Rightarrow> collation \<Rightarrow> wording \<Rightarrow> labelled_schema \<Rightarrow> jstring \<Rightarrow> jstring \<times> jstring \<Rightarrow> jstring" where
  "pricing_condition h le w schema language condition =
     (case condition of (field, value) \<Rightarrow>
        let def = map_of schema field;
            label = taskPriceLabel h le (case def of Some d \<Rightarrow> fd_description d | None \<Rightarrow> None) field language;
            optionLabel = taskEnumLabel h le def value language
        in if (case def of Some d \<Rightarrow> uf_type d = Some (js ''boolean'') | None \<Rightarrow> False)
           then label @ js '': '' @ w_t w (if value = js ''true'' then js ''Yes'' else js ''No'') []
           else if optionLabel \<noteq> value then optionLabel else label @ js '': '' @ optionLabel)"

definition taskPricingConditions ::
  "host \<Rightarrow> collation \<Rightarrow> wording \<Rightarrow> (jstring \<times> jstring) list \<Rightarrow> labelled_schema option \<Rightarrow> jstring \<Rightarrow> jstring" where
  "taskPricingConditions h le w conditions schema language =
     join middle_dot (map (pricing_condition h le w (or_default [] schema) language) conditions)"

text \<open>The conditions in words; \<open>[usage, time].filter(Boolean)\<close> leaves out what is empty.\<close>

definition taskTierConditions ::
  "host \<Rightarrow> collation \<Rightarrow> wording \<Rightarrow> compiled_cache \<Rightarrow> task_display_tier \<Rightarrow> labelled_schema option \<Rightarrow> jstring
   \<Rightarrow> jstring \<times> compiled_cache" where
  "taskTierConditions h le w cache tier schema language =
     (let usage = taskPricingConditions h le w (tk_conditions tier) schema language
      in if text_truthy (tk_condition_text tier)
         then let source = the (tk_condition_text tier)
              in case formatBillingCondition w cache source of
                   (r, cache') \<Rightarrow>
                     (join middle_dot (filter (\<lambda>t. t \<noteq> []) [usage, or_default source r]), cache')
         else (join middle_dot (filter (\<lambda>t. t \<noteq> []) [usage, []]), cache))"

definition hasSimpleTaskPricing ::
  "compiled_cache \<Rightarrow> pricing_model \<Rightarrow> (thrown + bool) \<times> compiled_cache" where
  "hasSimpleTaskPricing cache m =
     (if pm_billing_usage_schema m = None \<or> pm_billing_mode m \<noteq> Some (js ''tiered_expr'')
         \<or> \<not> text_truthy (pm_billing_expr m)
      then (Inr False, cache)
      else case splitBillingExprAndRequestRules cache (the (pm_billing_expr m)) of
             (Inl e, cache1) \<Rightarrow> (Inl e, cache1)
           | (Inr s, cache1) \<Rightarrow>
               if trim (se_requestRuleExpr s) \<noteq> [] then (Inr False, cache1)
               else (case getTaskPricingDisplayTiers cache1 (Some (se_billingExpr s))
                            (map_option plain_schema (pm_billing_usage_schema m)) of
                       (r, cache2) \<Rightarrow>
                         (bnd r (\<lambda>tiers. Inr (length tiers = 1 \<and> \<not> text_truthy (tk_condition_text (hd tiers)))), cache2)))"

fun missing_usage :: "usage_schema option \<Rightarrow> expr \<Rightarrow> bool \<Rightarrow> thrown + bool" where
  "missing_usage schema (Call f args a b) missing0 =
     (if f \<noteq> js ''u'' then Inr missing0
      else case schema of
             None \<Rightarrow> Inr True
           | Some sch \<Rightarrow>
               (case args of
                  [] \<Rightarrow> Inl missing_argument
                | Literal (LStr key) i c d # rest \<Rightarrow> Inr (missing0 \<or> key \<notin> fst ` set sch)
                | _ \<Rightarrow> Inr True))"
| "missing_usage schema node missing0 = Inr missing0"

definition pricingDisplayFallbackKey ::
  "compiled_cache \<Rightarrow> jstring \<Rightarrow> usage_schema option \<Rightarrow> (thrown + jstring) \<times> compiled_cache" where
  "pricingDisplayFallbackKey cache expression0 schema =
     (case compileBillingExpression cache expression0 of
        (r, cache') \<Rightarrow>
          (bnd (case r of Ready compiled \<Rightarrow> visitExpression (cb_ast compiled) (missing_usage schema) False
                        | Failure f \<Rightarrow> Inr False)
             (\<lambda>missing0. Inr (if missing0
                then js ''Task usage metadata is unavailable. Pricing details cannot be displayed.''
                else js ''This expression cannot be expanded into a price table. View the original expression below.'')),
           cache'))"

section \<open>The row a settlement hit\<close>

datatype dynamic_tier = Token_row parsed_tier | Task_row task_display_tier

definition tier_label :: "dynamic_tier \<Rightarrow> jstring" where
  "tier_label t = (case t of Token_row p \<Rightarrow> pt_label p | Task_row d \<Rightarrow> tk_label d)"

definition tierMatchesNormalizedLabel :: "host \<Rightarrow> dynamic_tier \<Rightarrow> jstring \<Rightarrow> bool" where
  "tierMatchesNormalizedLabel h tier label = (label \<noteq> [] \<and> normalizeTierLabel h (Some (tier_label tier)) = label)"

definition unit_rejects :: "dynamic_tier \<Rightarrow> billing_unit option \<Rightarrow> jsnum option \<Rightarrow> bool" where
  "unit_rejects tier billingUnit fixedPrice =
     (case (tier, billingUnit) of
        (Token_row p, Some u) \<Rightarrow>
          or_default Unit_token (pt_unit p) \<noteq> u
          \<or> (u = Unit_request \<and> (case fixedPrice of
               Some x \<Rightarrow> (case pt_fixedPrice p of Some y \<Rightarrow> \<not> js_eq y x | None \<Rightarrow> True) | None \<Rightarrow> False))
      | _ \<Rightarrow> False)"

text \<open>\<open>String(usageFacts[field])\<close>, \<open>undefined\<close> for a missing fact.\<close>

definition usage_fact_text :: "js_object \<Rightarrow> jstring \<Rightarrow> jstring" where
  "usage_fact_text facts field = (case map_of facts field of Some v \<Rightarrow> fact_text v | None \<Rightarrow> js ''undefined'')"

definition shared_label_matched :: "task_display_tier \<Rightarrow> js_object option \<Rightarrow> bool" where
  "shared_label_matched d usageFacts =
     (\<not> text_truthy (tk_condition_text d) \<and> usageFacts \<noteq> None \<and> tk_conditions d \<noteq> []
      \<and> list_all (\<lambda>(field, value). usage_fact_text (the usageFacts) field = value) (tk_conditions d))"

definition facts_matched :: "dynamic_tier \<Rightarrow> js_object option \<Rightarrow> bool" where
  "facts_matched tier usageFacts =
     (case (tier, usageFacts) of
        (Task_row d, Some facts) \<Rightarrow>
          tk_conditions d \<noteq> [] \<and> \<not> text_truthy (tk_condition_text d)
          \<and> list_all (\<lambda>(field, value). case map_of facts field of Some v \<Rightarrow> fact_text v = value | None \<Rightarrow> False) (tk_conditions d)
      | _ \<Rightarrow> False)"

definition isBreakdownTierMatched ::
  "host \<Rightarrow> dynamic_tier \<Rightarrow> dynamic_tier list \<Rightarrow> jstring option \<Rightarrow> js_object option \<Rightarrow> billing_unit option
   \<Rightarrow> jsnum option \<Rightarrow> bool" where
  "isBreakdownTierMatched h tier tiers matchedTierLabel usageFacts billingUnit fixedPrice =
     (if unit_rejects tier billingUnit fixedPrice then False
      else let label = normalizeTierLabel h matchedTierLabel;
               hits = filter (\<lambda>t. tierMatchesNormalizedLabel h t label) tiers
           in if tierMatchesNormalizedLabel h tier label
              then (case tier of
                      Task_row d \<Rightarrow> if 1 < length hits then shared_label_matched d usageFacts else True
                    | Token_row p \<Rightarrow> True)
              else if hits \<noteq> [] then False
              else facts_matched tier usageFacts)"

end
