(* ===== verification/Dynamic_Price.thy ===== *)
theory Dynamic_Price
  imports Price_Labels
begin

text \<open>
  \<open>dynamic-price.ts\<close>: the prices on the card of a model with an expression, or with one expression
  for each provider plugin.

  A computation passes the cache of compiled expressions and may throw; \<open>bind_run\<close> sequences two of
  them.  The two functions that call themselves on a model without variants are split into the part
  for such a model and the part that combines the variants.
\<close>

type_synonym 'a run = "compiled_cache \<Rightarrow> (thrown + 'a) \<times> compiled_cache"

definition ret_run :: "'a \<Rightarrow> 'a run" where
  "ret_run x cache = (Inr x, cache)"

definition bind_run :: "'a run \<Rightarrow> ('a \<Rightarrow> 'b run) \<Rightarrow> 'b run" where
  "bind_run m f cache = (case m cache of (Inl e, cache') \<Rightarrow> (Inl e, cache') | (Inr x, cache') \<Rightarrow> f x cache')"

fun map_run :: "('a \<Rightarrow> 'b run) \<Rightarrow> 'a list \<Rightarrow> 'b list run" where
  "map_run f [] = ret_run []"
| "map_run f (x # xs) = bind_run (f x) (\<lambda>y. bind_run (map_run f xs) (\<lambda>ys. ret_run (y # ys)))"

text \<open>\<open>Array.prototype.some\<close> stops at the first hit.\<close>

fun some_run :: "('a \<Rightarrow> bool run) \<Rightarrow> 'a list \<Rightarrow> bool run" where
  "some_run f [] = ret_run False"
| "some_run f (x # xs) = bind_run (f x) (\<lambda>b. if b then ret_run True else some_run f xs)"

section \<open>Options, entries and labels\<close>

record price_options_in =
  po_tokenUnit :: token_unit
  po_showCurrencySymbol :: "bool option"
  po_showRechargePrice :: "bool option"
  po_priceRate :: "jsnum option"
  po_usdExchangeRate :: "jsnum option"
  po_groupRatioMultiplier :: "jsnum option"
  po_usageSchema :: "labelled_schema option"
  po_now :: "date option"

datatype label_kind = Kind_i18n | Kind_schema

record price_entry =
  de_key :: jstring
  de_field :: jstring
  de_label :: jstring
  de_shortLabel :: jstring
  de_labelKind :: label_kind
  de_value :: jsnum
  de_formatted :: jstring
  de_formattedRange :: "jstring option"
  de_minValue :: "jsnum option"
  de_maxValue :: "jsnum option"
  de_unit :: jstring
  de_unitLabel :: "localized option"
  de_variable :: "billing_var option"
  de_description :: "localized option"

record pricing_summary =
  su_tiers :: "dynamic_tier list"
  su_tier :: "dynamic_tier option"
  su_tierCount :: nat
  su_hasRequestRules :: bool
  su_isSpecialExpression :: bool
  su_rawExpression :: jstring
  su_entries :: "price_entry list"
  su_primaryEntries :: "price_entry list"
  su_secondaryEntries :: "price_entry list"
  su_isTaskUsage :: bool
  su_isTimePricing :: bool
  su_isMixedBilling :: bool
  su_providerCount :: "nat option"
  su_hasUnconfiguredProviders :: bool

definition getTaskUsageQuantityUnitLabelKey :: "jstring option \<Rightarrow> jstring" where
  "getTaskUsageQuantityUnitLabelKey u =
     (if u = Some (js ''second'') then js ''s'' else if u = Some (js ''token'') then js ''token (unit)''
      else if u = Some (js ''credit'') then js ''credit'' else js ''unit'')"

definition getTaskUsagePriceUnitLabelKey :: "jstring option \<Rightarrow> jstring" where
  "getTaskUsagePriceUnitLabelKey u =
     (if u = Some (js ''second'') then js ''second'' else if u = Some (js ''token'') then js ''1M token''
      else if u = Some (js ''credit'') then js ''credit'' else js ''unit'')"

definition getDynamicPriceUnitLabelKey :: "price_entry \<Rightarrow> jstring option" where
  "getDynamicPriceUnitLabelKey e =
     (let u = de_unit e
      in if u = js ''second'' then Some (js ''s'') else if u = js ''count'' then Some (js ''unit'')
         else if u = js ''credit'' then Some (js ''credit'')
         else if u = js ''token'' \<and> de_variable e = None then Some (js ''1M token'')
         else if u = js ''request'' then Some (js ''request'')
         else if u = js ''image'' then Some (js ''image'') else None)"

definition PRIMARY_DYNAMIC_FIELDS :: "jstring list" where
  "PRIMARY_DYNAMIC_FIELDS = [js ''inputPrice'', js ''outputPrice'']"

definition getTaskPricingUnit :: "collation \<Rightarrow> pricing_model \<Rightarrow> jstring option" where
  "getTaskPricingUnit le m =
     (case getTaskNumberFields le (map_option plain_schema (pm_billing_usage_schema m)) of
        [] \<Rightarrow> None | (field, def) # _ \<Rightarrow> uf_unit def)"

definition getDynamicDisplayGroupRatio :: "pricing_model \<Rightarrow> jstring option \<Rightarrow> jsnum" where
  "getDynamicDisplayGroupRatio m selectedGroup = getDisplayGroupRatio m selectedGroup"

section \<open>Unit prices\<close>

text \<open>What the formatting reads besides the price: the host's formats and the stored configuration.\<close>

type_synonym currency_env = "intl \<times> stored_currency option"

definition display_price :: "price_options_in \<Rightarrow> jsnum \<Rightarrow> jsnum" where
  "display_price o0 priceUSD =
     applyRechargeRate priceUSD (or_default False (po_showRechargePrice o0))
       (or_default (Fin 1) (po_priceRate o0)) (or_default (Fin 1) (po_usdExchangeRate o0))"

definition format_unit_price :: "currency_env \<Rightarrow> price_options_in \<Rightarrow> jsnum \<Rightarrow> jstring" where
  "format_unit_price env o0 priceUSD =
     formatBillingCurrencyFromUSD (fst env) (snd env) (Some (display_price o0 priceUSD))
       (Some (price_options 6 (Some (or_default True (po_showCurrencySymbol o0)))))"

definition formatDynamicUnitPrice :: "currency_env \<Rightarrow> jsnum \<Rightarrow> price_options_in \<Rightarrow> jstring" where
  "formatDynamicUnitPrice env valuePerMillionTokens o0 =
     format_unit_price env o0
       (js_div (js_mul valuePerMillionTokens (or_default (Fin 1) (po_groupRatioMultiplier o0)))
          (TOKEN_UNIT_DIVISORS (po_tokenUnit o0)))"

definition formatTaskUsageUnitPrice :: "currency_env \<Rightarrow> jsnum \<Rightarrow> price_options_in \<Rightarrow> jstring" where
  "formatTaskUsageUnitPrice env valuePerUnit o0 =
     format_unit_price env o0 (js_mul valuePerUnit (or_default (Fin 1) (po_groupRatioMultiplier o0)))"

section \<open>Tiers and rules\<close>

definition plain_pricing_tiers :: "host \<Rightarrow> pricing_model \<Rightarrow> dynamic_tier list run" where
  "plain_pricing_tiers h m =
     (if \<not> isDynamicPricingModel m then ret_run []
      else bind_run (\<lambda>c. splitBillingExprAndRequestRules c (or_default [] (pm_billing_expr m))) (\<lambda>s.
             if isTaskUsagePricingModel m
             then bind_run (\<lambda>c. getTaskPricingDisplayTiers c (Some (se_billingExpr s))
                              (map_option plain_schema (pm_billing_usage_schema m)))
                    (\<lambda>ts. ret_run (map Task_row ts))
             else bind_run (\<lambda>c. parseTiersFromExpr h c (se_billingExpr s)) (\<lambda>ts. ret_run (map Token_row ts))))"

definition getDynamicPricingTiers :: "host \<Rightarrow> pricing_model \<Rightarrow> dynamic_tier list run" where
  "getDynamicPricingTiers h m =
     (if has_variants m
      then bind_run (map_run (\<lambda>v. plain_pricing_tiers h (withPluginPricing m v)) (variants_of m))
             (\<lambda>tss. ret_run (concat tss))
      else plain_pricing_tiers h m)"

definition plain_request_rules :: "pricing_model \<Rightarrow> bool run" where
  "plain_request_rules m =
     (if \<not> isDynamicPricingModel m then ret_run False
      else bind_run (\<lambda>c. splitBillingExprAndRequestRules c (or_default [] (pm_billing_expr m))) (\<lambda>s.
           bind_run (\<lambda>c. (tryParseRequestRuleExpr (se_requestRuleExpr s), c)) (\<lambda>groups.
             if or_default [] groups \<noteq> [] then ret_run True
             else (\<lambda>c. case compileBillingExpression c (or_default [] (pm_billing_expr m)) of
                          (Ready compiled, c') \<Rightarrow> (Inr (cb_rules compiled \<noteq> []), c')
                        | (Failure f, c') \<Rightarrow> (Inr False, c')))))"

definition hasDynamicRequestRules :: "pricing_model \<Rightarrow> bool run" where
  "hasDynamicRequestRules m =
     (if has_variants m then some_run (\<lambda>v. plain_request_rules (withPluginPricing m v)) (variants_of m)
      else plain_request_rules m)"

section \<open>Entries of a tier\<close>

definition usable_price :: "jsnum \<Rightarrow> bool" where
  "usable_price x \<longleftrightarrow> is_finite x \<and> \<not> js_lt x (Fin 0)"

definition number_of :: "(jstring \<times> jsnum) list \<Rightarrow> jstring \<Rightarrow> jsnum" where
  "number_of prices field = or_default NaN (map_of prices field)"

text \<open>An entry with the fields that every branch sets.\<close>

definition basic_entry ::
  "jstring \<Rightarrow> jstring \<Rightarrow> jstring \<Rightarrow> jstring \<Rightarrow> label_kind \<Rightarrow> jsnum \<Rightarrow> jstring \<Rightarrow> jstring \<Rightarrow> price_entry" where
  "basic_entry key field label short kind value formatted unit0 =
     \<lparr>de_key = key, de_field = field, de_label = label, de_shortLabel = short, de_labelKind = kind, de_value = value,
      de_formatted = formatted, de_formattedRange = None, de_minValue = None, de_maxValue = None, de_unit = unit0,
      de_unitLabel = None, de_variable = None, de_description = None\<rparr>"

definition fixed_entry :: "currency_env \<Rightarrow> price_options_in \<Rightarrow> bool \<Rightarrow> jsnum \<Rightarrow> price_entry" where
  "fixed_entry env o0 imageCount x =
     basic_entry (js ''fixed'') (js ''fixedPrice'')
       (if imageCount then js ''Price per image'' else js ''Price per request'')
       (if imageCount then js ''Per image'' else js ''Per-call'') Kind_i18n x
       (formatTaskUsageUnitPrice env x o0) (if imageCount then js ''image'' else js ''request'')"

definition usage_entry ::
  "currency_env \<Rightarrow> price_options_in \<Rightarrow> labelled_schema \<Rightarrow> task_display_tier \<Rightarrow> jstring \<times> usage_field
   \<Rightarrow> price_entry list" where
  "usage_entry env o0 schema tier fd =
     (case fd of (field, def) \<Rightarrow>
        let value = number_of (tk_unit_prices tier) field
        in if \<not> usable_price value \<or> \<not> text_truthy (uf_unit def) then []
           else [(basic_entry field field field field Kind_schema value (formatTaskUsageUnitPrice env value o0)
                    (the (uf_unit def)))
                   \<lparr>de_unitLabel := (case map_of schema field of Some d \<Rightarrow> fd_unitLabel d | None \<Rightarrow> None),
                    de_description := (case map_of schema field of Some d \<Rightarrow> fd_description d | None \<Rightarrow> None)\<rparr>])"

definition constant_entry :: "currency_env \<Rightarrow> price_options_in \<Rightarrow> jsnum \<Rightarrow> price_entry" where
  "constant_entry env o0 x =
     basic_entry (js ''constant'') (js ''constant'') (js ''Additional charge'') (js ''Additional charge'') Kind_i18n x
       (formatTaskUsageUnitPrice env x o0) (js ''request'')"

definition token_entry ::
  "currency_env \<Rightarrow> price_options_in \<Rightarrow> (jstring \<times> jsnum) list \<Rightarrow> billing_var \<Rightarrow> price_entry list" where
  "token_entry env o0 prices variable =
     (case bv_field variable of
        None \<Rightarrow> []
      | Some field \<Rightarrow>
          let value = number_of prices field;
              five_minutes = (bv_key variable = js ''cc'' \<and> map_of prices (js ''cacheCreate1hPrice'') \<noteq> None)
          in if \<not> usable_price value then []
             else if bv_key variable = js ''cr'' \<and> \<not> js_eq value (Fin 0)
                     \<and> js_eq value (number_of prices (js ''inputPrice'')) then []
             else [(basic_entry (bv_key variable) field
                      (if five_minutes then js ''Cache Creation (5m)'' else bv_label variable)
                      (if five_minutes then js ''Cache Write (5m)'' else bv_shortLabel variable)
                      Kind_i18n value (formatDynamicUnitPrice env value o0) (js ''token''))
                     \<lparr>de_variable := Some variable\<rparr>])"

definition is_primary :: "price_entry \<Rightarrow> bool" where
  "is_primary e \<longleftrightarrow> de_field e \<in> set PRIMARY_DYNAMIC_FIELDS"

definition token_entries :: "currency_env \<Rightarrow> price_options_in \<Rightarrow> (jstring \<times> jsnum) list \<Rightarrow> price_entry list" where
  "token_entries env o0 prices =
     stable_sort (\<lambda>a b. is_primary a \<or> \<not> is_primary b)
       (concat (map (token_entry env o0 prices) BILLING_PRICING_VARS))"

definition getDynamicPriceEntries ::
  "collation \<Rightarrow> currency_env \<Rightarrow> dynamic_tier option \<Rightarrow> price_options_in \<Rightarrow> price_entry list" where
  "getDynamicPriceEntries le env tier o0 =
     (case tier of
        None \<Rightarrow> []
      | Some (Token_row p) \<Rightarrow>
          (case (pt_unit p, pt_fixedPrice p) of
             (Some Unit_request, Some x) \<Rightarrow> [fixed_entry env o0 (pt_imageCount p) x]
           | _ \<Rightarrow> token_entries env o0 (pt_prices p))
      | Some (Task_row d) \<Rightarrow>
          (case po_usageSchema o0 of
             Some schema \<Rightarrow>
               concat (map (usage_entry env o0 schema d) (getTaskNumberFields le (Some (plain_schema schema))))
               @ (if js_lt (Fin 0) (tk_constant d) then [constant_entry env o0 (tk_constant d)] else [])
           | None \<Rightarrow> token_entries env o0 []))"

section \<open>The summary of one expression\<close>

definition is_per_call :: "price_entry \<Rightarrow> bool" where
  "is_per_call e \<longleftrightarrow> de_unit e = js ''request'' \<or> de_unit e = js ''image''"

definition request_row :: "dynamic_tier \<Rightarrow> bool option" where
  "request_row t = (case t of Token_row p \<Rightarrow> Some (pt_unit p = Some Unit_request) | Task_row d \<Rightarrow> None)"

definition task_prices :: "dynamic_tier list \<Rightarrow> jstring \<Rightarrow> jsnum list" where
  "task_prices tiers field =
     filter usable_price (List.map_filter (\<lambda>t. case t of Task_row d \<Rightarrow> Some (number_of (tk_unit_prices d) field) | _ \<Rightarrow> None) tiers)"

definition price_range :: "jsnum list \<Rightarrow> (jsnum \<times> jsnum) option" where
  "price_range xs =
     (let lo = fold (\<lambda>x m. js_min m x) xs PosInf; hi = fold (\<lambda>x m. js_max m x) xs NegInf
      in if is_finite lo \<and> is_finite hi then Some (lo, hi) else None)"

definition range_dash :: jstring where
  "range_dash = [32, 8211, 32]"

definition range_of_prices :: "currency_env \<Rightarrow> price_options_in \<Rightarrow> jsnum \<Rightarrow> jsnum \<Rightarrow> jstring option" where
  "range_of_prices env o0 lo hi =
     (if js_eq lo hi then None
      else Some (formatTaskUsageUnitPrice env lo o0 @ range_dash @ formatTaskUsageUnitPrice env hi o0))"

definition with_range ::
  "currency_env \<Rightarrow> price_options_in \<Rightarrow> jstring list \<Rightarrow> dynamic_tier list \<Rightarrow> price_entry \<Rightarrow> price_entry" where
  "with_range env o0 fields0 tiers e =
     (if de_field e \<notin> set fields0 then e
      else case price_range (task_prices tiers (de_field e)) of
             None \<Rightarrow> e
           | Some (lo, hi) \<Rightarrow>
               e\<lparr>de_minValue := Some lo, de_maxValue := Some hi, de_formattedRange := range_of_prices env o0 lo hi\<rparr>)"

text \<open>The entries of the card: token and request tiers side by side when both occur.\<close>

definition card_entries ::
  "collation \<Rightarrow> currency_env \<Rightarrow> price_options_in \<Rightarrow> pricing_model \<Rightarrow> dynamic_tier list \<Rightarrow> dynamic_tier list
   \<Rightarrow> price_entry list \<times> bool" where
  "card_entries le env o0 m tiers summaryTiers =
     (let task0 = isTaskUsagePricingModel m;
          tier = (if summaryTiers = [] then None else Some (if task0 then last summaryTiers else hd summaryTiers));
          entries = getDynamicPriceEntries le env tier (o0\<lparr>po_usageSchema := pm_billing_usage_schema m\<rparr>)
      in if task0
         then (map (with_range env o0
                 (map fst (getTaskNumberFields le (map_option plain_schema (pm_billing_usage_schema m)))) tiers) entries, False)
         else case (find (\<lambda>t. request_row t = Some False) summaryTiers, find (\<lambda>t. request_row t = Some True) summaryTiers) of
                (Some tokenRow, Some requestRow) \<Rightarrow>
                  (getDynamicPriceEntries le env (Some tokenRow) o0 @ getDynamicPriceEntries le env (Some requestRow) o0, True)
              | _ \<Rightarrow> (entries, False))"

definition plain_summary ::
  "host \<Rightarrow> collation \<Rightarrow> currency_env \<Rightarrow> pricing_model \<Rightarrow> price_options_in \<Rightarrow> pricing_summary option run" where
  "plain_summary h le env m o0 =
     (if \<not> isDynamicPricingModel m then ret_run None
      else let task0 = isTaskUsagePricingModel m; source = or_default [] (pm_billing_expr m)
      in bind_run (plain_pricing_tiers h m) (\<lambda>tiers.
         bind_run (\<lambda>c. splitBillingExprAndRequestRules c source) (\<lambda>s.
         bind_run (if task0 then ret_run None
                   else (\<lambda>c. getCurrentTimePricingTiers h c (se_billingExpr s) (or_default (host_clock h) (po_now o0))))
           (\<lambda>timeTiers.
         bind_run (plain_request_rules m) (\<lambda>rules.
           let summaryTiers = (case timeTiers of Some ts \<Rightarrow> map Token_row ts | None \<Rightarrow> tiers);
               (entries, mixed) = card_entries le env o0 m tiers summaryTiers
           in ret_run (Some
                \<lparr>su_tiers = tiers,
                 su_tier = (if summaryTiers = [] then None
                            else Some (if task0 then last summaryTiers else hd summaryTiers)),
                 su_tierCount = length tiers, su_hasRequestRules = rules,
                 su_isSpecialExpression = (trim source \<noteq> [] \<and> tiers = []), su_rawExpression = source,
                 su_entries = entries,
                 su_primaryEntries =
                   filter (\<lambda>e. if task0 then \<not> is_per_call e else is_per_call e \<or> is_primary e) entries,
                 su_secondaryEntries =
                   filter (\<lambda>e. if task0 then is_per_call e else \<not> is_per_call e \<and> \<not> is_primary e) entries,
                 su_isTaskUsage = task0, su_isTimePricing = (timeTiers \<noteq> None), su_isMixedBilling = mixed,
                 su_providerCount = None, su_hasUnconfiguredProviders = False\<rparr>))))))"

section \<open>The summary of several providers\<close>

record entry_range =
  er_entry :: price_entry
  er_min :: jsnum
  er_max :: jsnum

definition entry_key :: "price_entry \<Rightarrow> jstring" where
  "entry_key e = de_field e @ js '':'' @ de_unit e"

definition no_unit_label :: "localized option \<Rightarrow> bool" where
  "no_unit_label l \<longleftrightarrow> l = None \<or> l = Some (Plain_text []) \<or> l = Some (Text_map [])"

definition entry_low :: "price_entry \<Rightarrow> jsnum" where
  "entry_low e = or_default (de_value e) (de_minValue e)"

definition entry_high :: "price_entry \<Rightarrow> jsnum" where
  "entry_high e = or_default (de_value e) (de_maxValue e)"

definition merged_range :: "price_entry \<Rightarrow> entry_range option \<Rightarrow> entry_range" where
  "merged_range e range0 =
     (let merged = (case range0 of Some r \<Rightarrow> er_entry r | None \<Rightarrow> e\<lparr>de_key := entry_key e\<rparr>)
      in \<lparr>er_entry = (if no_unit_label (de_unitLabel merged) then merged\<lparr>de_unitLabel := de_unitLabel e\<rparr> else merged),
          er_min = js_min (case range0 of Some r \<Rightarrow> er_min r | None \<Rightarrow> PosInf) (entry_low e),
          er_max = js_max (case range0 of Some r \<Rightarrow> er_max r | None \<Rightarrow> NegInf) (entry_high e)\<rparr>)"

definition merge_entry :: "price_entry \<Rightarrow> (jstring \<times> entry_range) list \<Rightarrow> (jstring \<times> entry_range) list" where
  "merge_entry e ranges = set_entry (entry_key e) (merged_range e (map_of ranges (entry_key e))) ranges"

definition range_entry :: "currency_env \<Rightarrow> price_options_in \<Rightarrow> entry_range \<Rightarrow> price_entry" where
  "range_entry env o0 r =
     (er_entry r)\<lparr>de_value := er_min r, de_minValue := Some (er_min r), de_maxValue := Some (er_max r),
        de_formatted := formatTaskUsageUnitPrice env (er_min r) o0,
        de_formattedRange := range_of_prices env o0 (er_min r) (er_max r)\<rparr>"

definition merge_entries :: "currency_env \<Rightarrow> price_options_in \<Rightarrow> price_entry list \<Rightarrow> price_entry list" where
  "merge_entries env o0 es = map (\<lambda>(k, r). range_entry env o0 r) (fold merge_entry es [])"

definition per_call_entries :: "currency_env \<Rightarrow> price_options_in \<Rightarrow> pricing_model \<Rightarrow> price_entry list" where
  "per_call_entries env o0 m =
     (case pm_model_price m of
        Some x \<Rightarrow>
          if quota_is m 1 \<and> list_ex (\<lambda>v. pv_billing_mode v = Some (js ''ratio'')) (variants_of m)
          then [basic_entry (js ''modelPrice'') (js ''modelPrice'') (js ''Price per request'') (js ''Per-call'') Kind_i18n x
                  (formatTaskUsageUnitPrice env x o0) (js ''request'')]
          else []
      | None \<Rightarrow> [])"

definition first_keys :: "pricing_summary list \<Rightarrow> jstring list" where
  "first_keys summaries = concat (map (\<lambda>s. map entry_key (take 1 (su_primaryEntries s))) summaries)"

definition combine_summaries ::
  "currency_env \<Rightarrow> price_options_in \<Rightarrow> pricing_model \<Rightarrow> pricing_summary list \<Rightarrow> pricing_summary" where
  "combine_summaries env o0 m summaries =
     (let perCall = per_call_entries env o0 m;
          entries = merge_entries env o0 (concat (map su_entries summaries) @ perCall);
          tiers = concat (map su_tiers summaries);
          keys = first_keys summaries
      in \<lparr>su_tiers = tiers, su_tier = (case summaries of s # _ \<Rightarrow> su_tier s | [] \<Rightarrow> None), su_tierCount = length tiers,
          su_hasRequestRules = list_ex su_hasRequestRules summaries,
          su_isSpecialExpression = (perCall = [] \<and> summaries \<noteq> [] \<and> list_all su_isSpecialExpression summaries),
          su_rawExpression = (case summaries of s # _ \<Rightarrow> su_rawExpression s | [] \<Rightarrow> []),
          su_entries = entries,
          su_primaryEntries =
            stable_sort (\<lambda>a b. de_key a \<in> set keys \<or> de_key b \<notin> set keys)
              (filter (\<lambda>e. \<not> is_per_call e \<or> de_field e = js ''modelPrice'') entries),
          su_secondaryEntries = filter (\<lambda>e. is_per_call e \<and> de_field e \<noteq> js ''modelPrice'') entries,
          su_isTaskUsage = True, su_isTimePricing = False, su_isMixedBilling = False,
          su_providerCount = (if 2 \<le> length (variants_of m) then Some (length (variants_of m)) else None),
          su_hasUnconfiguredProviders = list_ex (unconfigured_variant m) (variants_of m)\<rparr>)"

definition getDynamicPricingSummary ::
  "host \<Rightarrow> collation \<Rightarrow> currency_env \<Rightarrow> pricing_model \<Rightarrow> price_options_in \<Rightarrow> pricing_summary option run" where
  "getDynamicPricingSummary h le env m o0 =
     (if has_variants m
      then bind_run (map_run (\<lambda>v. plain_summary h le env (withPluginPricing m v) o0) (variants_of m)) (\<lambda>rs.
             ret_run (Some (combine_summaries env o0 m (List.map_filter id rs))))
      else plain_summary h le env m o0)"

section \<open>The example price\<close>

definition plain_example_price ::
  "host \<Rightarrow> collation \<Rightarrow> currency_env \<Rightarrow> pricing_model \<Rightarrow> price_options_in \<Rightarrow> (jstring \<times> jstring) option run" where
  "plain_example_price h le env m o0 =
     (if \<not> isTaskUsagePricingModel m then ret_run None
      else case (pm_billing_usage_schema m, or_default [] (pm_billing_usage_examples m)) of
             (Some schema, ex # _) \<Rightarrow>
               bind_run (\<lambda>c. splitBillingExprAndRequestRules c (or_default [] (pm_billing_expr m))) (\<lambda>s.
               bind_run (\<lambda>c. tryParseTaskVisualConfig le c (Some (se_billingExpr s)) (plain_schema schema)) (\<lambda>config.
                 case config of
                   None \<Rightarrow> ret_run None
                 | Some ts \<Rightarrow>
                     (\<lambda>c. case evaluateTaskVisualConfig h c ts (ex_facts ex) (Some (plain_schema schema)) of
                            (r, c') \<Rightarrow>
                              (Inr (map_option (\<lambda>p. (ex_label ex, formatTaskUsageUnitPrice env (pr_total p) o0)) r), c'))))
           | _ \<Rightarrow> ret_run None)"

definition getCardExamplePrice ::
  "host \<Rightarrow> collation \<Rightarrow> currency_env \<Rightarrow> pricing_model \<Rightarrow> price_options_in \<Rightarrow> (jstring \<times> jstring) option run" where
  "getCardExamplePrice h le env m o0 =
     (if has_variants m
      then (case find (\<lambda>v. pv_billing_expr v \<noteq> []) (variants_of m) of
              Some v \<Rightarrow> plain_example_price h le env (withPluginPricing m v) o0
            | None \<Rightarrow> ret_run None)
      else plain_example_price h le env m o0)"

end
