(* ===== verification/Pricing_Correct.thy ===== *)
theory Pricing_Correct
  imports Pricing_Model Runtime_Correct
begin

text \<open>
  Properties of the price list: the sign of a difference of doubles, sorting by a comparison
  function, and the ratio that is displayed for a model.
\<close>

section \<open>Comparing by subtraction\<close>

lemma round_mag_pos:
  assumes "pow2 (- 1074) \<le> a"
  shows "0 < round_mag a"
proof -
  have a: "0 < a" using assms pow2_pos [of "- 1074"] by linarith
  have "ulp a \<le> a"
  proof (cases "- 1074 \<le> ilog 2 a - 52")
    case True
    then have "ulp a = pow2 (ilog 2 a - 52)" by (simp only: ulp_def max_absorb1)
    also have "\<dots> \<le> pow2 (ilog 2 a)" by (rule pow2_mono) simp
    also have "\<dots> \<le> a" by (rule ilog_bounds(1) [OF a])
    finally show ?thesis .
  qed (use assms in \<open>simp add: ulp_def max_def\<close>)
  then have "1 \<le> round_half_even (a / ulp a)" using ulp_pos [of a] by (intro round_half_even_ge) simp
  then show ?thesis by (simp add: round_mag_def)
qed

lemma dyadic_multiple: "dyadic x \<Longrightarrow> \<exists>n. x = of_int n * pow2 (- 1074)"
proof -
  assume "dyadic x"
  then obtain n k where x: "x = of_int n * pow2 k" and k: "- 1074 \<le> k" by (auto simp: dyadic_def)
  have "pow2 k = of_int (2 ^ nat (k + 1074)) * pow2 (- 1074)"
    using k pow2_add [of "k + 1074" "- 1074"] by (simp add: pow2_def [of "k + 1074"])
  with x show ?thesis by (intro exI [of _ "n * 2 ^ nat (k + 1074)"]) simp
qed

lemma dyadic_difference:
  assumes "dyadic x" and "dyadic y" and "x \<noteq> y"
  shows "pow2 (- 1074) \<le> \<bar>x - y\<bar>"
proof -
  from dyadic_multiple assms obtain n m where x: "x = of_int n * pow2 (- 1074)" "y = of_int m * pow2 (- 1074)" by metis
  with assms(3) have "1 \<le> \<bar>n - m\<bar>" by auto
  then have "1 \<le> \<bar>rat_of_int n - of_int m\<bar>" by (metis of_int_1_le_iff of_int_abs of_int_diff)
  then have "1 * pow2 (- 1074) \<le> \<bar>rat_of_int n - of_int m\<bar> * pow2 (- 1074)" by (intro mult_right_mono) (simp_all add: less_imp_le)
  moreover have "\<bar>x - y\<bar> = \<bar>rat_of_int n - of_int m\<bar> * pow2 (- 1074)"
    unfolding x left_diff_distrib [symmetric] abs_mult by (simp add: less_imp_le)
  ultimately show ?thesis by simp
qed

definition proper :: "jsnum \<Rightarrow> bool" where
  "proper x \<longleftrightarrow> is_finite x \<and> dyadic (fval x)"

lemma not_positive_sub:
  assumes "proper x" and "proper y"
  shows "not_positive (js_sub x y) \<longleftrightarrow> fval x \<le> fval y"
proof -
  have neg: "is_finite (js_neg y)" "fval (js_neg y) = - fval y" "js_neg y \<noteq> NaN" "x \<noteq> NaN"
    using assms by (cases y; auto simp: proper_def js_neg_def is_finite_def fval_def)+
  have fin: "is_finite x" "is_finite y" using assms by (simp_all add: proper_def)
  show ?thesis
  proof (cases "x = NegZero \<and> js_neg y = NegZero")
    case True
    with neg show ?thesis by (auto simp: js_sub_def js_add_def not_positive_def js_lt_def is_finite_def fval_def)
  next
    case False
    then have sub: "js_sub x y = round_double (fval x - fval y)"
      using fin neg by (auto simp: js_sub_def js_add_def)
    show ?thesis
    proof (cases "fval x = fval y")
      case True
      then show ?thesis by (simp add: sub not_positive_def js_lt_def is_finite_def fval_def)
    next
      case False
      with assms have "0 < round_mag \<bar>fval x - fval y\<bar>" by (intro round_mag_pos dyadic_difference) (auto simp: proper_def)
      with False show ?thesis
        by (auto simp: sub round_double_def Let_def not_positive_def js_lt_def is_finite_def fval_def)
    qed
  qed
qed

section \<open>Sorting\<close>

definition price_le :: "pricing_model \<Rightarrow> pricing_model \<Rightarrow> bool" where
  "price_le a b \<longleftrightarrow> fval (getModelPrice a) \<le> fval (getModelPrice b)"

definition price_ge :: "pricing_model \<Rightarrow> pricing_model \<Rightarrow> bool" where
  "price_ge a b \<longleftrightarrow> fval (getModelPrice b) \<le> fval (getModelPrice a)"

interpretation low_price: total_preorder price_le
  by unfold_locales (auto simp: price_le_def)

interpretation high_price: total_preorder price_ge
  by unfold_locales (auto simp: price_ge_def)

definition model_visible :: "host \<Rightarrow> model_filters \<Rightarrow> pricing_model \<Rightarrow> bool" where
  "model_visible h f m \<longleftrightarrow>
     filterBySearch h [m] (mf_search f) = [m] \<and> filterByVendor [m] (mf_vendor f) = [m]
     \<and> filterByGroup [m] (mf_group f) = [m] \<and> filterByQuotaType [m] (mf_quotaType f) = [m]
     \<and> filterByEndpointType [m] (mf_endpointType f) = [m] \<and> filterByTag h [m] (mf_tag f) = [m]"

lemma filter_one: "filter P xs = filter (\<lambda>x. filter P [x] = [x]) xs"
  by (induction xs) auto

lemma filters_pointwise:
  "filterBySearch h ms q = filter (\<lambda>m. filterBySearch h [m] q = [m]) ms"
  "filterByVendor ms v = filter (\<lambda>m. filterByVendor [m] v = [m]) ms"
  "filterByGroup ms g = filter (\<lambda>m. filterByGroup [m] g = [m]) ms"
  "filterByQuotaType ms t = filter (\<lambda>m. filterByQuotaType [m] t = [m]) ms"
  "filterByEndpointType ms e = filter (\<lambda>m. filterByEndpointType [m] e = [m]) ms"
  "filterByTag h ms t = filter (\<lambda>m. filterByTag h [m] t = [m]) ms"
  unfolding filterBySearch_def filterByVendor_def filterByGroup_def filterByQuotaType_def filterByEndpointType_def
    filterByTag_def Let_def
  by (simp_all flip: filter_one)

lemma filterAndSort_filter:
  "filterAndSortModels h le models f = sortModels le (filter (model_visible h f) models) (mf_sortBy f)"
proof -
  define P1 where "P1 m \<longleftrightarrow> filterBySearch h [m] (mf_search f) = [m]" for m
  define P2 where "P2 m \<longleftrightarrow> filterByVendor [m] (mf_vendor f) = [m]" for m
  define P3 where "P3 m \<longleftrightarrow> filterByGroup [m] (mf_group f) = [m]" for m
  define P4 where "P4 m \<longleftrightarrow> filterByQuotaType [m] (mf_quotaType f) = [m]" for m
  define P5 where "P5 m \<longleftrightarrow> filterByEndpointType [m] (mf_endpointType f) = [m]" for m
  define P6 where "P6 m \<longleftrightarrow> filterByTag h [m] (mf_tag f) = [m]" for m
  note P_defs = P1_def P2_def P3_def P4_def P5_def P6_def
  have eqs: "filterBySearch h ms (mf_search f) = filter P1 ms" "filterByVendor ms (mf_vendor f) = filter P2 ms"
    "filterByGroup ms (mf_group f) = filter P3 ms" "filterByQuotaType ms (mf_quotaType f) = filter P4 ms"
    "filterByEndpointType ms (mf_endpointType f) = filter P5 ms" "filterByTag h ms (mf_tag f) = filter P6 ms" for ms
    unfolding P_defs by (rule filters_pointwise)+
  have "model_visible h f = (\<lambda>m. P1 m \<and> P2 m \<and> P3 m \<and> P4 m \<and> P5 m \<and> P6 m)"
    by (simp add: fun_eq_iff model_visible_def P_defs)
  then show ?thesis by (simp add: filterAndSortModels_def Let_def eqs conj_ac)
qed

lemma sort_low:
  assumes "\<forall>m \<in> set ms. proper (getModelPrice m)"
  shows "sortModels le ms (js ''price-low'') = stable_sort price_le ms"
    and "sortModels le ms (js ''price-high'') = stable_sort price_ge ms"
  using assms
  by (auto simp: sortModels_def price_le_def price_ge_def not_positive_sub intro!: stable_sort_cong)

text \<open>
  C28. The price list shows the right models in the right order.  The list sorted by rising price has
  exactly the models that pass every filter, their prices rise, and models of the same price keep
  their order; sorted by falling price the same holds with the prices falling.  Prices are compared
  by the sign of a difference of doubles, which is never rounded to zero.
\<close>

theorem filterAndSortModels_sorted:
  assumes "\<forall>m \<in> set models. model_visible h f m \<longrightarrow> proper (getModelPrice m)"
    and "mf_sortBy f = js (if rising then ''price-low'' else ''price-high'')"
  shows "let shown = filterAndSortModels h le models f; visible = filter (model_visible h f) models
    in mset shown = mset visible
      \<and> sorted_wrt (if rising then price_le else price_ge) shown
      \<and> filter (\<lambda>m. fval (getModelPrice m) = x) shown = filter (\<lambda>m. fval (getModelPrice m) = x) visible"
proof -
  let ?visible = "filter (model_visible h f) models"
  let ?le = "if rising then price_le else price_ge"
  have "\<forall>m \<in> set ?visible. proper (getModelPrice m)" using assms(1) by simp
  from sort_low [OF this] assms(2) have shown: "filterAndSortModels h le models f = stable_sort ?le ?visible"
    by (cases rising) (simp_all add: filterAndSort_filter)
  have "sorted_wrt ?le (stable_sort ?le ?visible)"
    using low_price.sorted_sort high_price.sorted_sort by (cases rising) simp_all
  moreover have "filter (\<lambda>m. fval (getModelPrice m) = x) (stable_sort ?le ?visible)
      = filter (\<lambda>m. fval (getModelPrice m) = x) ?visible"
  proof (cases "\<exists>a \<in> set ?visible. fval (getModelPrice a) = x")
    case True
    then obtain a where "fval (getModelPrice a) = x" by blast
    then have same: "(\<lambda>m. fval (getModelPrice m) = x) = low_price.same a" "(\<lambda>m. fval (getModelPrice m) = x) = high_price.same a"
      by (auto simp: low_price.same_def high_price.same_def price_le_def price_ge_def fun_eq_iff)
    show ?thesis
    proof (cases rising)
      case True
      then show ?thesis by (simp only: same(1) low_price.sort_stable if_True)
    next
      case False
      then show ?thesis by (simp only: same(2) high_price.sort_stable if_False)
    qed
  next
    case False
    then show ?thesis by (simp add: filter_empty_conv [THEN iffD2])
  qed
  ultimately show ?thesis by (simp add: shown Let_def)
qed

definition token_model :: "string \<Rightarrow> rat \<Rightarrow> pricing_model" where
  "token_model name ratio =
     \<lparr>pm_billing_plugin_variants = None, pm_model_name = Some (js name), pm_description = None,
      pm_vendor_name = Some (js ''v''), pm_quota_type = Fin 0, pm_model_ratio = Fin ratio, pm_completion_ratio = Fin 1,
      pm_model_price = None, pm_cache_ratio = None, pm_create_cache_ratio = None, pm_image_ratio = None,
      pm_audio_ratio = None, pm_audio_completion_ratio = None, pm_enable_groups = None, pm_tags = None,
      pm_supported_endpoint_types = None, pm_group_ratio = None, pm_billing_mode = None, pm_billing_expr = None,
      pm_billing_usage_schema = None, pm_billing_usage_examples = None\<rparr>"

definition low_to_high :: model_filters where
  "low_to_high =
     \<lparr>mf_search = js ''a'', mf_vendor = js ''v'', mf_group = FILTER_ALL, mf_quotaType = js ''token'',
      mf_endpointType = FILTER_ALL, mf_tag = FILTER_ALL, mf_sortBy = js ''price-low''\<rparr>"

definition three_models :: "pricing_model list" where
  "three_models = [token_model ''ab'' 3, token_model ''b'' 1, token_model ''ac'' 2]"

theorem filterAndSortModels_sorted_witness:
  "let shown = filterAndSortModels plain_host str_le three_models low_to_high
   in map pm_model_name shown = map Some [js ''ac'', js ''ab''] \<and> sorted_wrt price_le shown
     \<and> mset shown = mset (filter (model_visible plain_host low_to_high) three_models)"
proof -
  have p: "\<forall>m \<in> set three_models. model_visible plain_host low_to_high m \<longrightarrow> proper (getModelPrice m)"
    using dyadic_of_int [of 1] dyadic_of_int [of 2] dyadic_of_int [of 3]
    by (simp add: three_models_def getModelPrice_def token_model_def proper_def js_eq_def is_finite_def fval_def)
  have s: "mf_sortBy low_to_high = js (if True then ''price-low'' else ''price-high'')"
    by (simp add: low_to_high_def)
  have "map pm_model_name (filterAndSortModels plain_host str_le three_models low_to_high) = map Some [js ''ac'', js ''ab'']"
    by code_simp
  with filterAndSortModels_sorted [OF p s, of str_le] show ?thesis by (simp add: Let_def)
qed

section \<open>The displayed ratio\<close>

lemma fold_lower_ratio:
  assumes "start = PosInf \<or> is_finite start"
  shows "let r = fold (lower_ratio ratios) gs start
    in (r = start \<or> (\<exists>g \<in> set gs. map_of ratios g = Some r)) \<and> (r = PosInf \<or> is_finite r)
      \<and> (\<forall>g \<in> set gs. \<forall>x. map_of ratios g = Some x \<longrightarrow> is_finite x \<longrightarrow> is_finite r \<and> fval r \<le> fval x)
      \<and> (is_finite start \<longrightarrow> is_finite r \<and> fval r \<le> fval start)"
  using assms
proof (induction gs arbitrary: start)
  case (Cons g gs)
  let ?next = "lower_ratio ratios g start"
  have n: "?next = PosInf \<or> is_finite ?next" "?next = start \<or> map_of ratios g = Some ?next"
    "\<And>x. map_of ratios g = Some x \<Longrightarrow> is_finite x \<Longrightarrow> is_finite ?next \<and> fval ?next \<le> fval x"
    "is_finite start \<Longrightarrow> is_finite ?next \<and> fval ?next \<le> fval start"
    using Cons.prems by (auto simp: lower_ratio_def js_lt_def is_finite_def split: option.splits if_splits)
  from Cons.IH [OF n(1)] n show ?case by (auto simp: Let_def)
qed simp

text \<open>
  Without a selected group, the ratio shown is the least of the finite ratios that are configured for
  the groups of the model, and 1 when there is none.
\<close>

lemma getDisplayGroupRatio_least:
  assumes "\<not> text_truthy selected" and "ratios = or_default [] (pm_group_ratio m)"
  shows "getDisplayGroupRatio m selected = Fin 1 \<or> (\<exists>g \<in> set (enabled_groups m). map_of ratios g = Some (getDisplayGroupRatio m selected))"
    and "g \<in> set (enabled_groups m) \<Longrightarrow> map_of ratios g = Some x \<Longrightarrow> is_finite x \<Longrightarrow>
      is_finite (getDisplayGroupRatio m selected) \<and> fval (getDisplayGroupRatio m selected) \<le> fval x"
  using fold_lower_ratio [of PosInf ratios "enabled_groups m"] assms
  by (auto simp: getDisplayGroupRatio_def Let_def is_finite_def)

section \<open>Plugin keys and paths\<close>

lemma index_of_separator:
  "58 \<notin> set p \<Longrightarrow> index_of (js ''::'') (p @ js ''::'' @ m) = Some (length p)"
proof (induction p)
  case (Cons c p)
  then show ?case by (auto simp: starts_with_def js_def)
qed (simp add: js_def starts_with_def)

text \<open>A plugin key and a model name are read back from the key that joins them.\<close>

lemma split_plugin_key:
  assumes "plugin_name_ok p" and "trim m \<noteq> []"
  shows "splitPluginBillingExprKey (p @ js ''::'' @ m) = Some (p, m)"
proof -
  have "58 \<notin> set p" using assms(1) by (cases p) (auto simp: plugin_name_ok_def plugin_start_def is_digit_def list_all_iff)
  from index_of_separator [OF this] assms show ?thesis
    by (cases p) (auto simp: splitPluginBillingExprKey_def plugin_name_ok_def js_def)
qed

text \<open>A dollar sign in a model name is special in the replacement text, so a name can be changed.\<close>

lemma replaceModelInPath_dollar:
  "replaceModelInPath (js ''/v1/{model}'') (js ''a$$b'') = js ''/v1/a$b''"
  by code_simp

end
