(* ===== verification/Dynamic_Correct.thy ===== *)
theory Dynamic_Correct
  imports Dynamic_Price Task_Rows_Correct Table_Correct Pricing_Correct
begin

text \<open>
  Properties of the price card: the range shown for several providers, and the row of the price
  table that a settlement marks.
\<close>

section \<open>Ranges over providers\<close>

lemma js_min_finite:
  assumes "is_finite y"
  shows "is_finite x \<Longrightarrow> is_finite (js_min x y) \<and> fval (js_min x y) = min (fval x) (fval y)"
    and "js_min PosInf y = y"
  using assms by (auto simp: js_min_def js_lt_def js_eq_def is_finite_def fval_def split: jsnum.splits)

lemma js_max_finite:
  assumes "is_finite y"
  shows "is_finite x \<Longrightarrow> is_finite (js_max x y) \<and> fval (js_max x y) = max (fval x) (fval y)"
    and "js_max NegInf y = y"
  using assms by (auto simp: js_max_def js_lt_def js_eq_def is_finite_def fval_def split: jsnum.splits)

definition finite_entry :: "price_entry \<Rightarrow> bool" where
  "finite_entry e \<longleftrightarrow> is_finite (entry_low e) \<and> is_finite (entry_high e)"

text \<open>A range stands for the entries with its key: its bounds are the least and the greatest price.\<close>

definition bounds_of :: "jsnum \<Rightarrow> jsnum \<Rightarrow> price_entry list \<Rightarrow> bool" where
  "bounds_of lo hi es \<longleftrightarrow> is_finite lo \<and> is_finite hi
     \<and> (\<forall>e \<in> set es. fval lo \<le> fval (entry_low e) \<and> fval (entry_high e) \<le> fval hi)
     \<and> (\<exists>e \<in> set es. fval lo = fval (entry_low e)) \<and> (\<exists>e \<in> set es. fval hi = fval (entry_high e))"

definition ranges_stand_for :: "price_entry list \<Rightarrow> (jstring \<times> entry_range) list \<Rightarrow> bool" where
  "ranges_stand_for es ranges \<longleftrightarrow>
     distinct (map fst ranges) \<and> fst ` set ranges = entry_key ` set es
     \<and> (\<forall>k r. map_of ranges k = Some r \<longrightarrow>
          entry_key (er_entry r) = k \<and> bounds_of (er_min r) (er_max r) (filter (\<lambda>e. entry_key e = k) es))"

lemma bounds_of_snoc:
  assumes "bounds_of lo hi es" and "finite_entry e"
  shows "bounds_of (js_min lo (entry_low e)) (js_max hi (entry_high e)) (es @ [e])"
proof -
  from assms have fin: "is_finite lo" "is_finite hi" by (simp_all add: bounds_of_def)
  from js_min_finite(1) [of "entry_low e", OF _ fin(1)] js_max_finite(1) [of "entry_high e", OF _ fin(2)] assms
  show ?thesis by (auto simp: bounds_of_def finite_entry_def min_def max_def)
qed

lemma bounds_of_first: "finite_entry e \<Longrightarrow> bounds_of (js_min PosInf (entry_low e)) (js_max NegInf (entry_high e)) [e]"
  by (auto simp: bounds_of_def finite_entry_def js_min_finite(2) js_max_finite(2))

lemma merged_range_key:
  "range0 = None \<or> entry_key (er_entry (the range0)) = entry_key e \<Longrightarrow> entry_key (er_entry (merged_range e range0)) = entry_key e"
  by (cases range0) (auto simp: merged_range_def Let_def entry_key_def)

lemma merged_range_bounds:
  assumes e: "finite_entry e"
    and "case range0 of Some r \<Rightarrow> bounds_of (er_min r) (er_max r) es | None \<Rightarrow> es = []"
  shows "bounds_of (er_min (merged_range e range0)) (er_max (merged_range e range0)) (es @ [e])"
  using assms bounds_of_first [OF e] bounds_of_snoc [OF _ e, of _ _ es]
  by (cases range0) (simp_all add: merged_range_def Let_def)

lemma merge_entry_stands_for:
  assumes inv: "ranges_stand_for es ranges" and e: "finite_entry e"
  shows "ranges_stand_for (es @ [e]) (merge_entry e ranges)"
proof -
  let ?k = "entry_key e" and ?es = "filter (\<lambda>x. entry_key x = entry_key e) es"
  let ?r = "merged_range e (map_of ranges ?k)"
  have "case map_of ranges ?k of Some r \<Rightarrow> bounds_of (er_min r) (er_max r) ?es | None \<Rightarrow> ?es = []"
    using inv by (auto simp: ranges_stand_for_def filter_empty_conv map_of_eq_None_iff split: option.splits)
      (metis imageI)
  from merged_range_bounds [OF e this] have "bounds_of (er_min ?r) (er_max ?r) (?es @ [e])" .
  moreover have "entry_key (er_entry ?r) = ?k"
    using inv by (intro merged_range_key) (cases "map_of ranges ?k"; auto simp: ranges_stand_for_def)
  ultimately show ?thesis
    using inv by (auto simp: ranges_stand_for_def merge_entry_def)
qed

lemma merge_entries_stand_for: "list_all finite_entry es \<Longrightarrow> ranges_stand_for es (fold merge_entry es [])"
proof (induction es rule: rev_induct)
  case (snoc e es)
  then show ?case by (simp add: merge_entry_stands_for)
qed (simp add: ranges_stand_for_def)

lemma range_entry_simps [simp]:
  "entry_key (range_entry env o0 r) = entry_key (er_entry r)" "entry_low (range_entry env o0 r) = er_min r"
  "entry_high (range_entry env o0 r) = er_max r"
  by (simp_all add: range_entry_def entry_key_def entry_low_def entry_high_def or_default_def)

lemma merged_bounds:
  assumes fin: "list_all finite_entry es"
  shows "distinct (map entry_key (merge_entries env o0 es))"
    and "entry_key ` set (merge_entries env o0 es) = entry_key ` set es"
    and "x \<in> set (merge_entries env o0 es) \<Longrightarrow>
      bounds_of (entry_low x) (entry_high x) (filter (\<lambda>e. entry_key e = entry_key x) es)"
proof -
  let ?rs = "fold merge_entry es []"
  note inv = merge_entries_stand_for [OF fin]
  have d: "distinct (map fst ?rs)" and ks: "fst ` set ?rs = entry_key ` set es" using inv by (simp_all add: ranges_stand_for_def)
  have r: "entry_key (er_entry r) = k \<and> bounds_of (er_min r) (er_max r) (filter (\<lambda>e. entry_key e = k) es)"
    if "(k, r) \<in> set ?rs" for k r
    using inv map_of_is_SomeI [OF d that] by (simp add: ranges_stand_for_def)
  have keys: "map entry_key (merge_entries env o0 es) = map fst ?rs"
    using r by (auto simp: merge_entries_def comp_def intro!: map_cong)
  show "distinct (map entry_key (merge_entries env o0 es))" using d keys by simp
  show "entry_key ` set (merge_entries env o0 es) = entry_key ` set es"
    using keys ks by (metis list.set_map)
  assume "x \<in> set (merge_entries env o0 es)"
  then obtain k q where "(k, q) \<in> set ?rs" "x = range_entry env o0 q" by (auto simp: merge_entries_def)
  with r [of k q] show "bounds_of (entry_low x) (entry_high x) (filter (\<lambda>e. entry_key e = entry_key x) es)" by simp
qed


definition second_schema :: labelled_schema where
  "second_schema =
     [(js ''s'', \<lparr>uf_type = Some (js ''number''), uf_unit = Some (js ''second''), uf_enum = None,
        fd_unitLabel = None, fd_enumLabels = [], fd_description = None\<rparr>)]"

definition provider :: "string \<Rightarrow> plugin_variant" where
  "provider source =
     \<lparr>pv_plugin_key = js ''k'', pv_plugin_name = js ''n'', pv_billing_expr = js source, pv_billing_mode = None,
      pv_billing_usage_schema = second_schema, pv_billing_usage_examples = None\<rparr>"

definition two_providers :: pricing_model where
  "two_providers =
     (token_model ''m'' 1)\<lparr>pm_billing_plugin_variants := Some [provider ''tier(\"x\",u(\"s\")*2)'', provider ''tier(\"x\",u(\"s\")*5)'']\<rparr>"

definition plain_options :: price_options_in where
  "plain_options =
     \<lparr>po_tokenUnit = Unit_M, po_showCurrencySymbol = None, po_showRechargePrice = None, po_priceRate = None,
      po_usdExchangeRate = None, po_groupRatioMultiplier = None, po_usageSchema = None, po_now = None\<rparr>"

abbreviation provider_summaries :: "pricing_summary option list run" where
  "provider_summaries \<equiv>
     map_run (\<lambda>v. plain_summary plain_host str_le (plain_intl, None) (withPluginPricing two_providers v) plain_options)
       (variants_of two_providers)"

lemma map_two: "map f xs = [p, q] \<Longrightarrow> \<exists>a b. xs = [a, b] \<and> f a = p \<and> f b = q"
  by (auto simp: map_eq_Cons_conv)

lemma two_providers_run:
  "case fst (provider_summaries []) of
     Inl e \<Rightarrow> False
   | Inr rs \<Rightarrow>
       map (\<lambda>e. (entry_key e, entry_low e, entry_high e))
         (concat (map su_entries (List.map_filter id rs)) @ per_call_entries (plain_intl, None) plain_options two_providers)
         = [(js ''s:second'', Fin 2, Fin 2), (js ''s:second'', Fin 5, Fin 5)]"
  by code_simp


section \<open>The marked row\<close>

lemma distinct_filter_one:
  assumes "distinct (map f xs)" and "x \<in> set xs"
  shows "filter (\<lambda>y. f y = f x) xs = [x]"
  using assms
proof (induction xs)
  case (Cons a xs)
  show ?case
  proof (cases "x = a")
    case True
    with Cons.prems have "filter (\<lambda>y. f y = f x) xs = []" by (auto simp: filter_empty_conv image_iff)
    with True show ?thesis by simp
  next
    case False
    with Cons have "f a \<noteq> f x" "filter (\<lambda>y. f y = f x) xs = [x]" by auto
    then show ?thesis by simp
  qed
qed simp

text \<open>The normalised label of a task row.\<close>

definition row_label :: "host \<Rightarrow> task_display_tier \<Rightarrow> jstring" where
  "row_label h r = normalizeTierLabel h (Some (tk_label r))"

lemma marked_by_label:
  assumes d: "distinct (map (row_label h) rows)" and row: "row \<in> set rows" "row_label h row \<noteq> []" and r: "r \<in> set rows"
  shows "isBreakdownTierMatched h (Task_row r) (map Task_row rows) (Some (tk_label row)) facts unit0 fixed0 \<longleftrightarrow> r = row"
proof -
  have match: "tierMatchesNormalizedLabel h (Task_row x) (row_label h row) \<longleftrightarrow> row_label h x = row_label h row" for x
    using row(2) by (simp add: tierMatchesNormalizedLabel_def tier_label_def row_label_def)
  have "filter (\<lambda>t. tierMatchesNormalizedLabel h t (row_label h row)) (map Task_row rows) = [Task_row row]"
    using distinct_filter_one [OF d row(1)] by (simp add: filter_map comp_def match)
  moreover have "row_label h r = row_label h row \<longleftrightarrow> r = row" using d row(1) r by (auto simp: distinct_map inj_on_def)
  ultimately show ?thesis
    by (simp add: isBreakdownTierMatched_def unit_rejects_def match flip: row_label_def)
qed


lemma two_labels:
  "case compile_result two_tiers of
     Ready c \<Rightarrow>
       (case fst (getTaskPricingDisplayTiers [(two_tiers, Ready c)] (Some two_tiers) (Some two_schema)) of
          Inr rows \<Rightarrow> map (row_label plain_host) rows = [js ''x'', js ''y''] | Inl e \<Rightarrow> False)
       \<and> map_sum id (\<lambda>(v, s). rt_tier s) (evaluate second_env 0 (cb_ast c) (initial_state [])) = Inr (js ''y'')
   | Failure f \<Rightarrow> False"
  by code_simp


end
