(* ===== verification/Seed_Random.thy ===== *)
theory Seed_Random
  imports JS_String "HOL-Library.Word"
begin

text \<open>
  \<open>seed.ts\<close>: a string hash and a linear congruential generator, written with the bitwise operators
  of the language, which convert their operands to 32 bits.  The code multiplies doubles; the theorem
  at the end is that nothing is ever rounded, so that hash and generator are those of 32-bit words.
\<close>

unbundle bit_operations_syntax

declare of_int_sint [simp del] of_int_uint [simp del]

lemma word_of_own_int [simp]: "word_of_int (sint w) = (w :: 32 word)" "word_of_int (uint w) = (w :: 32 word)"
  by (simp_all add: of_int_sint of_int_uint)

section \<open>Bitwise operators\<close>

definition to_int32 :: "jsnum \<Rightarrow> 32 word" where
  "to_int32 x = (if is_finite x then word_of_int (trunc_rat (fval x)) else 0)"

definition signed_num :: "32 word \<Rightarrow> jsnum" where
  "signed_num w = Fin (of_int (sint w))"

definition unsigned_num :: "32 word \<Rightarrow> jsnum" where
  "unsigned_num w = Fin (of_int (uint w))"

definition js_xor :: "jsnum \<Rightarrow> jsnum \<Rightarrow> jsnum" where
  "js_xor x y = signed_num (to_int32 x XOR to_int32 y)"

definition js_or :: "jsnum \<Rightarrow> jsnum \<Rightarrow> jsnum" where
  "js_or x y = signed_num (to_int32 x OR to_int32 y)"

text \<open>\<open>x >>> 0\<close>\<close>

definition js_unsigned :: "jsnum \<Rightarrow> jsnum" where
  "js_unsigned x = unsigned_num (to_int32 x)"

section \<open>The functions of the file\<close>

definition hash_step :: "nat \<Rightarrow> jsnum \<Rightarrow> jsnum" where
  "hash_step unit0 hash = js_xor (js_mul hash (Fin 33)) (Fin (of_nat unit0))"

definition hashStringToSeed :: "jstring \<Rightarrow> jsnum" where
  "hashStringToSeed input = js_abs (js_or (fold hash_step input (Fin 5381)) (Fin 0))"

text \<open>The closure \<open>seededRandom(seed)\<close>: its variable \<open>state\<close>, and one call.\<close>

definition seededRandom :: "jsnum \<Rightarrow> jsnum" where
  "seededRandom seed = js_unsigned (if seed = NaN \<or> js_eq seed (Fin 0) then Fin 1 else seed)"

definition next_random :: "jsnum \<Rightarrow> jsnum \<times> jsnum" where
  "next_random state =
     (let state' = js_unsigned (js_add (js_mul state (Fin 1664525)) (Fin 1013904223))
      in (js_div state' (Fin 4294967296), state'))"

definition randomInRange :: "('s \<Rightarrow> jsnum \<times> 's) \<Rightarrow> jsnum \<Rightarrow> jsnum \<Rightarrow> 's \<Rightarrow> jsnum \<times> 's" where
  "randomInRange rand lo hi s =
     (case rand s of (r, s') \<Rightarrow> (js_add lo (js_mul r (js_sub hi lo)), s'))"

definition randomIntInRange :: "('s \<Rightarrow> jsnum \<times> 's) \<Rightarrow> jsnum \<Rightarrow> jsnum \<Rightarrow> 's \<Rightarrow> jsnum \<times> 's" where
  "randomIntInRange rand lo hi s =
     (case randomInRange rand lo (js_add hi (Fin 1)) s of (x, s') \<Rightarrow> (js_floor x, s'))"

text \<open>The first \<open>n\<close> results of the closure.\<close>

fun randoms :: "nat \<Rightarrow> jsnum \<Rightarrow> jsnum list" where
  "randoms 0 state = []"
| "randoms (Suc n) state = (case next_random state of (r, state') \<Rightarrow> r # randoms n state')"

section \<open>Exact arithmetic\<close>

lemma dyadic_fraction:
  assumes "\<bar>n\<bar> \<le> 2 ^ 53" and "k \<le> 1074"
  shows "dyadic (of_int n / 2 ^ k)"
proof -
  have x: "rat_of_int n / 2 ^ k = of_int n * pow2 (- int k)" by (simp add: pow2_def divide_inverse)
  have "\<bar>rat_of_int n / 2 ^ k\<bar> \<le> \<bar>of_int n\<bar>" using mult_left_mono [of 1 "2 ^ k" "\<bar>rat_of_int n\<bar>"] by (simp add: divide_le_eq)
  also have "\<dots> \<le> of_int (2 ^ 53)" using assms(1) by (metis of_int_abs of_int_le_iff)
  finally have "\<bar>rat_of_int n / 2 ^ k\<bar> < 2 ^ 1024" by simp
  with x assms show ?thesis unfolding dyadic_def by (intro exI [of _ n] exI [of _ "- int k"]) auto
qed

lemma round_integer: "\<bar>i\<bar> \<le> 2 ^ 53 \<Longrightarrow> round_double (of_int i) = Fin (of_int i)"
  by (intro round_double_fixes_dyadic dyadic_of_int)

lemma mul_integer:
  assumes "\<bar>a * b\<bar> \<le> 2 ^ 53" and "0 < b"
  shows "js_mul (Fin (of_int a)) (Fin (of_int b)) = Fin (of_int (a * b))"
  using round_integer [OF assms(1)] assms(2)
  by (auto simp: js_mul_def Let_def is_finite_def fval_def neg_sign_def signed_zero_def)

lemma add_integer:
  assumes "\<bar>a + b\<bar> \<le> 2 ^ 53"
  shows "js_add (Fin (of_int a)) (Fin (of_int b)) = Fin (of_int (a + b))"
  using round_integer [OF assms] by (auto simp: js_add_def is_finite_def fval_def)

lemma to_int32_integer [simp]: "to_int32 (Fin (of_int i)) = word_of_int i"
  by (simp add: to_int32_def is_finite_def fval_def trunc_rat_def)

lemma to_int32_signed [simp]: "to_int32 (signed_num w) = w"
  by (simp add: signed_num_def)

section \<open>The hash\<close>

definition word_hash :: "jstring \<Rightarrow> 32 word" where
  "word_hash input = fold (\<lambda>c hash. (hash * 33) XOR of_nat c) input 5381"

lemma sint32_bounds: "- (2 ^ 31) \<le> sint (w :: 32 word)" "sint (w :: 32 word) < 2 ^ 31"
  using sint_ge [of w] sint_lt [of w] by simp_all

lemma uint32_bounds: "0 \<le> uint (w :: 32 word)" "uint (w :: 32 word) < 2 ^ 32"
  using uint_lt2p [of w] by simp_all

lemma hash_step_word: "hash_step c (signed_num h) = signed_num ((h * 33) XOR of_nat c)"
proof -
  have "js_mul (signed_num h) (Fin 33) = Fin (of_int (sint h * 33))"
    using mul_integer [of "sint h" 33] sint32_bounds [of h] by (simp add: signed_num_def)
  moreover have "to_int32 (Fin (of_nat c)) = of_nat c" using to_int32_integer [of "int c"] by simp
  moreover have "word_of_int (sint h * 33) = h * 33" by simp
  ultimately show ?thesis by (simp only: hash_step_def js_xor_def to_int32_integer)
qed

lemma fold_hash: "fold hash_step input (signed_num h) = signed_num (fold (\<lambda>c hash. (hash * 33) XOR of_nat c) input h)"
  by (induction input arbitrary: h) (simp_all add: hash_step_word)

lemma hashStringToSeed_word: "hashStringToSeed input = Fin (of_int \<bar>sint (word_hash input)\<bar>)"
proof -
  have "signed_num 5381 = Fin 5381" by (simp add: signed_num_def)
  then have "fold hash_step input (Fin 5381) = signed_num (word_hash input)"
    using fold_hash [of input 5381] by (simp add: word_hash_def)
  moreover have "js_or (signed_num w) (Fin 0) = signed_num w" for w
    using to_int32_integer [of 0] by (simp add: js_or_def)
  ultimately show ?thesis
    by (auto simp: hashStringToSeed_def signed_num_def js_abs_def neg_sign_def js_neg_def)
qed

text \<open>
  The seed is at most \<open>2 ^ 31\<close>.  The bound is reached: the most negative hash has no positive
  counterpart in 31 bits.
\<close>

lemma hashStringToSeed_bounds: "\<exists>i. hashStringToSeed input = Fin (of_int i) \<and> 0 \<le> i \<and> i \<le> 2 ^ 31"
  using sint32_bounds [of "word_hash input"]
  by (intro exI [of _ "\<bar>sint (word_hash input)\<bar>"]) (auto simp: hashStringToSeed_word)

lemma hashStringToSeed_not_31_bits: "hashStringToSeed (js ''0b2ydiq'') = Fin (2 ^ 31)"
  by code_simp

section \<open>The generator\<close>

definition lcg :: "32 word \<Rightarrow> 32 word" where
  "lcg w = w * 1664525 + 1013904223"

definition unit_fraction :: "32 word \<Rightarrow> jsnum" where
  "unit_fraction w = Fin (of_int (uint w) / 2 ^ 32)"

lemma next_random_word: "next_random (unsigned_num w) = (unit_fraction (lcg w), unsigned_num (lcg w))"
proof -
  note b = uint32_bounds [of w]
  have "js_mul (unsigned_num w) (Fin 1664525) = Fin (of_int (uint w * 1664525))"
    using mul_integer [of "uint w" 1664525] b by (simp add: unsigned_num_def)
  moreover have "js_add (Fin (of_int (uint w * 1664525))) (Fin 1013904223) = Fin (of_int (uint w * 1664525 + 1013904223))"
    using add_integer [of "uint w * 1664525" 1013904223] b by simp
  moreover have "word_of_int (uint w * 1664525 + 1013904223) = lcg w" by (simp add: lcg_def)
  ultimately have s: "js_unsigned (js_add (js_mul (unsigned_num w) (Fin 1664525)) (Fin 1013904223)) = unsigned_num (lcg w)"
    by (simp only: js_unsigned_def to_int32_integer)
  have "round_double (of_int (uint v) / 2 ^ 32) = unit_fraction v" for v :: "32 word"
    using uint32_bounds [of v] unfolding unit_fraction_def
    by (intro round_double_fixes_dyadic dyadic_fraction) simp_all
  then have "js_div (unsigned_num v) (Fin 4294967296) = unit_fraction v" for v
    by (auto simp: js_div_def Let_def unsigned_num_def unit_fraction_def is_finite_def fval_def neg_sign_def signed_zero_def)
  with s show ?thesis by (simp add: next_random_def)
qed

lemma seededRandom_word:
  "seededRandom (Fin (of_int i)) = unsigned_num (if i = 0 then 1 else word_of_int i)"
  using to_int32_integer [of 1] by (auto simp: seededRandom_def js_eq_def is_finite_def fval_def js_unsigned_def)

lemma randoms_word:
  "randoms n (unsigned_num w) = map (\<lambda>k. unit_fraction ((lcg ^^ Suc k) w)) [0..<n]"
proof (induction n arbitrary: w)
  case (Suc n)
  have "(lcg ^^ Suc k) (lcg w) = (lcg ^^ Suc (Suc k)) w" for k by (simp only: funpow_Suc_right comp_apply)
  with Suc show ?case by (simp add: next_random_word map_upt_Suc del: upt_Suc funpow.simps(2)) (simp add: funpow_Suc_right)
qed simp

text \<open>
  An integer drawn from a range of fewer than \<open>2 ^ 20\<close> values lies in the range, bounds included: the
  product and the sum have at most 53 significant bits.
\<close>

lemma randomIntInRange_word:
  assumes "lo \<le> hi" and "\<bar>lo\<bar> < 2 ^ 20" and "\<bar>hi\<bar> < 2 ^ 20" and d_def: "d = hi + 1 - lo"
  shows "randomIntInRange next_random (Fin (of_int lo)) (Fin (of_int hi)) (unsigned_num w) =
     (Fin (of_int (lo + uint (lcg w) * d div 2 ^ 32)), unsigned_num (lcg w))"
    and "lo + uint (lcg w) * d div 2 ^ 32 \<in> {lo..hi}"
proof -
  define u where "u = uint (lcg w)"
  have b: "0 \<le> u" "u < 2 ^ 32" using uint32_bounds [of "lcg w"] by (simp_all add: u_def)
  have d: "0 < d" "d \<le> 2 ^ 21" using assms by auto
  have ud: "0 \<le> u * d" "u * d < 2 ^ 32 * d" using b d by (auto intro: mult_strict_right_mono)
  have bits: "\<bar>m\<bar> \<le> 2 ^ 53 \<and> \<bar>lo * 2 ^ 32 + m\<bar> \<le> 2 ^ 53" if "0 \<le> m" "m < 2 ^ 32 * d" for m
    using that d assms(2,3) by (simp add: d_def)
  note big = bits [OF ud, THEN conjunct1] and big' = bits [OF ud, THEN conjunct2]
  have sum: "js_add (Fin (of_int hi)) (Fin 1) = Fin (of_int (hi + 1))" using add_integer [of hi 1] assms by simp
  have diff: "js_sub (Fin (of_int (hi + 1))) (Fin (of_int lo)) = Fin (of_int d)"
    using round_integer [of d] d d_def
    by (auto simp: js_sub_def js_neg_def js_add_def is_finite_def fval_def)
  have "dyadic (of_int (u * d) / 2 ^ 32)" by (rule dyadic_fraction) (use big in simp_all)
  then have prod: "js_mul (unit_fraction (lcg w)) (Fin (of_int d)) = Fin (of_int (u * d) / 2 ^ 32)"
    using d round_double_fixes_dyadic [of "of_int (u * d) / 2 ^ 32"] b
    by (auto simp: js_mul_def Let_def is_finite_def fval_def neg_sign_def signed_zero_def unit_fraction_def divide_less_0_iff
        simp flip: u_def)
  have "of_int lo + of_int (u * d) / 2 ^ 32 = rat_of_int (lo * 2 ^ 32 + u * d) / 2 ^ 32" by (simp add: field_simps)
  moreover have "dyadic (of_int (lo * 2 ^ 32 + u * d) / 2 ^ 32)" by (rule dyadic_fraction) (use big' in simp_all)
  ultimately have "dyadic (of_int lo + of_int (u * d) / 2 ^ 32)" by (simp only:)
  from round_double_fixes_dyadic [OF this]
  have "js_add (Fin (of_int lo)) (Fin (of_int (u * d) / 2 ^ 32)) = Fin (of_int lo + of_int (u * d) / 2 ^ 32)"
    by (simp add: js_add_def is_finite_def fval_def)
  moreover have "\<lfloor>of_int lo + rat_of_int (u * d) / 2 ^ 32\<rfloor> = lo + u * d div 2 ^ 32"
    using floor_divide_of_int_eq [of "u * d" "2 ^ 32"] by simp
  ultimately show "randomIntInRange next_random (Fin (of_int lo)) (Fin (of_int hi)) (unsigned_num w) =
     (Fin (of_int (lo + uint (lcg w) * d div 2 ^ 32)), unsigned_num (lcg w))"
    by (simp only: randomIntInRange_def randomInRange_def next_random_word sum diff prod prod.case js_floor_def jsnum.simps
        flip: u_def)
  have "u * d div 2 ^ 32 < d" "0 \<le> u * d div 2 ^ 32" using ud by (auto simp: div_less_iff_less_mult pos_imp_zdiv_nonneg_iff)
  then show "lo + uint (lcg w) * d div 2 ^ 32 \<in> {lo..hi}" by (simp add: d_def flip: u_def)
qed

text \<open>
  C37. The mock figures of a model are the sequence of a 32-bit generator.  Hash and generator are
  written with products of doubles; no product rounds, so the numbers drawn for a name are those of
  the word generator \<open>w * 1664525 + 1013904223\<close> seeded with the absolute value of the 32-bit hash,
  or with 1 when the hash is 0, each divided by \<open>2 ^ 32\<close>, and they lie in \<open>[0, 1)\<close>.
\<close>

theorem seededRandom_lcg:
  "randoms n (seededRandom (hashStringToSeed input)) =
     (let h = word_hash input; w = (if h = 0 then 1 else word_of_int \<bar>sint h\<bar>)
      in map (\<lambda>k. unit_fraction ((lcg ^^ Suc k) w)) [0..<n])
   \<and> list_all (\<lambda>r. js_le (Fin 0) r \<and> js_lt r (Fin 1)) (randoms n (seededRandom (hashStringToSeed input)))"
proof -
  let ?h = "word_hash input"
  have "sint ?h = 0 \<longleftrightarrow> ?h = 0" using word_of_own_int(1) [of ?h] by (metis of_int_0 signed_0)
  then have "seededRandom (hashStringToSeed input) = unsigned_num (if ?h = 0 then 1 else word_of_int \<bar>sint ?h\<bar>)"
    by (simp only: hashStringToSeed_word seededRandom_word abs_eq_0)
  moreover have "js_le (Fin 0) (unit_fraction w) \<and> js_lt (unit_fraction w) (Fin 1)" for w
    using uint32_bounds [of w]
    by (auto simp: unit_fraction_def js_le_def js_lt_def js_eq_def is_finite_def fval_def divide_less_eq
        simp flip: order.strict_iff_order intro: le_neq_trans)
  ultimately show ?thesis by (simp add: randoms_word Let_def list_all_iff)
qed

end
