(* ===== verification/Status_Rules.thy ===== *)
theory Status_Rules
  imports JS_String JS_Sort
begin

text \<open>
  The rules for HTTP status codes, e.g. \<open>401, 500-503\<close>, on both sides of the program: the form of the
  web client (\<open>web/src/lib/http-status-code-rules.ts\<close>) reads what an operator typed and sends the
  normalised text, and the server (\<open>setting/operation_setting/status_code_ranges.go\<close>) parses that text
  and decides with the ranges whether a request is retried and whether a channel is disabled.

  A Go string here is its sequence of code points; the functions below treat it only so.
\<close>

text \<open>
  \<open>split\<close> of JavaScript and \<open>strings.Split\<close> of Go at one character.
\<close>

fun split_char :: "nat \<Rightarrow> jstring \<Rightarrow> jstring list" where
  "split_char d [] = [[]]"
| "split_char d (c # s) =
     (if c = d then [] # split_char d s
      else (c # hd (split_char d s)) # tl (split_char d s))"

text \<open>
  \<open>StatusCodeRange\<close>.  The codes are integers: \<open>parseToken\<close> and \<open>parseHTTPStatusCodeToken\<close> only let
  integers from 100 to 599 in.
\<close>

record status_code_range =
  range_start :: int
  range_end :: int

section \<open>The form of the web client\<close>

record status_code_rules =
  rules_ok :: bool
  rules_ranges :: "status_code_range list"
  rules_tokens :: "jstring list"
  rules_normalized :: jstring
  rules_invalidTokens :: "jstring list"

definition isNumber :: "jstring \<Rightarrow> bool" where
  "isNumber s \<longleftrightarrow> s \<noteq> [] \<and> list_all is_digit s"

text \<open>
  \<open>Number.parseInt(s, 10)\<close> of a text of digits is the double next to its value, and \<open>isValidCode\<close>
  checks that double: \<open>parse_code\<close> is both.
\<close>

definition isValidCode :: "jsnum \<Rightarrow> bool" where
  "isValidCode x = (case x of Fin q \<Rightarrow> 100 \<le> q \<and> q \<le> 599 | _ \<Rightarrow> False)"

definition parse_code :: "jstring \<Rightarrow> int option" where
  "parse_code s =
     (let x = round_double (of_nat (nat_of_digits s))
      in if isValidCode x then (case x of Fin q \<Rightarrow> Some \<lfloor>q\<rfloor> | _ \<Rightarrow> None) else None)"

text \<open>
  Of the pieces between the dashes \<open>const [a, b] = cleaned.split('-')\<close> takes the first two.
\<close>

definition parseToken :: "jstring \<Rightarrow> status_code_range option" where
  "parseToken token =
     (let cleaned = filter (\<lambda>c. \<not> is_ws c) (trim token)
      in if cleaned = [] then None
         else if 45 \<in> set cleaned then
           (case split_char 45 cleaned of
              a # b # _ \<Rightarrow>
                if \<not> isNumber a \<or> \<not> isNumber b then None
                else (case (parse_code a, parse_code b) of
                        (Some s, Some e) \<Rightarrow>
                          if e < s then None else Some \<lparr>range_start = s, range_end = e\<rparr>
                      | _ \<Rightarrow> None)
            | _ \<Rightarrow> None)
         else if \<not> isNumber cleaned then None
         else map_option (\<lambda>code. \<lparr>range_start = code, range_end = code\<rparr>) (parse_code cleaned))"

text \<open>The comparison of the sort: \<open>range_le a b\<close> is that it is not positive.\<close>

definition range_le :: "status_code_range \<Rightarrow> status_code_range \<Rightarrow> bool" where
  "range_le a b =
     (if range_start a \<noteq> range_start b then range_start a - range_start b \<le> 0
      else range_end a - range_end b \<le> 0)"

definition merge_range :: "status_code_range list \<Rightarrow> status_code_range \<Rightarrow> status_code_range list" where
  "merge_range merged current =
     (if merged = [] \<or> range_end (last merged) + 1 < range_start current then merged @ [current]
      else butlast merged
             @ [(last merged)\<lparr>range_end := max (range_end (last merged)) (range_end current)\<rparr>])"

definition mergeRanges :: "status_code_range list \<Rightarrow> status_code_range list" where
  "mergeRanges ranges = (if ranges = [] then [] else foldl merge_range [] (stable_sort range_le ranges))"

definition range_token :: "status_code_range \<Rightarrow> jstring" where
  "range_token r =
     (if range_start r = range_end r then digits_of_int (range_start r)
      else digits_of_int (range_start r) @ js ''-'' @ digits_of_int (range_end r))"

text \<open>The full-width comma is U+FF0C.\<close>

definition plain_comma :: "nat \<Rightarrow> nat" where
  "plain_comma c = (if c = 65292 then 44 else c)"

definition rule_segments :: "jstring \<Rightarrow> jstring list" where
  "rule_segments raw = filter (\<lambda>s. s \<noteq> []) (map trim (split_char 44 (map plain_comma raw)))"

text \<open>
  The argument is the text of the form, or nothing for \<open>null\<close> and \<open>undefined\<close>.
\<close>

definition parseHttpStatusCodeRules :: "jstring option \<Rightarrow> status_code_rules" where
  "parseHttpStatusCodeRules inp =
     (let raw = trim (case inp of None \<Rightarrow> [] | Some s \<Rightarrow> s)
      in if raw = [] then
           \<lparr>rules_ok = True, rules_ranges = [], rules_tokens = [], rules_normalized = [],
            rules_invalidTokens = []\<rparr>
         else
           let segments = rule_segments raw;
               ranges = List.map_filter parseToken segments;
               invalidTokens = filter (\<lambda>s. parseToken s = None) segments
           in if invalidTokens \<noteq> [] then
                \<lparr>rules_ok = False, rules_ranges = [], rules_tokens = [], rules_normalized = raw,
                 rules_invalidTokens = invalidTokens\<rparr>
              else
                let merged = mergeRanges ranges;
                    tokens = map range_token merged
                in \<lparr>rules_ok = True, rules_ranges = merged, rules_tokens = tokens,
                    rules_normalized = join (js '','') tokens, rules_invalidTokens = []\<rparr>)"

section \<open>The server\<close>

text \<open>\<open>strings.TrimSpace\<close>: the white space of Unicode, which has U+0085 and not U+FEFF.\<close>

definition go_space :: "nat \<Rightarrow> bool" where
  "go_space c = (c \<in> {9, 10, 11, 12, 13, 32, 133, 160, 5760, 8232, 8233, 8239, 8287, 12288}
     \<or> (8192 \<le> c \<and> c \<le> 8202))"

definition go_trim :: "jstring \<Rightarrow> jstring" where
  "go_trim s = rev (dropWhile go_space (rev (dropWhile go_space s)))"

text \<open>\<open>strconv.Atoi\<close>: an optional sign and digits, in the range of a 64-bit integer.\<close>

definition atoi :: "jstring \<Rightarrow> int option" where
  "atoi s =
     (let neg = (s \<noteq> [] \<and> hd s = 45);
          ds = (if s \<noteq> [] \<and> hd s \<in> {43, 45} then tl s else s);
          n = (if neg then - int (nat_of_digits ds) else int (nat_of_digits ds))
      in if ds \<noteq> [] \<and> list_all is_digit ds \<and> - (2 ^ 63) \<le> n \<and> n < 2 ^ 63 then Some n else None)"

definition parseHTTPStatusCodeToken :: "jstring \<Rightarrow> jstring + status_code_range" where
  "parseHTTPStatusCodeToken tok =
     (let token = filter (\<lambda>c. c \<noteq> 32) (go_trim tok)
      in if token = [] then Inl (js ''empty token'')
         else if 45 \<in> set token then
           let parts = split_char 45 token
           in if length parts \<noteq> 2 \<or> parts ! 0 = [] \<or> parts ! 1 = []
              then Inl (js ''invalid range token: '' @ token)
              else (case atoi (parts ! 0) of
                      None \<Rightarrow> Inl (js ''invalid range start: '' @ token)
                    | Some s \<Rightarrow>
                        (case atoi (parts ! 1) of
                           None \<Rightarrow> Inl (js ''invalid range end: '' @ token)
                         | Some e \<Rightarrow>
                             if e < s then Inl (js ''range start > end: '' @ token)
                             else if s < 100 \<or> 599 < e then Inl (js ''range out of bounds: '' @ token)
                             else Inr \<lparr>range_start = s, range_end = e\<rparr>))
         else (case atoi token of
                 None \<Rightarrow> Inl (js ''invalid status code: '' @ token)
               | Some code \<Rightarrow>
                   if code < 100 \<or> 599 < code then Inl (js ''status code out of bounds: '' @ token)
                   else Inr \<lparr>range_start = code, range_end = code\<rparr>))"

text \<open>
  The order of \<open>sort.Slice\<close>.  The sort is not stable, but ranges that compare equal are equal, so that
  the sorted slice does not depend on the algorithm.
\<close>

definition range_less :: "status_code_range \<Rightarrow> status_code_range \<Rightarrow> bool" where
  "range_less a b =
     (if range_start a = range_start b then range_end a < range_end b
      else range_start a < range_start b)"

definition extend_last :: "status_code_range list \<Rightarrow> status_code_range \<Rightarrow> status_code_range list" where
  "extend_last merged r =
     (if range_start r \<le> range_end (last merged) + 1 then
        (if range_end (last merged) < range_end r
         then butlast merged @ [(last merged)\<lparr>range_end := range_end r\<rparr>] else merged)
      else merged @ [r])"

definition ParseHTTPStatusCodeRanges :: "jstring \<Rightarrow> jstring + status_code_range list" where
  "ParseHTTPStatusCodeRanges inp =
     (let txt = go_trim inp
      in if txt = [] then Inr []
         else
           let segments = filter (\<lambda>s. s \<noteq> []) (map go_trim (split_char 44 (map plain_comma txt)));
               parsed = map parseHTTPStatusCodeToken segments;
               ranges = List.map_filter (\<lambda>x. case x of Inl _ \<Rightarrow> None | Inr r \<Rightarrow> Some r) parsed;
               invalid = filter (\<lambda>s. case parseHTTPStatusCodeToken s of Inl _ \<Rightarrow> True | Inr _ \<Rightarrow> False) segments
           in if invalid \<noteq> [] then Inl (js ''invalid http status code rules: '' @ join (js '', '') invalid)
              else (case stable_sort (\<lambda>a b. \<not> range_less b a) ranges of
                      [] \<Rightarrow> Inr []
                    | r # rs \<Rightarrow> Inr (foldl extend_last [r] rs)))"

definition statusCodeRangesToString :: "status_code_range list \<Rightarrow> jstring" where
  "statusCodeRangesToString ranges = (if ranges = [] then [] else join (js '','') (map range_token ranges))"

fun match_ranges :: "status_code_range list \<Rightarrow> int \<Rightarrow> bool" where
  "match_ranges [] code = False"
| "match_ranges (r # rs) code =
     (if code < range_start r then False else if code \<le> range_end r then True else match_ranges rs code)"

definition shouldMatchStatusCodeRanges :: "status_code_range list \<Rightarrow> int \<Rightarrow> bool" where
  "shouldMatchStatusCodeRanges ranges code = (if code < 100 \<or> 599 < code then False else match_ranges ranges code)"

text \<open>The two package variables, with their initial values.\<close>

record operation_setting =
  AutomaticDisableStatusCodeRanges :: "status_code_range list"
  AutomaticRetryStatusCodeRanges :: "status_code_range list"

definition code_range :: "int \<Rightarrow> int \<Rightarrow> status_code_range" where
  "code_range s e = \<lparr>range_start = s, range_end = e\<rparr>"

definition default_setting :: operation_setting where
  "default_setting =
     \<lparr>AutomaticDisableStatusCodeRanges = [code_range 401 401],
      AutomaticRetryStatusCodeRanges =
        [code_range 100 199, code_range 300 399, code_range 401 407, code_range 409 499,
         code_range 500 503, code_range 505 523, code_range 525 599]\<rparr>"

definition AutomaticDisableStatusCodesToString :: "operation_setting \<Rightarrow> jstring" where
  "AutomaticDisableStatusCodesToString st = statusCodeRangesToString (AutomaticDisableStatusCodeRanges st)"

definition AutomaticDisableStatusCodesFromString ::
  "jstring \<Rightarrow> operation_setting \<Rightarrow> jstring + operation_setting" where
  "AutomaticDisableStatusCodesFromString s st =
     (case ParseHTTPStatusCodeRanges s of
        Inl err \<Rightarrow> Inl err
      | Inr ranges \<Rightarrow> Inr (st\<lparr>AutomaticDisableStatusCodeRanges := ranges\<rparr>))"

definition ShouldDisableByStatusCode :: "operation_setting \<Rightarrow> int \<Rightarrow> bool" where
  "ShouldDisableByStatusCode st code = shouldMatchStatusCodeRanges (AutomaticDisableStatusCodeRanges st) code"

definition AutomaticRetryStatusCodesToString :: "operation_setting \<Rightarrow> jstring" where
  "AutomaticRetryStatusCodesToString st = statusCodeRangesToString (AutomaticRetryStatusCodeRanges st)"

definition AutomaticRetryStatusCodesFromString ::
  "jstring \<Rightarrow> operation_setting \<Rightarrow> jstring + operation_setting" where
  "AutomaticRetryStatusCodesFromString s st =
     (case ParseHTTPStatusCodeRanges s of
        Inl err \<Rightarrow> Inl err
      | Inr ranges \<Rightarrow> Inr (st\<lparr>AutomaticRetryStatusCodeRanges := ranges\<rparr>))"

definition IsAlwaysSkipRetryStatusCode :: "int \<Rightarrow> bool" where
  "IsAlwaysSkipRetryStatusCode code \<longleftrightarrow> code \<in> {504, 524}"

definition ShouldRetryByStatusCode :: "operation_setting \<Rightarrow> int \<Rightarrow> bool" where
  "ShouldRetryByStatusCode st code =
     (if IsAlwaysSkipRetryStatusCode code then False
      else shouldMatchStatusCodeRanges (AutomaticRetryStatusCodeRanges st) code)"

end
