(* ===== verification/Status_Correct.thy ===== *)
theory Status_Correct
  imports Status_Rules
begin

text \<open>
  What an operator types is what the server does: the text the form sends is accepted by the server,
  gives the same ranges, is shown again as the same text, and a status code is retried exactly when
  some rule of the operator covers it.  The invariant is \<open>separated\<close>: ranges in order with a gap between
  any two, which merging establishes and the early exit of the server's lookup relies on.
\<close>

section \<open>Splitting and trimming\<close>

lemma split_char_nonempty [simp]: "split_char d s \<noteq> []"
  by (cases s) auto

lemma split_char_none: "d \<notin> set s \<Longrightarrow> split_char d s = [s]"
  by (induction s) auto

lemma split_char_append: "d \<notin> set s \<Longrightarrow> split_char d (s @ d # t) = s # split_char d t"
  by (induction s) auto

lemma split_char_join:
  "xs \<noteq> [] \<Longrightarrow> (\<And>x. x \<in> set xs \<Longrightarrow> d \<notin> set x) \<Longrightarrow> split_char d (join [d] xs) = xs"
  by (induction "[d]" xs rule: join.induct) (auto simp: split_char_none split_char_append)

lemma set_join: "set (join sep xs) \<subseteq> set sep \<union> (\<Union>x \<in> set xs. set x)"
  by (induction sep xs rule: join.induct) auto

lemma go_trim_id: "(\<And>c. c \<in> set s \<Longrightarrow> \<not> go_space c) \<Longrightarrow> go_trim s = s"
  unfolding go_trim_def by (metis dropWhile_eq_self_iff hd_in_set rev_rev_ident set_rev)

section \<open>Merging\<close>

definition covers :: "status_code_range list \<Rightarrow> int \<Rightarrow> bool" where
  "covers rs code = list_ex (\<lambda>r. range_start r \<le> code \<and> code \<le> range_end r) rs"

definition proper :: "status_code_range \<Rightarrow> bool" where
  "proper r \<longleftrightarrow> 100 \<le> range_start r \<and> range_start r \<le> range_end r \<and> range_end r \<le> 599"

definition apart :: "status_code_range \<Rightarrow> status_code_range \<Rightarrow> bool" where
  "apart a b \<longleftrightarrow> range_end a + 1 < range_start b"

definition separated :: "status_code_range list \<Rightarrow> bool" where
  "separated rs \<longleftrightarrow> sorted_wrt apart rs \<and> list_all proper rs"

lemma covers_simps [simp]:
  "\<not> covers [] code"
  "covers (r # rs) code \<longleftrightarrow> range_start r \<le> code \<and> code \<le> range_end r \<or> covers rs code"
  "covers (rs @ ss) code \<longleftrightarrow> covers rs code \<or> covers ss code"
  by (auto simp: covers_def)

lemma covers_set: "covers rs code \<longleftrightarrow> (\<exists>r \<in> set rs. range_start r \<le> code \<and> code \<le> range_end r)"
  by (simp add: covers_def list_ex_iff)

interpretation range_order: total_preorder range_le
  by unfold_locales (auto simp: range_le_def split: if_splits)

lemma merge_range_snoc:
  "merge_range (rs @ [l]) r =
     (if range_end l + 1 < range_start r then rs @ [l, r]
      else rs @ [l\<lparr>range_end := max (range_end l) (range_end r)\<rparr>])"
  by (simp add: merge_range_def)

lemma merge_range_step:
  assumes "separated rs" and "proper r" and "rs \<noteq> [] \<Longrightarrow> range_start (last rs) \<le> range_start r"
  shows "separated (merge_range rs r)"
    and "covers (merge_range rs r) code \<longleftrightarrow> covers rs code \<or> range_start r \<le> code \<and> code \<le> range_end r"
    and "merge_range rs r \<noteq> []"
    and "range_start (last (merge_range rs r)) \<le> range_start r"
proof -
  have "separated (merge_range rs r)
      \<and> (covers (merge_range rs r) code \<longleftrightarrow> covers rs code \<or> range_start r \<le> code \<and> code \<le> range_end r)
      \<and> merge_range rs r \<noteq> [] \<and> range_start (last (merge_range rs r)) \<le> range_start r"
  proof (cases rs rule: rev_cases)
    case Nil
    with assms show ?thesis by (auto simp: merge_range_def separated_def)
  next
    case (snoc ls l)
    with assms show ?thesis
      by (auto simp: merge_range_snoc separated_def sorted_wrt_append apart_def proper_def)
  qed
  then show "separated (merge_range rs r)"
    and "covers (merge_range rs r) code \<longleftrightarrow> covers rs code \<or> range_start r \<le> code \<and> code \<le> range_end r"
    and "merge_range rs r \<noteq> []"
    and "range_start (last (merge_range rs r)) \<le> range_start r" by blast+
qed

lemma fold_merge_range:
  assumes "separated rs" and "list_all proper xs" and "sorted_wrt range_le xs"
    and "\<And>x. x \<in> set xs \<Longrightarrow> rs \<noteq> [] \<Longrightarrow> range_start (last rs) \<le> range_start x"
  shows "separated (foldl merge_range rs xs)
    \<and> (covers (foldl merge_range rs xs) code \<longleftrightarrow> covers rs code \<or> covers xs code)"
  using assms
proof (induction xs arbitrary: rs)
  case (Cons x xs)
  then have p: "proper x" and l: "rs \<noteq> [] \<Longrightarrow> range_start (last rs) \<le> range_start x" by auto
  note step = merge_range_step [OF Cons.prems(1) p l]
  have "range_start (last (merge_range rs x)) \<le> range_start y" if "y \<in> set xs" for y
    using that step(4) Cons.prems(3) by (fastforce simp: range_le_def split: if_splits)
  then have "separated (foldl merge_range (merge_range rs x) xs)
      \<and> (covers (foldl merge_range (merge_range rs x) xs) code
           \<longleftrightarrow> covers (merge_range rs x) code \<or> covers xs code)"
    using Cons.prems step(1) by (intro Cons.IH) auto
  then show ?case using step(2) by auto
qed simp

lemma mergeRanges_separated: "list_all proper rs \<Longrightarrow> separated (mergeRanges rs)"
  using fold_merge_range [of "[]" "stable_sort range_le rs"] range_order.sorted_sort [of rs]
  by (simp add: mergeRanges_def separated_def list_all_iff)

lemma mergeRanges_covers: "list_all proper rs \<Longrightarrow> covers (mergeRanges rs) code \<longleftrightarrow> covers rs code"
  using fold_merge_range [of "[]" "stable_sort range_le rs" code] range_order.sorted_sort [of rs]
  by (auto simp: mergeRanges_def separated_def list_all_iff covers_set)

text \<open>A separated list is already sorted and merged.\<close>

lemma insert_first: "(\<And>y. y \<in> set ys \<Longrightarrow> le x y) \<Longrightarrow> insert_le le x ys = x # ys"
  by (cases ys) auto

lemma stable_sort_sorted: "sorted_wrt le xs \<Longrightarrow> stable_sort le xs = xs"
  by (induction xs) (auto simp: stable_sort_def insert_first)

lemma separated_sorted: "separated rs \<Longrightarrow> sorted_wrt (\<lambda>a b. \<not> range_less b a) rs"
  unfolding separated_def
  by (rule sorted_wrt_mono_rel [of _ apart]) (auto simp: list_all_iff apart_def proper_def range_less_def)

lemma extend_separated: "separated (rs @ xs) \<Longrightarrow> rs \<noteq> [] \<Longrightarrow> foldl extend_last rs xs = rs @ xs"
proof (induction xs arbitrary: rs)
  case (Cons x xs)
  have "apart (last rs) x" using Cons.prems by (simp add: separated_def sorted_wrt_append)
  then have "extend_last rs x = rs @ [x]" by (simp add: extend_last_def apart_def)
  with Cons.IH [of "rs @ [x]"] Cons.prems show ?case by simp
qed simp

section \<open>Lookup\<close>

lemma match_separated: "separated rs \<Longrightarrow> match_ranges rs code \<longleftrightarrow> covers rs code"
proof (induction rs)
  case (Cons r rs)
  then have "\<not> covers rs code" if "code < range_start r"
    using that by (auto simp: covers_set separated_def apart_def proper_def)
  with Cons show ?case by (auto simp: separated_def)
qed simp

lemma shouldMatch_separated: "separated rs \<Longrightarrow> shouldMatchStatusCodeRanges rs code \<longleftrightarrow> covers rs code"
  by (auto simp: shouldMatchStatusCodeRanges_def match_separated)
     (auto simp: covers_set separated_def list_all_iff proper_def)

section \<open>Numbers and tokens\<close>

text \<open>\<open>parseInt\<close> may round, but never across the bounds of a code.\<close>

lemma parse_code_nat:
  "parse_code s = (if 100 \<le> nat_of_digits s \<and> nat_of_digits s \<le> 599 then Some (int (nat_of_digits s)) else None)"
proof (cases "nat_of_digits s \<le> 2 ^ 53")
  case True
  then have "\<bar>int (nat_of_digits s)\<bar> \<le> 2 ^ 53" by simp
  then have "round_double (of_int (int (nat_of_digits s))) = Fin (of_int (int (nat_of_digits s)))"
    by (intro round_double_fixes_dyadic dyadic_of_int)
  then show ?thesis by (simp add: parse_code_def isValidCode_def Let_def)
next
  case False
  then have "(2::rat) ^ 53 \<le> of_nat (nat_of_digits s)"
    by (metis le_cases of_nat_le_iff of_nat_numeral of_nat_power)
  with round_mag_ge_pow53 [OF this] have "\<not> isValidCode (round_double (of_nat (nat_of_digits s)))"
    by (auto simp: isValidCode_def round_double_def Let_def split: if_splits)
  with False show ?thesis by (simp add: parse_code_def Let_def)
qed

lemma parseToken_proper: "parseToken t = Some r \<Longrightarrow> proper r"
  by (auto simp: parseToken_def Let_def parse_code_nat proper_def split: if_splits list.splits option.splits)

lemma digits_plain: "c \<in> set (digits_of n) \<Longrightarrow> 48 \<le> c \<and> c \<le> 57"
  using digits_of_digit by (auto simp: is_digit_def)

lemma code_text: "0 \<le> i \<Longrightarrow> digits_of_int i = digits_of (nat i)"
  by (simp add: digits_of_int_def)

lemma token_chars: "proper r \<Longrightarrow> c \<in> set (range_token r) \<Longrightarrow> c = 45 \<or> 48 \<le> c \<and> c \<le> 57"
  by (auto simp: range_token_def code_text proper_def js_def dest: digits_plain split: if_splits)

lemma token_nonempty [simp]: "range_token r \<noteq> []"
  by (simp add: range_token_def digits_of_int_def)

lemma plain_chars: "c = 44 \<or> c = 45 \<or> 48 \<le> c \<and> c \<le> 57 \<Longrightarrow> \<not> go_space c \<and> c \<noteq> 32 \<and> plain_comma c = c"
  by (auto simp: go_space_def plain_comma_def)

lemma atoi_digits: "n \<le> 599 \<Longrightarrow> atoi (digits_of n) = Some (int n)"
proof -
  assume n: "n \<le> 599"
  have "hd (digits_of n) \<in> set (digits_of n)" by simp
  then have "hd (digits_of n) \<notin> {43, 45}" using digits_plain [of "hd (digits_of n)" n] by auto
  moreover have "list_all is_digit (digits_of n)" by (simp add: list_all_iff digits_of_digit)
  ultimately show ?thesis using n by (simp add: atoi_def Let_def)
qed

lemma server_reads_token:
  assumes "proper r"
  shows "parseHTTPStatusCodeToken (range_token r) = Inr r"
proof -
  let ?s = "digits_of (nat (range_start r))" and ?e = "digits_of (nat (range_end r))"
  have clean: "go_trim (range_token r) = range_token r" "filter (\<lambda>c. c \<noteq> 32) (range_token r) = range_token r"
    using token_chars [OF assms] plain_chars by (blast intro: go_trim_id, intro filter_True) blast
  have dash: "45 \<notin> set ?s" "45 \<notin> set ?e" by (auto dest: digits_plain)
  have "range_token r = (if range_start r = range_end r then ?s else ?s @ 45 # ?e)"
    using assms by (auto simp: range_token_def code_text proper_def js_def)
  moreover have "split_char 45 (?s @ 45 # ?e) = [?s, ?e]"
    using dash by (simp add: split_char_append split_char_none)
  ultimately show ?thesis using assms dash clean
    by (auto simp: parseHTTPStatusCodeToken_def Let_def atoi_digits proper_def)
qed

lemma map_filter_Inr: "List.map_filter (\<lambda>x. case x of Inl _ \<Rightarrow> None | Inr r \<Rightarrow> Some r) (map Inr rs) = rs"
  by (simp add: map_filter_def comp_def)

lemma server_reads_tokens:
  assumes "separated rs"
  shows "ParseHTTPStatusCodeRanges (join (js '','') (map range_token rs)) = Inr rs"
proof (cases rs)
  case Nil
  then show ?thesis by (simp add: ParseHTTPStatusCodeRanges_def go_trim_def)
next
  case (Cons r rest)
  let ?t = "join [44] (map range_token rs)"
  have p: "\<And>r. r \<in> set rs \<Longrightarrow> proper r" using assms by (auto simp: separated_def list_all_iff)
  have chars: "\<not> go_space c \<and> c \<noteq> 32 \<and> plain_comma c = c" if "c \<in> set ?t" for c
    using that set_join [of "[44]" "map range_token rs"] p token_chars by (intro plain_chars) fastforce
  have nc: "44 \<notin> set x" if "x \<in> set (map range_token rs)" for x using that p token_chars by fastforce
  have "map plain_comma (go_trim ?t) = ?t" using chars go_trim_id [of ?t] by (simp add: map_idI)
  moreover have "split_char 44 ?t = map range_token rs" using Cons nc by (intro split_char_join) auto
  ultimately have split: "split_char 44 (map plain_comma (go_trim ?t)) = map range_token rs" by simp
  have trims: "map go_trim (map range_token rs) = map range_token rs"
    using p token_chars plain_chars by (auto intro!: go_trim_id)
  have segs: "filter (\<lambda>s. s \<noteq> []) (map go_trim (split_char 44 (map plain_comma (go_trim ?t)))) = map range_token rs"
    unfolding split trims by (simp add: filter_map comp_def)
  have parsed: "map parseHTTPStatusCodeToken (map range_token rs) = map Inr rs"
    using p by (simp add: server_reads_token)
  have valid: "filter (\<lambda>s. case parseHTTPStatusCodeToken s of Inl _ \<Rightarrow> True | Inr _ \<Rightarrow> False) (map range_token rs) = []"
    using p by (auto simp: filter_empty_conv server_reads_token)
  have sorted: "stable_sort (\<lambda>a b. \<not> range_less b a) rs = rs"
    by (rule stable_sort_sorted [OF separated_sorted [OF assms]])
  have "?t \<noteq> []" using Cons by (cases rest) auto
  then have ne: "go_trim ?t \<noteq> []" using chars go_trim_id [of ?t] by simp
  have "foldl extend_last [r] rest = rs" using extend_separated [of "[r]" rest] assms Cons by simp
  then have "(case rs of [] \<Rightarrow> Inr [] | r # rs \<Rightarrow> Inr (foldl extend_last [r] rs)) = Inr rs" by (simp add: Cons)
  with ne have "ParseHTTPStatusCodeRanges ?t = Inr rs"
    by (simp only: ParseHTTPStatusCodeRanges_def Let_def segs parsed valid map_filter_Inr sorted if_False not_True_eq_False simp_thms)
  then show ?thesis by (simp add: js_def)
qed

section \<open>The form and the server together\<close>

lemma rule_segments_Nil [simp]: "rule_segments [] = []"
  by (simp add: rule_segments_def trim_def)

lemma form_ranges:
  assumes "rules_ok (parseHttpStatusCodeRules (Some inp))"
  defines "rs \<equiv> List.map_filter parseToken (rule_segments (trim inp))"
  shows "rules_ranges (parseHttpStatusCodeRules (Some inp)) = mergeRanges rs"
    and "rules_normalized (parseHttpStatusCodeRules (Some inp)) = statusCodeRangesToString (mergeRanges rs)"
    and "list_all proper rs"
    and "covers rs code \<longleftrightarrow> (\<exists>seg \<in> set (rule_segments (trim inp)). \<exists>r. parseToken seg = Some r
           \<and> range_start r \<le> code \<and> code \<le> range_end r)"
proof -
  show "rules_ranges (parseHttpStatusCodeRules (Some inp)) = mergeRanges rs"
    and "rules_normalized (parseHttpStatusCodeRules (Some inp)) = statusCodeRangesToString (mergeRanges rs)"
    using assms(1)
    by (auto simp: parseHttpStatusCodeRules_def rs_def Let_def statusCodeRangesToString_def mergeRanges_def
        split: if_splits)
  show "list_all proper rs"
    by (auto simp: rs_def list_all_iff map_filter_def dest: parseToken_proper)
  show "covers rs code \<longleftrightarrow> (\<exists>seg \<in> set (rule_segments (trim inp)). \<exists>r. parseToken seg = Some r
           \<and> range_start r \<le> code \<and> code \<le> range_end r)"
    by (force simp: rs_def covers_set map_filter_def)
qed

lemma server_reads_string: "separated rs \<Longrightarrow> ParseHTTPStatusCodeRanges (statusCodeRangesToString rs) = Inr rs"
  using server_reads_tokens [of rs] by (cases rs) (auto simp: statusCodeRangesToString_def)

lemma form_matches:
  assumes "rules_ok (parseHttpStatusCodeRules (Some inp))"
  defines "rs \<equiv> mergeRanges (List.map_filter parseToken (rule_segments (trim inp)))"
  shows "separated rs"
    and "shouldMatchStatusCodeRanges rs code
      \<longleftrightarrow> (\<exists>seg \<in> set (rule_segments (trim inp)). \<exists>r. parseToken seg = Some r
             \<and> range_start r \<le> code \<and> code \<le> range_end r)"
proof -
  note form = form_ranges [OF assms(1)]
  show sep: "separated rs" unfolding rs_def using form(3) by (rule mergeRanges_separated)
  show "shouldMatchStatusCodeRanges rs code
      \<longleftrightarrow> (\<exists>seg \<in> set (rule_segments (trim inp)). \<exists>r. parseToken seg = Some r
             \<and> range_start r \<le> code \<and> code \<le> range_end r)"
    unfolding shouldMatch_separated [OF sep] unfolding rs_def mergeRanges_covers [OF form(3)] form(4) ..
qed

lemma disable_rules_enforced:
  assumes "rules_ok (parseHttpStatusCodeRules (Some inp))"
    and "AutomaticDisableStatusCodesFromString (rules_normalized (parseHttpStatusCodeRules (Some inp))) st = Inr st'"
  shows "ShouldDisableByStatusCode st' code
      \<longleftrightarrow> (\<exists>seg \<in> set (rule_segments (trim inp)). \<exists>r. parseToken seg = Some r
             \<and> range_start r \<le> code \<and> code \<le> range_end r)"
proof -
  have "st' = st\<lparr>AutomaticDisableStatusCodeRanges
      := mergeRanges (List.map_filter parseToken (rule_segments (trim inp)))\<rparr>"
    using assms(2) by (simp add: AutomaticDisableStatusCodesFromString_def form_ranges(2) [OF assms(1)]
        server_reads_string [OF form_matches(1) [OF assms(1)]])
  then show ?thesis by (simp add: ShouldDisableByStatusCode_def form_matches(2) [OF assms(1)])
qed



text \<open>
  The form drops what follows a second dash and accepts a token that the server rejects.
\<close>

lemma second_dash_dropped:
  "parseToken (js ''100-200-300'') = Some (code_range 100 200)"
  "parseHTTPStatusCodeToken (js ''100-200-300'') = Inl (js ''invalid range token: 100-200-300'')"
  by code_simp+

end
