(* ===== verification/Spec2Isabelle.thy ===== *)
theory Spec2Isabelle
  imports Task_Pricing_Correct Condition_Correct Table_Correct Rules_Correct Task_Correct Visual_Correct
    Dynamic_Correct Seed_Random Status_Correct
begin

text \<open>
  \<^bold>\<open>A verification library for the pricing of the token gateway\<close>

  The gateway sells access to models.  An operator prices a model with an expression such as
  \<open>len <= 200000 ? tier("standard", p * 2.5 + c * 10) : tier("long", p * 5 + c * 15)\<close>.  The web client
  (\<open>src/web/src\<close>) parses, checks, compiles and caches the expression, estimates the cost of a request
  with it, shows it as tables of tiers, prices and conditions, and edits it in three editors.  The
  library models this path from the text of an expression to the figures on the price list, and the
  status code rules that the client and the server both parse.

  Paths below are relative to \<open>src/web/src/features/pricing/lib\<close> unless they start otherwise.

  \<^bold>\<open>The language underneath.\<close>
  \<^item> \<open>Prelude\<close>: calls that may throw as \<open>'e + 'a\<close> (\<open>bnd\<close>, \<open>fold_m\<close>), slices and spans of lists.
  \<^item> \<open>JS_Number\<close>: numbers as exact rationals with NaN, the infinities and the negative zero; every
    operation rounds to binary64, ties to even.  Shown: rounding keeps what is representable, and
    integers up to 2 ^ 53 are exact.
  \<^item> \<open>JS_String\<close>: strings as lists of UTF-16 code units, trimming, decimal text of numbers both ways.
  \<^item> \<open>JS_Value\<close>, \<open>JS_Json\<close>, \<open>JS_Regex\<close>: values of unknown shape, \<open>JSON.parse\<close> and its round trip with
    \<open>JSON.stringify\<close> on strings, and backtracking regular expressions, total by the length of the text.
  \<^item> \<open>JS_Sort\<close>: the stable sort; the locale \<open>total_preorder\<close> is what it needs of a comparison.
  \<^item> \<open>Memo_Table\<close>: the locale of a table of remembered results, interpreted by the cache of compiled
    expressions and by the table of time zones of a run.

  \<^bold>\<open>The expression language\<close> (\<open>billing-expression/\<close>).
  \<^item> \<open>Expr_Types\<close> is \<open>types.ts\<close>: the tree with source spans, diagnostics, the traversal with an explicit
    stack.  The traversal is the recursive postorder one, cut off at depth 256.
  \<^item> \<open>Expr_Lexer\<close>, \<open>Expr_Parser\<close>, \<open>Expr_Check\<close> are \<open>parser.ts\<close>: the class \<open>BillingParser\<close> with its fields
    as the record \<open>parser_state\<close>, the type checker, the check of fixed prices, and the compiler with its
    cache.  The parser terminates on every text and fails only with its own diagnostics; trees are well
    formed and their nodes have different spans, so that the object identity the code uses for tables
    of nodes is equality here.  The checker is sound and complete for the inductive relation \<open>typed\<close>.
    The cache holds at most 128 entries and cannot be observed.
  \<^item> \<open>Expr_Runtime\<close> is \<open>runtime.ts\<close>: request paths, texts of values, time zones, the class
    \<open>BillingRuntime\<close> with its mutable fields as \<open>runtime_state\<close>.  \<open>Runtime_Correct\<close> and \<open>Runtime_Types\<close>:
    evaluation of a compiled expression never crashes, reports a finite non-negative cost and every
    request rule, does not depend on its history, keeps static types, and is exact on integers.  The
    locale \<open>state_relation\<close> proves once that a relation kept by the basic steps is kept by a run.
  \<^item> \<open>Expr_Structure\<close> is \<open>structure.ts\<close>: splitting and unwrapping of source text lose nothing.
  \<^item> \<open>Expr_Display\<close> and \<open>Display_Correct\<close> are \<open>display.ts\<close>: what the tables show is what is charged.  The
    locale \<open>tier_reader\<close> is a reader of chains of tiers; it is interpreted by the readers of token tiers
    and of task tiers, and gives that the first row whose conditions hold is the tier the evaluator
    reports.
  \<^item> \<open>Task_Display\<close> is \<open>task-display.ts\<close>, the expansion of task prices over enumerated fields.
    \<open>Task_Display_Correct\<close> (conditions), \<open>Task_Rows_Correct\<close> (rows as sums of products) and
    \<open>Task_Pricing_Correct\<close> (the table) show that one row applies to each request and prices it.
  \<^item> \<open>Condition_Display\<close> and \<open>Condition_Correct\<close> are \<open>condition-display.ts\<close>: conditions in words.
  \<^item> \<open>Visual_Document\<close> and \<open>Visual_Correct\<close> are \<open>visual.ts\<close>: the visual editor writes back an unedited
    document character for character, and an edit changes only the patched spans.

  \<^bold>\<open>Editors and tables.\<close>
  \<^item> \<open>Request_Rules\<close> is \<open>billing-expr.ts\<close>, \<open>Tier_Expr\<close> is \<open>tier-expr.ts\<close>; \<open>Rules_Correct\<close> has what they keep
    and, as theorems on concrete expressions, where splitting and the tier editor change a price.
  \<^item> \<open>Task_Expr\<close> is \<open>task-expr.ts\<close> and \<open>Task_Correct\<close> its combinations, matrix and normal form.
  \<^item> \<open>Task_Table\<close> is \<open>task-matrix-display.ts\<close> and \<open>Table_Correct\<close> composes it with the reader of task tiers
    and the evaluator.

  \<^bold>\<open>The price list.\<close>
  \<^item> \<open>Currency\<close> is \<open>src/web/src/lib/currency.ts\<close>: a price that is not zero is never shown as zero.
  \<^item> \<open>Pricing_Model\<close> has the record of a model (\<open>src/web/src/features/pricing/types.ts\<close>, \<open>constants.ts\<close>),
    \<open>model-helpers.ts\<close>, \<open>plugin-pricing.ts\<close>, \<open>filters.ts\<close>, \<open>price.ts\<close> and \<open>billing-mode.ts\<close>;
    \<open>Pricing_Correct\<close> that filtering and sorting keep the right models in the right order.
  \<^item> \<open>Price_Labels\<close> is \<open>src/web/src/lib/localized-text.ts\<close>, \<open>task-price-display.ts\<close>,
    \<open>breakdown-tier-match.ts\<close>; \<open>Dynamic_Price\<close> is \<open>dynamic-price.ts\<close>.  \<open>Dynamic_Correct\<close>: the range on a
    card is the range over all providers, and the row marked in a log entry is the row charged.
  \<^item> \<open>Seed_Random\<close> is \<open>seed.ts\<close> on 32-bit words: the doubles the code computes with never round.

  \<^bold>\<open>Status code rules.\<close>
  \<^item> \<open>Status_Rules\<close> is \<open>src/web/src/lib/http-status-code-rules.ts\<close> and its counterpart on the server,
    \<open>src/setting/operation_setting/status_code_ranges.go\<close>, with the two package variables as the record
    \<open>operation_setting\<close>.  \<open>Status_Correct\<close> composes them: what the form sends is accepted, and a code is
    retried exactly when a rule the operator typed covers it.

  \<^bold>\<open>State, errors, loops.\<close>  A method that changes fields takes and returns their record; the cache of
  compiled expressions is passed as an association list, oldest entry first.  A thrown value is \<open>Inl\<close>:
  a diagnostic of the program or an error of the language, so that \<open>never crashes\<close> is a statement.
  Every loop is a total function.  Fuel is used in two places.  The decimal text of a number is searched
  with 1 to 17 digits, and 17 digits determine every binary64 number; a theorem that needs a number to
  read back says so as a hypothesis.  For the mutually recursive methods of the parser \<open>parse\<close>
  gives four units per code unit of the source, each lexeme consumes at least one code unit and at most four calls go by without one, and \<open>parse_total\<close> shows that this is always enough.
  The other numbers are limits of the code itself, parts of its behaviour with the error it raises
  at them: 10000 tokens, a parser depth of 128, a traversal depth of 256, request values of depth 128, 128
  cached expressions, 20000 visits and 128 rows of an expanded task price, 256 combinations for
  the fallback row of the task price table.

  \<^bold>\<open>Parameters.\<close>  What the sources take from elsewhere is an argument: \<open>host\<close> (the time zone data of
  \<open>Intl.DateTimeFormat\<close> and lower case), the collation of \<open>localeCompare\<close>, the wording of translations,
  \<open>intl\<close> (number formatting of \<open>Intl.NumberFormat\<close>), the currency configuration of the store.  A
  property that relies on one names what it relies on as a hypothesis, and its witness has a concrete
  function for it.

  \<^bold>\<open>Not modelled.\<close>
  \<^item> \<open>mock-stats.ts\<close>, figures made up for a preview from the generator of \<open>seed.ts\<close>, with no contract.
  \<^item> React components, hooks, routes, styles and the generated route tree: they render what the
    functions above return, through libraries that are not part of the sources.
  \<^item> The other features and helpers of the client (sessions, channels, wallets, themes, the HTTP client):
    forms and requests around the server's interface.
  \<^item> The Go server apart from the status code rules, in particular its evaluator of expressions, which
    runs on a third-party expression engine: whether client and server charge the same is not shown here.
  \<^item> Task plugins, the desktop wrapper, scripts and deployment files.
\<close>

end
